(* ===== verification/Prelude.thy ===== *)
theory Prelude
  imports Main "HOL-Library.Word"
begin

text \<open>
  Shared types and lemmas of the development.

  \<^item> machine integers: \<open>u64\<close>, \<open>u32\<close>, \<open>u16\<close>, \<open>u8\<close> are words, \<open>i32\<close> is an \<open>int\<close>;
    byte vectors are lists of \<open>u8\<close>;
  \<^item> \<open>hashmap\<close>: Rust's \<^verbatim>\<open>HashMap\<close> as an association list whose order stands for the
    unspecified iteration order, with \<open>get\<close>, \<open>insert\<close>, \<open>remove\<close>, \<open>retain\<close> and the
    \<^verbatim>\<open>iter().filter_map(..).collect()\<close> idiom of the plugin;
  \<^item> the locales \<open>hash_table\<close> (the laws of such a map) and \<open>owned_table\<close> (a map whose
    values have an owner), with the lemmas about removing a client's entries proved once;
  \<^item> gRPC status values (\<open>code\<close>, \<open>status\<close>) and the result type \<open>'a rpc_result\<close>.
\<close>

named_theorems table_simps "rewriting of hash map lookups"
named_theorems handler_defs "definitions of the gRPC handlers"

type_synonym u64 = "64 word"
type_synonym u32 = "32 word"
type_synonym u16 = "16 word"
type_synonym u8 = "8 word"
type_synonym i32 = int
type_synonym bytes = "u8 list"

text \<open>Points in time and durations, in milliseconds.\<close>

type_synonym instant = nat
type_synonym duration = nat

section \<open>gRPC status values\<close>

datatype code =
    Cancelled | Unknown | InvalidArgument | DeadlineExceeded | NotFound | AlreadyExists
  | PermissionDenied | ResourceExhausted | FailedPrecondition | Aborted | OutOfRange
  | Unimplemented | Internal | Unavailable | DataLoss | Unauthenticated

record status =
  st_code :: code
  st_message :: string

type_synonym 'a rpc_result = "status + 'a"

definition mk_status :: "code \<Rightarrow> string \<Rightarrow> status" where
  "mk_status c m = \<lparr>st_code = c, st_message = m\<rparr>"

lemma st_code_mk_status [simp]: "st_code (mk_status c m) = c"
  by (simp add: mk_status_def)

section \<open>Hash maps\<close>

type_synonym ('k, 'v) hashmap = "('k \<times> 'v) list"

definition hm_get :: "('k, 'v) hashmap \<Rightarrow> 'k \<Rightarrow> 'v option" where
  "hm_get m k = map_of m k"

definition hm_remove :: "'k \<Rightarrow> ('k, 'v) hashmap \<Rightarrow> ('k, 'v) hashmap" where
  "hm_remove k m = filter (\<lambda>kv. fst kv \<noteq> k) m"

definition hm_insert :: "'k \<Rightarrow> 'v \<Rightarrow> ('k, 'v) hashmap \<Rightarrow> ('k, 'v) hashmap" where
  "hm_insert k v m = (k, v) # hm_remove k m"

definition hm_retain :: "('v \<Rightarrow> bool) \<Rightarrow> ('k, 'v) hashmap \<Rightarrow> ('k, 'v) hashmap" where
  "hm_retain P m = filter (\<lambda>kv. P (snd kv)) m"

definition hm_keys_where :: "('v \<Rightarrow> bool) \<Rightarrow> ('k, 'v) hashmap \<Rightarrow> 'k list" where
  "hm_keys_where P m = map fst (filter (\<lambda>kv. P (snd kv)) m)"

definition hm_values_where :: "('v \<Rightarrow> bool) \<Rightarrow> ('k, 'v) hashmap \<Rightarrow> 'v list" where
  "hm_values_where P m = map snd (filter (\<lambda>kv. P (snd kv)) m)"

definition hm_keys :: "('k, 'v) hashmap \<Rightarrow> 'k set" where
  "hm_keys m = fst ` set m"

definition hm_ok :: "('k, 'v) hashmap \<Rightarrow> bool" where
  "hm_ok m \<longleftrightarrow> distinct (map fst m)"

lemma hm_get_empty [simp]: "hm_get [] k = None"
  by (simp add: hm_get_def)

lemma hm_get_Cons: "hm_get ((k, v) # m) k' = (if k' = k then Some v else hm_get m k')"
  by (simp add: hm_get_def)

lemma hm_get_remove [simp, table_simps]:
  "hm_get (hm_remove k m) k' = (if k' = k then None else hm_get m k')"
  by (induction m) (auto simp: hm_get_def hm_remove_def)

lemma hm_get_insert [simp, table_simps]:
  "hm_get (hm_insert k v m) k' = (if k' = k then Some v else hm_get m k')"
  by (simp add: hm_insert_def hm_get_Cons)

lemma hm_keys_get: "k \<in> hm_keys m \<longleftrightarrow> hm_get m k \<noteq> None"
  by (simp add: hm_keys_def hm_get_def map_of_eq_None_iff)

lemma hm_get_retain [table_simps]:
  "hm_ok m \<Longrightarrow>
   hm_get (hm_retain P m) k =
     (case hm_get m k of None \<Rightarrow> None | Some v \<Rightarrow> if P v then Some v else None)"
proof (induction m)
  case (Cons kv m)
  obtain k0 v0 where kv: "kv = (k0, v0)" by (cases kv)
  from Cons.prems kv have new: "hm_get m k0 = None" and ok: "hm_ok m"
    by (auto simp: hm_ok_def hm_get_def map_of_eq_None_iff)
  from Cons.IH [OF ok] new kv show ?case
    by (cases "k = k0") (auto simp: hm_retain_def hm_get_Cons)
qed (simp add: hm_retain_def)

lemma hm_keys_where_get:
  "hm_ok m \<Longrightarrow> k \<in> set (hm_keys_where P m) \<longleftrightarrow> (\<exists>v. hm_get m k = Some v \<and> P v)"
  by (force simp: hm_keys_where_def hm_get_def hm_ok_def image_iff)

lemma hm_ok_empty [simp]: "hm_ok []"
  by (simp add: hm_ok_def)

lemma hm_ok_remove [simp]: "hm_ok m \<Longrightarrow> hm_ok (hm_remove k m)"
  by (simp add: hm_ok_def hm_remove_def distinct_map_filter)

lemma hm_ok_insert [simp]: "hm_ok m \<Longrightarrow> hm_ok (hm_insert k v m)"
  by (auto simp: hm_ok_def hm_insert_def hm_remove_def distinct_map_filter)

lemma hm_ok_retain [simp]: "hm_ok m \<Longrightarrow> hm_ok (hm_retain P m)"
  by (simp add: hm_ok_def hm_retain_def distinct_map_filter)

text \<open>The laws of a map, and what follows from them for the idioms of the plugin.\<close>

locale hash_table =
  fixes get :: "'m \<Rightarrow> 'k \<Rightarrow> 'v option"
    and insert_entry :: "'k \<Rightarrow> 'v \<Rightarrow> 'm \<Rightarrow> 'm"
    and remove_entry :: "'k \<Rightarrow> 'm \<Rightarrow> 'm"
    and retain :: "('v \<Rightarrow> bool) \<Rightarrow> 'm \<Rightarrow> 'm"
    and keys_where :: "('v \<Rightarrow> bool) \<Rightarrow> 'm \<Rightarrow> 'k list"
    and ok :: "'m \<Rightarrow> bool"
  assumes get_insert: "get (insert_entry k v m) k' = (if k' = k then Some v else get m k')"
    and get_remove: "get (remove_entry k m) k' = (if k' = k then None else get m k')"
    and get_retain: "ok m \<Longrightarrow> get (retain P m) k =
      (case get m k of None \<Rightarrow> None | Some v \<Rightarrow> if P v then Some v else None)"
    and keys_where_get: "ok m \<Longrightarrow> k \<in> set (keys_where P m) \<longleftrightarrow> (\<exists>v. get m k = Some v \<and> P v)"
    and ok_insert: "ok m \<Longrightarrow> ok (insert_entry k v m)"
    and ok_remove: "ok m \<Longrightarrow> ok (remove_entry k m)"
    and ok_retain: "ok m \<Longrightarrow> ok (retain P m)"
begin

lemma get_remove_all:
  "get (fold remove_entry ks m) k = (if k \<in> set ks then None else get m k)"
  by (induction ks arbitrary: m) (auto simp: get_remove)

lemma ok_remove_all: "ok m \<Longrightarrow> ok (fold remove_entry ks m)"
  by (induction ks arbitrary: m) (auto simp: ok_remove)

text \<open>
  Collecting the keys whose value satisfies \<open>P\<close> and removing them one by one is, for every
  lookup, the same as one \<open>retain\<close> of the complement.
\<close>

lemma remove_selected_eq_retain:
  "ok m \<Longrightarrow> get (fold remove_entry (keys_where P m) m) k = get (retain (\<lambda>v. \<not> P v) m) k"
  by (auto simp: get_remove_all get_retain keys_where_get split: option.splits)

end

locale owned_table =
  hash_table get insert_entry remove_entry retain keys_where ok
  for get :: "'m \<Rightarrow> 'k \<Rightarrow> 'v option"
    and insert_entry :: "'k \<Rightarrow> 'v \<Rightarrow> 'm \<Rightarrow> 'm"
    and remove_entry :: "'k \<Rightarrow> 'm \<Rightarrow> 'm"
    and retain :: "('v \<Rightarrow> bool) \<Rightarrow> 'm \<Rightarrow> 'm"
    and keys_where :: "('v \<Rightarrow> bool) \<Rightarrow> 'm \<Rightarrow> 'k list"
    and ok :: "'m \<Rightarrow> bool" +
  fixes owner :: "'v \<Rightarrow> 'c"
begin

lemma remove_owned_none:
  assumes "ok m" and "get (fold remove_entry (keys_where (\<lambda>v. owner v = c) m) m) k = Some v"
  shows "owner v \<noteq> c"
  using assms by (auto simp: remove_selected_eq_retain get_retain split: option.splits if_splits)

lemma remove_owned_keeps:
  assumes "ok m" and "get m k = Some v" and "owner v \<noteq> c"
  shows "get (fold remove_entry (keys_where (\<lambda>v. owner v = c) m) m) k = Some v"
  using assms by (simp add: remove_selected_eq_retain get_retain)

end

interpretation hm: hash_table hm_get hm_insert hm_remove hm_retain hm_keys_where hm_ok
  by unfold_locales (simp_all add: hm_get_retain hm_keys_where_get)

section \<open>Words\<close>

lemma u64_less_Suc:
  fixes x n :: u64
  assumes "x < n" and "n \<noteq> -1"
  shows "x < n + 1"
proof -
  from assms(2) have "1 + n \<noteq> 0"
    by (metis add.inverse_inverse add.inverse_unique add.commute)
  then have "unat (n + 1) = Suc (unat n)"
    by (simp add: unatSuc add.commute)
  with assms(1) show ?thesis
    by (simp add: word_less_nat_alt)
qed

lemma u64_self_less_Suc:
  fixes n :: u64
  assumes "n \<noteq> -1"
  shows "n < n + 1"
proof -
  from assms have "1 + n \<noteq> 0"
    by (metis add.inverse_inverse add.inverse_unique add.commute)
  then show ?thesis
    by (simp add: word_less_nat_alt unatSuc add.commute)
qed

lemma not_exhausted:
  assumes "unat (n :: u64) + k < 2 ^ 64 - 1"
  shows "n \<noteq> -1"
proof
  assume "n = -1"
  then have "unat n = 2 ^ 64 - 1" by (simp add: unsigned_minus_1_eq_mask mask_eq_exp_minus_1)
  with assms show False by simp
qed

lemma unat_Suc_u64: "(n :: u64) \<noteq> -1 \<Longrightarrow> unat (n + 1) = Suc (unat n)"
  by (metis add.commute add.inverse_inverse add.inverse_unique unatSuc)

lemma u64_of_nat_eq_0:
  assumes "(of_nat n :: u64) = 0" and "n < 2 ^ 64"
  shows "n = 0"
proof -
  from assms(2) have "n = unat (of_nat n :: u64)" by (simp add: unat_of_nat)
  with assms(1) show ?thesis by simp
qed

end
