(* ===== verification/Queue.thy ===== *)
theory Queue
  imports Prelude
begin

text \<open>
  The bounded drop-oldest queue of the client core
  (\<^verbatim>\<open>zenoh-grpc-client-rs/src/queue.rs\<close>).

  The channel itself is the \<^verbatim>\<open>flume\<close> crate, which is not part of the repository: it is the
  parameter \<open>flume\<close> of every definition, and its documented behaviour is the locale
  \<open>bounded_channel\<close>. \<open>fifo_flume\<close> is an instance that satisfies it. The loop of \<open>push\<close> is a
  \<^theory_text>\<open>partial_function\<close>: \<open>None\<close> is a call that never returns. \<open>push_all_spec\<close> shows that
  every call returns when the capacity is positive and that a sequence of pushes keeps exactly the
  newest items.
\<close>

section \<open>The channel interface\<close>

datatype 't send_outcome = SendOk | SendFull 't | SendDisconnected 't

datatype 't recv_outcome = RecvOk 't | RecvEmpty | RecvDisconnected

record ('c, 't) flume =
  bounded :: "nat \<Rightarrow> 'c"
  try_send :: "'c \<Rightarrow> 't \<Rightarrow> 't send_outcome \<times> 'c"
  chan_try_recv :: "'c \<Rightarrow> 't recv_outcome \<times> 'c"
  chan_is_disconnected :: "'c \<Rightarrow> bool"
  drop_sender :: "'c \<Rightarrow> 'c"

section \<open>The queue\<close>

text \<open>
  \<^verbatim>\<open>DropOldestSender\<close> and \<^verbatim>\<open>DropOldestReceiver\<close> share the channel, the two counters and the
  \<^verbatim>\<open>Notify\<close>; \<open>notifications\<close> counts the calls of \<^verbatim>\<open>notify_waiters\<close>.
\<close>

record 'c drop_oldest =
  chan :: 'c
  dropped :: u64
  pending :: u64
  notifications :: nat

definition bounded_drop_oldest :: "('c, 't) flume \<Rightarrow> nat \<Rightarrow> 'c drop_oldest" where
  "bounded_drop_oldest F capacity =
     \<lparr>chan = bounded F capacity, dropped = 0, pending = 0, notifications = 0\<rparr>"

text \<open>The \<^verbatim>\<open>Result<(), T>\<close> of \<^verbatim>\<open>push\<close> carries the rejected item in its error.\<close>

partial_function (option) push ::
  "('c, 't) flume \<Rightarrow> 't \<Rightarrow> 'c drop_oldest \<Rightarrow> (('t + unit) \<times> 'c drop_oldest) option" where
  "push F item q =
     (case try_send F (chan q) item of
        (SendOk, c) \<Rightarrow> Some (Inr (), q\<lparr>chan := c, pending := pending q + 1\<rparr>)
      | (SendDisconnected it, c) \<Rightarrow> Some (Inl it, q\<lparr>chan := c\<rparr>)
      | (SendFull it, c) \<Rightarrow>
          (case chan_try_recv F c of
             (RecvOk x, c') \<Rightarrow>
               push F it (q\<lparr>chan := c', dropped := dropped q + 1, pending := pending q - 1,
                            notifications := Suc (notifications q)\<rparr>)
           | (RecvDisconnected, c') \<Rightarrow> Some (Inl it, q\<lparr>chan := c'\<rparr>)
           | (RecvEmpty, c') \<Rightarrow> push F it (q\<lparr>chan := c'\<rparr>)))"

definition dropped_count :: "'c drop_oldest \<Rightarrow> u64" where
  "dropped_count q = dropped q"

definition try_recv :: "('c, 't) flume \<Rightarrow> 'c drop_oldest \<Rightarrow> 't recv_outcome \<times> 'c drop_oldest" where
  "try_recv F q = (case chan_try_recv F (chan q) of (r, c) \<Rightarrow> (r, q\<lparr>chan := c\<rparr>))"

text \<open>
  \<^verbatim>\<open>recv\<close> and \<^verbatim>\<open>recv_async\<close> wait for an item or for the last sender to go: \<open>None\<close> while they
  wait, \<open>Some (Inl ())\<close> for \<^verbatim>\<open>RecvError\<close>.
\<close>

definition recv :: "('c, 't) flume \<Rightarrow> 'c drop_oldest \<Rightarrow> ((unit + 't) \<times> 'c drop_oldest) option" where
  "recv F q =
     (case chan_try_recv F (chan q) of
        (RecvOk x, c) \<Rightarrow> Some (Inr x, q\<lparr>chan := c\<rparr>)
      | (RecvDisconnected, c) \<Rightarrow> Some (Inl (), q\<lparr>chan := c\<rparr>)
      | (RecvEmpty, c) \<Rightarrow> None)"

definition is_disconnected :: "('c, 't) flume \<Rightarrow> 'c drop_oldest \<Rightarrow> bool" where
  "is_disconnected F q = chan_is_disconnected F (chan q)"

definition processed_one :: "'c drop_oldest \<Rightarrow> 'c drop_oldest" where
  "processed_one q = q\<lparr>pending := pending q - 1, notifications := Suc (notifications q)\<rparr>"

text \<open>A sequence of pushes whose results are all \<^verbatim>\<open>Ok\<close>.\<close>

fun push_all :: "('c, 't) flume \<Rightarrow> 't list \<Rightarrow> 'c drop_oldest \<Rightarrow> 'c drop_oldest option" where
  "push_all F [] q = Some q"
| "push_all F (x # xs) q =
     (case push F x q of Some (Inr _, q') \<Rightarrow> push_all F xs q' | _ \<Rightarrow> None)"

text \<open>Reference behaviour: the newest \<open>n\<close> items of a list.\<close>

definition newest :: "nat \<Rightarrow> 't list \<Rightarrow> 't list" where
  "newest n xs = drop (length xs - n) xs"

text \<open>Receiving \<open>n\<close> items one after the other, as a consumer that marks each one as processed.\<close>

fun consume :: "('c, 't) flume \<Rightarrow> nat \<Rightarrow> 'c drop_oldest \<Rightarrow> ('t list \<times> 'c drop_oldest) option" where
  "consume F 0 q = Some ([], q)"
| "consume F (Suc n) q =
     (case recv F q of
        Some (Inr x, q') \<Rightarrow> map_option (apfst ((#) x)) (consume F n (processed_one q'))
      | _ \<Rightarrow> None)"

section \<open>Documented behaviour of a bounded channel\<close>

text \<open>
  \<open>contents\<close> are the queued items, oldest first; \<open>capacity\<close> never changes; \<open>receivers\<close> says
  whether some receiver is left and \<open>senders\<close> is the number of senders.
\<close>

locale bounded_channel =
  fixes F :: "('c, 't) flume"
    and contents :: "'c \<Rightarrow> 't list"
    and capacity :: "'c \<Rightarrow> nat"
    and receivers :: "'c \<Rightarrow> bool"
    and senders :: "'c \<Rightarrow> nat"
  assumes bounded_new: "contents (bounded F n) = [] \<and> capacity (bounded F n) = n
        \<and> receivers (bounded F n) \<and> senders (bounded F n) = 1"
    and send_room: "receivers c \<Longrightarrow> length (contents c) < capacity c \<Longrightarrow>
      \<exists>c'. try_send F c x = (SendOk, c') \<and> contents c' = contents c @ [x]
        \<and> capacity c' = capacity c \<and> receivers c' \<and> senders c' = senders c"
    and send_full: "receivers c \<Longrightarrow> capacity c \<le> length (contents c) \<Longrightarrow>
      try_send F c x = (SendFull x, c)"
    and send_disconnected: "\<not> receivers c \<Longrightarrow> try_send F c x = (SendDisconnected x, c)"
    and recv_item: "contents c = x # xs \<Longrightarrow>
      \<exists>c'. chan_try_recv F c = (RecvOk x, c') \<and> contents c' = xs
        \<and> capacity c' = capacity c \<and> receivers c' = receivers c \<and> senders c' = senders c"
    and recv_empty: "contents c = [] \<Longrightarrow> 0 < senders c \<Longrightarrow> chan_try_recv F c = (RecvEmpty, c)"
    and recv_disconnected: "contents c = [] \<Longrightarrow> senders c = 0 \<Longrightarrow>
      chan_try_recv F c = (RecvDisconnected, c)"
    and is_disconnected_iff: "chan_is_disconnected F c \<longleftrightarrow> senders c = 0"
    and drop_sender_law: "contents (drop_sender F c) = contents c \<and> capacity (drop_sender F c) = capacity c
        \<and> receivers (drop_sender F c) = receivers c \<and> senders (drop_sender F c) = senders c - 1"
begin

lemma push_room:
  assumes "receivers (chan q)" and "length (contents (chan q)) < capacity (chan q)"
  shows "\<exists>q'. push F x q = Some (Inr (), q') \<and> contents (chan q') = contents (chan q) @ [x]
    \<and> capacity (chan q') = capacity (chan q) \<and> receivers (chan q')
    \<and> senders (chan q') = senders (chan q)
    \<and> dropped q' = dropped q \<and> pending q' = pending q + 1"
proof -
  from send_room [OF assms] obtain c' where
    "try_send F (chan q) x = (SendOk, c')" "contents c' = contents (chan q) @ [x]"
    "capacity c' = capacity (chan q)" "receivers c'" "senders c' = senders (chan q)" by blast
  then show ?thesis by (subst push.simps) simp
qed

lemma push_full:
  assumes r: "receivers (chan q)" and cap: "0 < capacity (chan q)"
    and full: "length (contents (chan q)) = capacity (chan q)"
  shows "\<exists>q'. push F x q = Some (Inr (), q') \<and> contents (chan q') = tl (contents (chan q)) @ [x]
    \<and> capacity (chan q') = capacity (chan q) \<and> receivers (chan q')
    \<and> senders (chan q') = senders (chan q)
    \<and> dropped q' = dropped q + 1 \<and> pending q' = pending q"
proof -
  from cap full obtain y ys where c: "contents (chan q) = y # ys"
    by (cases "contents (chan q)") auto
  from recv_item [OF c] obtain c' where c':
    "chan_try_recv F (chan q) = (RecvOk y, c')" "contents c' = ys"
    "capacity c' = capacity (chan q)" "receivers c' = receivers (chan q)"
    "senders c' = senders (chan q)" by blast
  let ?q = "q\<lparr>chan := c', dropped := dropped q + 1, pending := pending q - 1,
              notifications := Suc (notifications q)\<rparr>"
  from r full have step: "push F x q = push F x ?q"
    by (subst push.simps) (simp add: send_full c')
  have "receivers (chan ?q)" "length (contents (chan ?q)) < capacity (chan ?q)"
    using r full c c' by simp_all
  from push_room [OF this, of x] show ?thesis
    unfolding step using c c' by simp
qed

lemma push_no_receiver: "\<not> receivers (chan q) \<Longrightarrow> push F x q = Some (Inl x, q)"
  by (subst push.simps) (simp add: send_disconnected)

text \<open>One push: the queue holds the newest items, and the counters account for the rest.\<close>

lemma push_spec:
  assumes "receivers (chan q)" and "0 < capacity (chan q)"
    and "length (contents (chan q)) \<le> capacity (chan q)"
  shows "\<exists>q'. push F x q = Some (Inr (), q')
    \<and> contents (chan q') = newest (capacity (chan q)) (contents (chan q) @ [x])
    \<and> capacity (chan q') = capacity (chan q) \<and> receivers (chan q')
    \<and> senders (chan q') = senders (chan q)
    \<and> dropped q' = dropped q + of_nat (Suc (length (contents (chan q))) - capacity (chan q))
    \<and> pending q' - of_nat (length (contents (chan q'))) =
        pending q - of_nat (length (contents (chan q)))"
proof (cases "length (contents (chan q)) < capacity (chan q)")
  case True
  from push_room [OF assms(1) True, of x] True show ?thesis
    by (auto simp: newest_def)
next
  case False
  with assms(3) have full: "length (contents (chan q)) = capacity (chan q)" by simp
  from assms(2) full obtain y ys where c: "contents (chan q) = y # ys"
    by (cases "contents (chan q)") auto
  with full have cap: "capacity (chan q) = Suc (length ys)" by simp
  from push_full [OF assms(1,2) full, of x] c cap show ?thesis
    by (auto simp: newest_def)
qed

end

section \<open>An instance of the channel\<close>

record 't fifo =
  items :: "'t list"
  fifo_cap :: nat
  n_senders :: nat
  n_receivers :: nat

definition fifo_flume :: "('t fifo, 't) flume" where
  "fifo_flume =
     \<lparr>bounded = (\<lambda>n. \<lparr>items = [], fifo_cap = n, n_senders = 1, n_receivers = 2\<rparr>),
      try_send = (\<lambda>c x. if n_receivers c = 0 then (SendDisconnected x, c)
                        else if length (items c) < fifo_cap c then (SendOk, c\<lparr>items := items c @ [x]\<rparr>)
                        else (SendFull x, c)),
      chan_try_recv = (\<lambda>c. case items c of
                        x # xs \<Rightarrow> (RecvOk x, c\<lparr>items := xs\<rparr>)
                      | [] \<Rightarrow> if n_senders c = 0 then (RecvDisconnected, c) else (RecvEmpty, c)),
      chan_is_disconnected = (\<lambda>c. n_senders c = 0),
      drop_sender = (\<lambda>c. c\<lparr>n_senders := n_senders c - 1\<rparr>)\<rparr>"

interpretation fifo: bounded_channel fifo_flume items fifo_cap
  "\<lambda>c. n_receivers c \<noteq> 0" n_senders
  by unfold_locales (auto simp: fifo_flume_def)

lemma fifo_push_room:
  "n_receivers (chan q) \<noteq> 0 \<Longrightarrow> length (items (chan q)) < fifo_cap (chan q) \<Longrightarrow>
   push fifo_flume x q =
     Some (Inr (), q\<lparr>chan := (chan q)\<lparr>items := items (chan q) @ [x]\<rparr>, pending := pending q + 1\<rparr>)"
  by (subst push.simps) (simp add: fifo_flume_def)

lemma fifo_recv_Cons:
  "items (chan q) = x # xs \<Longrightarrow>
   recv fifo_flume q = Some (Inr x, q\<lparr>chan := (chan q)\<lparr>items := xs\<rparr>\<rparr>)"
  by (simp add: recv_def fifo_flume_def)

lemma fifo_chan_try_recv:
  "chan_try_recv fifo_flume c =
     (case items c of x # xs \<Rightarrow> (RecvOk x, c\<lparr>items := xs\<rparr>)
      | [] \<Rightarrow> if n_senders c = 0 then (RecvDisconnected, c) else (RecvEmpty, c))"
  by (simp add: fifo_flume_def)

lemma fifo_drop_sender: "drop_sender fifo_flume c = c\<lparr>n_senders := n_senders c - 1\<rparr>"
  by (simp add: fifo_flume_def)

lemma fifo_new:
  "bounded_drop_oldest fifo_flume n =
     \<lparr>chan = \<lparr>items = [], fifo_cap = n, n_senders = 1, n_receivers = 2\<rparr>, dropped = 0, pending = 0,
      notifications = 0\<rparr>"
  by (simp add: bounded_drop_oldest_def fifo_flume_def)

section \<open>Sequences of pushes\<close>

lemma newest_append: "newest n (newest n xs @ ys) = newest n (xs @ ys)"
  by (cases "n \<le> length xs") (simp_all add: newest_def drop_append add.commute)

lemma newest_id: "length xs \<le> n \<Longrightarrow> newest n xs = xs"
  by (simp add: newest_def)

lemma length_newest: "length (newest n xs) = min n (length xs)"
  by (simp add: newest_def)

context bounded_channel
begin

lemma push_all_newest:
  assumes "receivers (chan q)" and "0 < capacity (chan q)"
    and "length (contents (chan q)) \<le> capacity (chan q)"
  shows "\<exists>q'. push_all F xs q = Some q'
    \<and> contents (chan q') = newest (capacity (chan q)) (contents (chan q) @ xs)
    \<and> capacity (chan q') = capacity (chan q) \<and> receivers (chan q')
    \<and> senders (chan q') = senders (chan q)
    \<and> dropped q' = dropped q
        + of_nat (length (contents (chan q)) + length xs - capacity (chan q))
    \<and> pending q' - of_nat (length (contents (chan q'))) =
        pending q - of_nat (length (contents (chan q)))"
  using assms
proof (induction xs arbitrary: q)
  case Nil
  then show ?case by (simp add: newest_id)
next
  case (Cons x xs)
  from push_spec [OF Cons.prems, of x] obtain q1 where q1:
    "push F x q = Some (Inr (), q1)"
    "contents (chan q1) = newest (capacity (chan q)) (contents (chan q) @ [x])"
    "capacity (chan q1) = capacity (chan q)" "receivers (chan q1)" "senders (chan q1) = senders (chan q)"
    "dropped q1 = dropped q + of_nat (Suc (length (contents (chan q))) - capacity (chan q))"
    "pending q1 - of_nat (length (contents (chan q1))) =
       pending q - of_nat (length (contents (chan q)))" by blast
  have len: "length (contents (chan q1)) = min (capacity (chan q)) (Suc (length (contents (chan q))))"
    by (simp add: q1(2) length_newest)
  from Cons.IH [of q1] q1 Cons.prems len obtain q2 where q2: "push_all F xs q1 = Some q2"
    "contents (chan q2) = newest (capacity (chan q)) (contents (chan q1) @ xs)"
    "capacity (chan q2) = capacity (chan q)" "receivers (chan q2)" "senders (chan q2) = senders (chan q)"
    "dropped q2 = dropped q1 + of_nat (length (contents (chan q1)) + length xs - capacity (chan q))"
    "pending q2 - of_nat (length (contents (chan q2))) =
       pending q1 - of_nat (length (contents (chan q1)))" by auto
  have "dropped q2 = dropped q
      + of_nat (length (contents (chan q)) + length (x # xs) - capacity (chan q))"
    unfolding q2(6) q1(6) len add.assoc of_nat_add [symmetric]
    using Cons.prems(3) by (intro arg_cong [where f = "\<lambda>n. dropped q + of_nat n"]) simp
  moreover have "contents (chan q2) = newest (capacity (chan q)) (contents (chan q) @ x # xs)"
    unfolding q2(2) q1(2) newest_append by simp
  ultimately show ?case using q1 q2 by simp
qed

lemma consume_contents:
  assumes "n \<le> length (contents (chan q))"
  shows "\<exists>q'. consume F n q = Some (take n (contents (chan q)), q')
    \<and> contents (chan q') = drop n (contents (chan q)) \<and> pending q' = pending q - of_nat n"
  using assms
proof (induction n arbitrary: q)
  case (Suc n)
  then obtain x xs where c: "contents (chan q) = x # xs"
    by (cases "contents (chan q)") auto
  from recv_item [OF c] obtain c' where c': "chan_try_recv F (chan q) = (RecvOk x, c')"
    "contents c' = xs" by blast
  let ?q = "processed_one (q\<lparr>chan := c'\<rparr>)"
  have chan: "contents (chan ?q) = xs" and pend: "pending ?q = pending q - 1"
    by (simp_all add: processed_one_def c')
  from Suc.IH [of ?q] Suc.prems c chan obtain q' where
    "consume F n ?q = Some (take n xs, q')" "contents (chan q') = drop n xs"
    "pending q' = pending ?q - of_nat n" by auto
  with c c' pend show ?case by (simp add: recv_def)
qed simp

text \<open>A queue whose channel is in working order, and one operation on it.\<close>

definition queue_ok :: "nat \<Rightarrow> 'c drop_oldest \<Rightarrow> bool" where
  "queue_ok n q \<longleftrightarrow> receivers (chan q) \<and> capacity (chan q) = n \<and> 0 < n
     \<and> length (contents (chan q)) \<le> n"

lemma queue_ok_new: "0 < n \<Longrightarrow> queue_ok n (bounded_drop_oldest F n)"
  using bounded_new [of n] by (simp add: queue_ok_def bounded_drop_oldest_def)

lemma queue_ok_processed [simp]: "queue_ok n (processed_one q) = queue_ok n q"
  by (simp add: queue_ok_def processed_one_def)

lemma push_queue_ok:
  assumes "queue_ok n q"
  obtains q' where "push F x q = Some (Inr (), q')" "queue_ok n q'"
    "contents (chan q') = newest n (contents (chan q) @ [x])" "senders (chan q') = senders (chan q)"
    "pending q' - of_nat (length (contents (chan q'))) = pending q - of_nat (length (contents (chan q)))"
  using push_spec [of q x] assms by (auto simp: queue_ok_def length_newest)

lemma recv_Inr:
  assumes "recv F q = Some (Inr x, q')"
  shows "contents (chan q) = x # contents (chan q') \<and> capacity (chan q') = capacity (chan q)
    \<and> receivers (chan q') = receivers (chan q) \<and> senders (chan q') = senders (chan q)
    \<and> pending q' = pending q \<and> dropped q' = dropped q"
proof (cases "contents (chan q)")
  case Nil
  with assms show ?thesis
    by (cases "senders (chan q) = 0") (simp_all add: recv_def recv_empty recv_disconnected)
next
  case (Cons y ys)
  from recv_item [OF this] assms Cons show ?thesis by (auto simp: recv_def)
qed

lemma recv_Inl:
  assumes "recv F q = Some (Inl u, q')"
  shows "q' = q \<and> contents (chan q) = [] \<and> senders (chan q) = 0"
proof (cases "contents (chan q)")
  case Nil
  with assms show ?thesis
    by (cases "senders (chan q) = 0") (auto simp: recv_def recv_empty recv_disconnected)
next
  case (Cons y ys)
  from recv_item [OF this] assms show ?thesis by (auto simp: recv_def)
qed

lemma recv_Cons:
  assumes "contents (chan q) = x # xs"
  obtains q' where "recv F q = Some (Inr x, q')"
  using recv_item [OF assms] by (auto simp: recv_def)

lemma try_recv_cases:
  obtains x q' where "try_recv F q = (RecvOk x, q')" "recv F q = Some (Inr x, q')"
  | "try_recv F q = (RecvEmpty, q)" "contents (chan q) = []" "0 < senders (chan q)"
  | "try_recv F q = (RecvDisconnected, q)" "contents (chan q) = []" "senders (chan q) = 0"
proof (cases "contents (chan q)")
  case (Cons x xs)
  from recv_item [OF this] that(1) show ?thesis by (auto simp: try_recv_def recv_def)
next
  case Nil
  with that(2,3) show ?thesis
    by (cases "senders (chan q) = 0") (simp_all add: try_recv_def recv_empty recv_disconnected)
qed

lemma recv_disconnected_Inl:
  "contents (chan q) = [] \<Longrightarrow> senders (chan q) = 0 \<Longrightarrow> recv F q = Some (Inl (), q)"
  by (simp add: recv_def recv_disconnected)

lemma queue_ok_recv: "queue_ok n q \<Longrightarrow> recv F q = Some (r, q') \<Longrightarrow> queue_ok n q'"
  by (cases r) (auto simp: queue_ok_def dest: recv_Inr recv_Inl)

end

text \<open>
  C20: pushing any sequence \<open>xs\<close> into a fresh queue of positive capacity \<open>n\<close> always returns, over
  any channel that behaves as documented; afterwards the queue holds exactly the newest \<open>n\<close> items in
  order, \<open>dropped_count\<close> is the number of the older ones, and \<open>pending\<close> is the number of items left.
\<close>

theorem push_all_spec:
  assumes "bounded_channel F contents capacity receivers senders" and "0 < n"
  shows "\<exists>q. push_all F xs (bounded_drop_oldest F n) = Some q
    \<and> contents (chan q) = newest n xs
    \<and> dropped_count q = of_nat (length xs - n)
    \<and> pending q = of_nat (min n (length xs))"
proof -
  let ?q = "bounded_drop_oldest F n"
  have new: "contents (chan ?q) = []" "capacity (chan ?q) = n" "receivers (chan ?q)"
    "dropped ?q = 0" "pending ?q = 0"
    using bounded_channel.bounded_new [OF assms(1), of n] by (simp_all add: bounded_drop_oldest_def)
  from bounded_channel.push_all_newest [OF assms(1), of ?q xs] new assms(2) show ?thesis
    by (auto simp: dropped_count_def length_newest)
qed

theorem push_all_spec_witness:
  "(0::nat) < 2 \<and> (\<exists>q. push_all fifo_flume [1::nat, 2, 3] (bounded_drop_oldest fifo_flume 2) = Some q
     \<and> items (chan q) = [2, 3] \<and> dropped_count q = 1 \<and> pending q = 2)"
  using push_all_spec [OF fifo.bounded_channel_axioms, of 2 "[1::nat, 2, 3]"]
  by (simp add: newest_def)

text \<open>
  What goes in comes out in order. After pushing \<open>xs\<close> into a fresh queue of capacity \<open>n\<close>, a
  consumer receives exactly the newest \<open>n\<close> items, oldest of them first, and once each has been
  marked with \<open>processed_one\<close> the pending counter is back to zero.
\<close>

theorem push_all_consume:
  assumes "bounded_channel F contents capacity receivers senders" and "0 < n"
  shows "\<exists>q q'. push_all F xs (bounded_drop_oldest F n) = Some q
    \<and> consume F (min n (length xs)) q = Some (newest n xs, q')
    \<and> contents (chan q') = [] \<and> pending q' = 0"
proof -
  let ?q = "bounded_drop_oldest F n"
  have new: "contents (chan ?q) = []" "capacity (chan ?q) = n" "receivers (chan ?q)"
    "dropped ?q = 0" "pending ?q = 0"
    using bounded_channel.bounded_new [OF assms(1), of n] by (simp_all add: bounded_drop_oldest_def)
  from bounded_channel.push_all_newest [OF assms(1), of ?q xs] new assms(2) obtain q where
    q: "push_all F xs ?q = Some q" "contents (chan q) = newest n xs"
      "pending q = of_nat (min n (length xs))"
    by (auto simp: length_newest)
  from bounded_channel.consume_contents [OF assms(1), of "min n (length xs)" q] q show ?thesis
    by (auto simp: length_newest)
qed

theorem push_all_consume_witness:
  "(0::nat) < 2 \<and> (\<exists>q q'. push_all fifo_flume [7::nat, 8, 9] (bounded_drop_oldest fifo_flume 2) = Some q
     \<and> consume fifo_flume 2 q = Some ([8, 9], q') \<and> items (chan q') = [] \<and> pending q' = 0)"
  using push_all_consume [OF fifo.bounded_channel_axioms, of 2 "[7::nat, 8, 9]"]
  by (simp add: newest_def numeral_2_eq_2)

end
