(* ===== verification/Queue_Steps.thy ===== *)
theory Queue_Steps
  imports Queue
begin

text \<open>
  The drop-oldest queue of \<^verbatim>\<open>queue.rs\<close> under concurrency.

  The atomic operations of \<^verbatim>\<open>push\<close>, of a worker (\<^verbatim>\<open>recv_async\<close> followed by \<^verbatim>\<open>processed_one\<close>) and of
  \<^verbatim>\<open>wait_empty\<close> are the rules of one step relation, so that any number of producers, one worker and
  one waiter interleave freely. A \<^verbatim>\<open>Notify\<close> is the number of \<^verbatim>\<open>notify_waiters\<close> calls so far: a
  \<^verbatim>\<open>Notified\<close> future remembers the number at its creation and is ready once it has grown.
\<close>

text \<open>The worker: waiting for an item, holding one, or between \<^verbatim>\<open>fetch_sub\<close> and \<^verbatim>\<open>notify_waiters\<close>.\<close>

datatype consumer_pc = C_Recv | C_Busy | C_Subtracted

text \<open>
  The caller of \<^verbatim>\<open>wait_empty\<close>: before the load, after a load that was not zero and before the call of
  \<^verbatim>\<open>notified()\<close>, waiting on a future created at a notification count, or returned.
\<close>

datatype waiter_pc = W_Check | W_Loaded | W_Waiting nat | W_Done

text \<open>
  Producers are counted by the point they are at in \<^verbatim>\<open>push\<close>: after a successful \<^verbatim>\<open>try_send\<close> and before
  \<^verbatim>\<open>fetch_add\<close> (\<open>n_sent\<close>); after \<^verbatim>\<open>Full\<close> (\<open>n_full\<close>); after taking the oldest item and before
  \<^verbatim>\<open>fetch_sub\<close> (\<open>n_took\<close>); before \<^verbatim>\<open>notify_waiters\<close> (\<open>n_sub\<close>).
\<close>

record 't qsys =
  qs_items :: "'t list"
  qs_pending :: u64
  qs_dropped :: u64
  qs_epoch :: nat
  n_sent :: nat
  n_full :: nat
  n_took :: nat
  n_sub :: nat
  qs_consumer :: consumer_pc
  qs_waiter :: waiter_pc

definition qsys_init :: "'t qsys" where
  "qsys_init = \<lparr>qs_items = [], qs_pending = 0, qs_dropped = 0, qs_epoch = 0, n_sent = 0, n_full = 0,
     n_took = 0, n_sub = 0, qs_consumer = C_Recv, qs_waiter = W_Check\<rparr>"

inductive qstep :: "nat \<Rightarrow> 't qsys \<Rightarrow> 't qsys \<Rightarrow> bool" for cap :: nat where
  push_send: "length (qs_items s) < cap \<Longrightarrow>
    qstep cap s (s\<lparr>qs_items := qs_items s @ [x], n_sent := Suc (n_sent s)\<rparr>)"
| push_count: "n_sent s = Suc n \<Longrightarrow>
    qstep cap s (s\<lparr>n_sent := n, qs_pending := qs_pending s + 1\<rparr>)"
| push_full: "cap \<le> length (qs_items s) \<Longrightarrow>
    qstep cap s (s\<lparr>n_full := Suc (n_full s)\<rparr>)"
| push_take: "n_full s = Suc n \<Longrightarrow> qs_items s = y # ys \<Longrightarrow>
    qstep cap s (s\<lparr>n_full := n, qs_items := ys, n_took := Suc (n_took s),
                   qs_dropped := qs_dropped s + 1\<rparr>)"
| push_retry: "n_full s = Suc n \<Longrightarrow> qs_items s = [] \<Longrightarrow> qstep cap s (s\<lparr>n_full := n\<rparr>)"
| push_sub: "n_took s = Suc n \<Longrightarrow>
    qstep cap s (s\<lparr>n_took := n, qs_pending := qs_pending s - 1, n_sub := Suc (n_sub s)\<rparr>)"
| push_notify: "n_sub s = Suc n \<Longrightarrow>
    qstep cap s (s\<lparr>n_sub := n, qs_epoch := Suc (qs_epoch s)\<rparr>)"
| recv: "qs_consumer s = C_Recv \<Longrightarrow> qs_items s = y # ys \<Longrightarrow>
    qstep cap s (s\<lparr>qs_items := ys, qs_consumer := C_Busy\<rparr>)"
| processed_sub: "qs_consumer s = C_Busy \<Longrightarrow>
    qstep cap s (s\<lparr>qs_consumer := C_Subtracted, qs_pending := qs_pending s - 1\<rparr>)"
| processed_notify: "qs_consumer s = C_Subtracted \<Longrightarrow>
    qstep cap s (s\<lparr>qs_consumer := C_Recv, qs_epoch := Suc (qs_epoch s)\<rparr>)"
| wait_zero: "qs_waiter s = W_Check \<Longrightarrow> qs_pending s = 0 \<Longrightarrow>
    qstep cap s (s\<lparr>qs_waiter := W_Done\<rparr>)"
| wait_nonzero: "qs_waiter s = W_Check \<Longrightarrow> qs_pending s \<noteq> 0 \<Longrightarrow>
    qstep cap s (s\<lparr>qs_waiter := W_Loaded\<rparr>)"
| wait_register: "qs_waiter s = W_Loaded \<Longrightarrow>
    qstep cap s (s\<lparr>qs_waiter := W_Waiting (qs_epoch s)\<rparr>)"
| wait_wake: "qs_waiter s = W_Waiting e \<Longrightarrow> e < qs_epoch s \<Longrightarrow>
    qstep cap s (s\<lparr>qs_waiter := W_Check\<rparr>)"

inductive qreach :: "nat \<Rightarrow> 't qsys \<Rightarrow> bool" for cap :: nat where
  qreach_init: "qreach cap qsys_init"
| qreach_step: "qreach cap s \<Longrightarrow> qstep cap s t \<Longrightarrow> qreach cap t"

definition busy :: "consumer_pc \<Rightarrow> nat" where
  "busy c = (if c = C_Busy then 1 else 0)"

text \<open>What \<open>pending\<close> counts, exactly, at every point of every interleaving.\<close>

definition pending_inv :: "nat \<Rightarrow> 't qsys \<Rightarrow> bool" where
  "pending_inv cap s \<longleftrightarrow>
     qs_pending s + of_nat (n_sent s) =
       of_nat (length (qs_items s)) + of_nat (busy (qs_consumer s)) + of_nat (n_took s)
     \<and> length (qs_items s) \<le> cap"

lemma qstep_pending_inv: "qstep cap s t \<Longrightarrow> pending_inv cap s \<Longrightarrow> pending_inv cap t"
  by (induction rule: qstep.induct)
    (auto simp: pending_inv_def busy_def algebra_simps)

lemma qreach_pending_inv: "qreach cap s \<Longrightarrow> pending_inv cap s"
proof (induction rule: qreach.induct)
  case qreach_init
  show ?case by (simp add: pending_inv_def qsys_init_def busy_def)
next
  case (qreach_step s t)
  then show ?case by (blast intro: qstep_pending_inv)
qed

text \<open>
  \<^verbatim>\<open>wait_empty\<close> does not return early. In every interleaving, when no \<^verbatim>\<open>push\<close> is between its
  channel operation and its counter update and the waiter's load sees zero, the queue is empty and
  the worker holds no unprocessed item (for a capacity below \<open>2 ^ 64 - 1\<close>; the client uses 256).
\<close>

theorem wait_empty_sound:
  assumes "qreach cap s" and "n_sent s = 0" and "n_took s = 0" and "qs_pending s = 0"
    and "cap < 2 ^ 64 - 1"
  shows "qs_items s = [] \<and> qs_consumer s \<noteq> C_Busy"
proof -
  let ?n = "length (qs_items s) + busy (qs_consumer s)"
  from qreach_pending_inv [OF assms(1)] assms(2-4)
  have zero: "(of_nat ?n :: u64) = 0" and "length (qs_items s) \<le> cap"
    by (simp_all add: pending_inv_def)
  then have "?n < 2 ^ 64" using assms(5) by (simp add: busy_def)
  then have "?n = unat (of_nat ?n :: u64)"
    by (simp add: unat_of_nat del: of_nat_add)
  with zero have "?n = 0" by simp
  then show ?thesis by (auto simp: busy_def split: if_splits)
qed

definition one_processed :: "nat qsys" where
  "one_processed = qsys_init\<lparr>qs_epoch := 1\<rparr>"

lemma one_processed_reach: "qreach 256 one_processed"
proof -
  let ?s1 = "qsys_init\<lparr>qs_items := [0::nat], n_sent := 1\<rparr>"
  let ?s2 = "qsys_init\<lparr>qs_items := [0::nat], qs_pending := 1\<rparr>"
  let ?s3 = "qsys_init\<lparr>qs_pending := 1, qs_consumer := C_Busy\<rparr> :: nat qsys"
  let ?s4 = "qsys_init\<lparr>qs_consumer := C_Subtracted\<rparr> :: nat qsys"
  have "qstep 256 qsys_init ?s1"
    using push_send [of "qsys_init :: nat qsys" 256 0] by (simp add: qsys_init_def)
  moreover have "qstep 256 ?s1 ?s2"
    using push_count [of ?s1 0 256] by (simp add: qsys_init_def)
  moreover have "qstep 256 ?s2 ?s3"
    using qstep.recv [of ?s2 0 "[]" 256] by (simp add: qsys_init_def)
  moreover have "qstep 256 ?s3 ?s4"
    using processed_sub [of ?s3 256] by (simp add: qsys_init_def)
  moreover have "qstep 256 ?s4 one_processed"
    using processed_notify [of ?s4 256] by (simp add: qsys_init_def one_processed_def)
  ultimately show ?thesis by (meson qreach_init qreach_step)
qed

theorem wait_empty_sound_witness:
  "qreach 256 one_processed \<and> qs_items one_processed = [] \<and> qs_consumer one_processed \<noteq> C_Busy"
  using wait_empty_sound [OF one_processed_reach] one_processed_reach
  by (simp add: one_processed_def qsys_init_def)

text \<open>
  The load and the creation of the \<^verbatim>\<open>Notified\<close> future are two operations. When the worker finishes
  the last item between them, its notification is lost.
\<close>

definition lost_wakeup :: "nat qsys" where
  "lost_wakeup = qsys_init\<lparr>qs_epoch := 1, qs_waiter := W_Waiting 1\<rparr>"

lemma lost_wakeup_reach: "qreach 256 lost_wakeup"
proof -
  let ?s1 = "qsys_init\<lparr>qs_items := [0::nat], n_sent := 1\<rparr>"
  let ?s2 = "qsys_init\<lparr>qs_items := [0::nat], qs_pending := 1\<rparr>"
  let ?s3 = "qsys_init\<lparr>qs_pending := 1, qs_consumer := C_Busy\<rparr> :: nat qsys"
  let ?s4 = "qsys_init\<lparr>qs_pending := 1, qs_consumer := C_Busy, qs_waiter := W_Loaded\<rparr> :: nat qsys"
  let ?s5 = "qsys_init\<lparr>qs_consumer := C_Subtracted, qs_waiter := W_Loaded\<rparr> :: nat qsys"
  let ?s6 = "qsys_init\<lparr>qs_epoch := 1, qs_waiter := W_Loaded\<rparr> :: nat qsys"
  have "qstep 256 qsys_init ?s1"
    using push_send [of "qsys_init :: nat qsys" 256 0] by (simp add: qsys_init_def)
  moreover have "qstep 256 ?s1 ?s2"
    using push_count [of ?s1 0 256] by (simp add: qsys_init_def)
  moreover have "qstep 256 ?s2 ?s3"
    using qstep.recv [of ?s2 0 "[]" 256] by (simp add: qsys_init_def)
  moreover have "qstep 256 ?s3 ?s4"
    using wait_nonzero [of ?s3 256] by (simp add: qsys_init_def)
  moreover have "qstep 256 ?s4 ?s5"
    using processed_sub [of ?s4 256] by (simp add: qsys_init_def)
  moreover have "qstep 256 ?s5 ?s6"
    using processed_notify [of ?s5 256] by (simp add: qsys_init_def)
  moreover have "qstep 256 ?s6 lost_wakeup"
    using wait_register [of ?s6 256] by (simp add: qsys_init_def lost_wakeup_def)
  ultimately show ?thesis by (meson qreach_init qreach_step)
qed

inductive_cases qstepE: "qstep cap s t"

text \<open>
  \<^verbatim>\<open>wait_empty\<close> can wait for ever on an empty queue. A state is reachable in which nothing is
  pending, no producer is active, the worker is idle and the waiter sleeps, and from which the only
  possible steps are those of a new \<^verbatim>\<open>push\<close>: without one, \<^verbatim>\<open>undeclare\<close> and \<^verbatim>\<open>cleanup\<close> never return.
\<close>

theorem wait_empty_lost_wakeup:
  "qreach 256 lost_wakeup \<and> qs_pending lost_wakeup = 0 \<and> qs_items lost_wakeup = []
   \<and> qs_waiter lost_wakeup = W_Waiting (qs_epoch lost_wakeup)
   \<and> {t. qstep 256 lost_wakeup t} =
      {t. \<exists>x. t = lost_wakeup\<lparr>qs_items := [x], n_sent := 1\<rparr>}"
proof -
  have "qstep 256 lost_wakeup (lost_wakeup\<lparr>qs_items := [x], n_sent := 1\<rparr>)" for x
    using push_send [of lost_wakeup 256 x] by (simp add: lost_wakeup_def qsys_init_def)
  moreover have "\<exists>x. t = lost_wakeup\<lparr>qs_items := [x], n_sent := 1\<rparr>" if "qstep 256 lost_wakeup t" for t
    using that by (rule qstepE) (auto simp: lost_wakeup_def qsys_init_def)
  ultimately show ?thesis
    using lost_wakeup_reach by (auto simp: lost_wakeup_def qsys_init_def)
qed

end
