(* ===== verification/Messages.thy ===== *)
theory Messages
  imports Prelude
begin

text \<open>
  The messages of \<^verbatim>\<open>zenoh-grpc-proto/proto/zenoh_grpc.proto\<close> and the conversions of the plugin between
  their enumerations and those of Zenoh (\<^verbatim>\<open>zenoh-plugin-grpc/src/lib.rs\<close>, \<^verbatim>\<open>map_locality\<close> to
  \<^verbatim>\<open>map_consolidation\<close>).

  An enumeration field travels as an \<^verbatim>\<open>i32\<close>; \<open>..._try_from\<close> is the conversion from the numbers of
  the \<^verbatim>\<open>.proto\<close> file. Record fields carry a prefix for their message.
\<close>

section \<open>Enumerations of the protocol\<close>

datatype pb_sample_kind = SampleKind_Unspecified | SampleKind_Put | SampleKind_Delete

datatype pb_congestion_control =
  CongestionControl_Unspecified | CongestionControl_Block | CongestionControl_Drop

datatype pb_priority =
    Priority_Unspecified | Priority_RealTime | Priority_InteractiveHigh | Priority_InteractiveLow
  | Priority_DataHigh | Priority_Data | Priority_DataLow | Priority_Background

datatype pb_reliability =
  Reliability_Unspecified | Reliability_BestEffort | Reliability_Reliable

datatype pb_locality =
  Locality_Unspecified | Locality_Any | Locality_SessionLocal | Locality_Remote

datatype pb_query_target =
    QueryTarget_Unspecified | QueryTarget_BestMatching | QueryTarget_All | QueryTarget_AllComplete

datatype pb_consolidation_mode =
    ConsolidationMode_Unspecified | ConsolidationMode_Auto | ConsolidationMode_None
  | ConsolidationMode_Monotonic | ConsolidationMode_Latest

text \<open>An enumeration value by its number: the position in the list of its values.\<close>

definition enum_try_from :: "'e list \<Rightarrow> i32 \<Rightarrow> 'e option" where
  "enum_try_from vs n = (if 0 \<le> n \<and> n < int (length vs) then Some (vs ! nat n) else None)"

definition congestion_control_try_from :: "i32 \<Rightarrow> pb_congestion_control option" where
  "congestion_control_try_from = enum_try_from
     [CongestionControl_Unspecified, CongestionControl_Block, CongestionControl_Drop]"

definition priority_try_from :: "i32 \<Rightarrow> pb_priority option" where
  "priority_try_from = enum_try_from
     [Priority_Unspecified, Priority_RealTime, Priority_InteractiveHigh, Priority_InteractiveLow,
      Priority_DataHigh, Priority_Data, Priority_DataLow, Priority_Background]"

definition reliability_try_from :: "i32 \<Rightarrow> pb_reliability option" where
  "reliability_try_from = enum_try_from
     [Reliability_Unspecified, Reliability_BestEffort, Reliability_Reliable]"

definition locality_try_from :: "i32 \<Rightarrow> pb_locality option" where
  "locality_try_from = enum_try_from
     [Locality_Unspecified, Locality_Any, Locality_SessionLocal, Locality_Remote]"

definition query_target_try_from :: "i32 \<Rightarrow> pb_query_target option" where
  "query_target_try_from = enum_try_from
     [QueryTarget_Unspecified, QueryTarget_BestMatching, QueryTarget_All, QueryTarget_AllComplete]"

definition consolidation_mode_try_from :: "i32 \<Rightarrow> pb_consolidation_mode option" where
  "consolidation_mode_try_from = enum_try_from
     [ConsolidationMode_Unspecified, ConsolidationMode_Auto, ConsolidationMode_None,
      ConsolidationMode_Monotonic, ConsolidationMode_Latest]"

text \<open>\<^verbatim>\<open>unwrap_or\<close>.\<close>

definition unwrap_or :: "'a option \<Rightarrow> 'a \<Rightarrow> 'a" where
  "unwrap_or x d = (case x of None \<Rightarrow> d | Some v \<Rightarrow> v)"

section \<open>Enumerations of Zenoh\<close>

datatype z_locality = ZAny | ZSessionLocal | ZRemote
datatype z_congestion_control = ZBlock | ZDrop
datatype z_priority =
  ZRealTime | ZInteractiveHigh | ZInteractiveLow | ZDataHigh | ZData | ZDataLow | ZBackground
datatype z_reliability = ZBestEffort | ZReliable
datatype z_query_target = ZBestMatching | ZAll | ZAllComplete
datatype z_consolidation = ZAuto | ZNone | ZMonotonic | ZLatest
datatype z_sample_kind = ZPut | ZDelete

section \<open>The conversions of the plugin\<close>

definition map_locality :: "i32 \<Rightarrow> z_locality" where
  "map_locality l =
     (case unwrap_or (locality_try_from l) Locality_Unspecified of
        Locality_SessionLocal \<Rightarrow> ZSessionLocal
      | Locality_Remote \<Rightarrow> ZRemote
      | _ \<Rightarrow> ZAny)"

definition map_congestion_control :: "i32 \<Rightarrow> z_congestion_control" where
  "map_congestion_control cc =
     (case unwrap_or (congestion_control_try_from cc) CongestionControl_Unspecified of
        CongestionControl_Drop \<Rightarrow> ZDrop
      | _ \<Rightarrow> ZBlock)"

definition map_priority :: "i32 \<Rightarrow> z_priority" where
  "map_priority p =
     (case unwrap_or (priority_try_from p) Priority_Unspecified of
        Priority_RealTime \<Rightarrow> ZRealTime
      | Priority_InteractiveHigh \<Rightarrow> ZInteractiveHigh
      | Priority_InteractiveLow \<Rightarrow> ZInteractiveLow
      | Priority_DataHigh \<Rightarrow> ZDataHigh
      | Priority_DataLow \<Rightarrow> ZDataLow
      | Priority_Background \<Rightarrow> ZBackground
      | _ \<Rightarrow> ZData)"

definition map_reliability :: "i32 \<Rightarrow> z_reliability" where
  "map_reliability r =
     (case unwrap_or (reliability_try_from r) Reliability_Unspecified of
        Reliability_Reliable \<Rightarrow> ZReliable
      | _ \<Rightarrow> ZBestEffort)"

definition map_query_target :: "i32 \<Rightarrow> z_query_target" where
  "map_query_target t =
     (case unwrap_or (query_target_try_from t) QueryTarget_Unspecified of
        QueryTarget_All \<Rightarrow> ZAll
      | QueryTarget_AllComplete \<Rightarrow> ZAllComplete
      | _ \<Rightarrow> ZBestMatching)"

definition map_consolidation :: "i32 \<Rightarrow> z_consolidation" where
  "map_consolidation m =
     (case unwrap_or (consolidation_mode_try_from m) ConsolidationMode_Unspecified of
        ConsolidationMode_None \<Rightarrow> ZNone
      | ConsolidationMode_Monotonic \<Rightarrow> ZMonotonic
      | ConsolidationMode_Latest \<Rightarrow> ZLatest
      | _ \<Rightarrow> ZAuto)"

section \<open>Messages\<close>

record pb_SourceInfo =
  src_id :: string
  src_sequence :: u64

record pb_Sample =
  smp_key_expr :: string
  smp_payload :: bytes
  smp_encoding :: string
  smp_kind :: i32
  smp_attachment :: bytes
  smp_timestamp :: string
  smp_source_info :: "pb_SourceInfo option"

record pb_ReplyError =
  rerr_payload :: bytes
  rerr_encoding :: string

datatype pb_reply_result = Reply_Sample pb_Sample | Reply_Error pb_ReplyError

record pb_Reply =
  reply_result :: "pb_reply_result option"

record pb_Query =
  qry_query_id :: u64
  qry_selector :: string
  qry_key_expr :: string
  qry_parameters :: string
  qry_payload :: bytes
  qry_encoding :: string
  qry_attachment :: bytes

record pb_SubscriberEvent =
  sevt_sample :: "pb_Sample option"

record pb_QueryableEvent =
  qevt_query :: "pb_Query option"

record SessionPutRequest =
  sput_client_id :: string
  sput_key_expr :: string
  sput_payload :: bytes
  sput_encoding :: string
  sput_congestion_control :: i32
  sput_priority :: i32
  sput_express :: bool
  sput_attachment :: bytes
  sput_timestamp :: string
  sput_allowed_destination :: i32

record SessionDeleteRequest =
  sdel_client_id :: string
  sdel_key_expr :: string
  sdel_congestion_control :: i32
  sdel_priority :: i32
  sdel_express :: bool
  sdel_attachment :: bytes
  sdel_timestamp :: string
  sdel_allowed_destination :: i32

record SessionGetRequest =
  sget_client_id :: string
  sget_selector :: string
  sget_target :: i32
  sget_consolidation :: i32
  sget_timeout_ms :: u64
  sget_payload :: bytes
  sget_encoding :: string
  sget_attachment :: bytes
  sget_allowed_destination :: i32

record DeclarePublisherRequest =
  dpub_client_id :: string
  dpub_key_expr :: string
  dpub_encoding :: string
  dpub_congestion_control :: i32
  dpub_priority :: i32
  dpub_express :: bool
  dpub_reliability :: i32
  dpub_allowed_destination :: i32

record DeclareSubscriberRequest =
  dsub_client_id :: string
  dsub_key_expr :: string
  dsub_allowed_origin :: i32

record DeclareQueryableRequest =
  dqbl_client_id :: string
  dqbl_key_expr :: string
  dqbl_complete :: bool
  dqbl_allowed_origin :: i32

record DeclareQuerierRequest =
  dqr_client_id :: string
  dqr_key_expr :: string
  dqr_target :: i32
  dqr_consolidation :: i32
  dqr_timeout_ms :: u64
  dqr_allowed_destination :: i32

record PublisherPutRequest =
  pput_client_id :: string
  pput_handle :: u64
  pput_payload :: bytes
  pput_encoding :: string
  pput_attachment :: bytes
  pput_timestamp :: string

record PublisherDeleteRequest =
  pdel_client_id :: string
  pdel_handle :: u64
  pdel_attachment :: bytes
  pdel_timestamp :: string

text \<open>\<^verbatim>\<open>UndeclareRequest\<close>, \<^verbatim>\<open>SubscriberEventsRequest\<close> and \<^verbatim>\<open>QueryableEventsRequest\<close> have these two fields.\<close>

record HandleRequest =
  hreq_client_id :: string
  hreq_handle :: u64

record QueryReplyRequest =
  qrep_client_id :: string
  qrep_handle :: u64
  qrep_query_id :: u64
  qrep_key_expr :: string
  qrep_payload :: bytes
  qrep_encoding :: string
  qrep_attachment :: bytes
  qrep_timestamp :: string

record QueryReplyErrRequest =
  qerr_client_id :: string
  qerr_handle :: u64
  qerr_query_id :: u64
  qerr_payload :: bytes
  qerr_encoding :: string

record QueryReplyDeleteRequest =
  qdel_client_id :: string
  qdel_handle :: u64
  qdel_query_id :: u64
  qdel_key_expr :: string
  qdel_attachment :: bytes
  qdel_timestamp :: string

record QueryFinishRequest =
  qfin_client_id :: string
  qfin_handle :: u64
  qfin_query_id :: u64

record QuerierGetRequest =
  qget_client_id :: string
  qget_handle :: u64
  qget_parameters :: string
  qget_payload :: bytes
  qget_encoding :: string
  qget_attachment :: bytes

text \<open>The methods of the five services with their requests.\<close>

datatype request =
    Info string | Put SessionPutRequest | Delete SessionDeleteRequest | Get SessionGetRequest
  | TouchClient string | CleanupClient string
  | DeclarePublisher DeclarePublisherRequest | PublisherPut PublisherPutRequest
  | PublisherDelete PublisherDeleteRequest | PublisherUndeclare HandleRequest
  | DeclareSubscriber DeclareSubscriberRequest | SubscriberEvents HandleRequest
  | SubscriberUndeclare HandleRequest
  | DeclareQueryable DeclareQueryableRequest | QueryableEvents HandleRequest
  | Reply QueryReplyRequest | ReplyErr QueryReplyErrRequest | ReplyDelete QueryReplyDeleteRequest
  | Finish QueryFinishRequest | QueryableUndeclare HandleRequest
  | DeclareQuerier DeclareQuerierRequest | QuerierGet QuerierGetRequest
  | QuerierUndeclare HandleRequest

text \<open>The client a request speaks for.\<close>

fun requester :: "request \<Rightarrow> string" where
  "requester (Info c) = c"
| "requester (Put r) = sput_client_id r"
| "requester (Delete r) = sdel_client_id r"
| "requester (Get r) = sget_client_id r"
| "requester (TouchClient c) = c"
| "requester (CleanupClient c) = c"
| "requester (DeclarePublisher r) = dpub_client_id r"
| "requester (PublisherPut r) = pput_client_id r"
| "requester (PublisherDelete r) = pdel_client_id r"
| "requester (PublisherUndeclare r) = hreq_client_id r"
| "requester (DeclareSubscriber r) = dsub_client_id r"
| "requester (SubscriberEvents r) = hreq_client_id r"
| "requester (SubscriberUndeclare r) = hreq_client_id r"
| "requester (DeclareQueryable r) = dqbl_client_id r"
| "requester (QueryableEvents r) = hreq_client_id r"
| "requester (Reply r) = qrep_client_id r"
| "requester (ReplyErr r) = qerr_client_id r"
| "requester (ReplyDelete r) = qdel_client_id r"
| "requester (Finish r) = qfin_client_id r"
| "requester (QueryableUndeclare r) = hreq_client_id r"
| "requester (DeclareQuerier r) = dqr_client_id r"
| "requester (QuerierGet r) = qget_client_id r"
| "requester (QuerierUndeclare r) = hreq_client_id r"

section \<open>Lemmas\<close>

lemma enum_try_from_out: "n < 0 \<or> int (length vs) \<le> n \<Longrightarrow> enum_try_from vs n = None"
  by (auto simp: enum_try_from_def)

lemmas enum_conversions =
  map_locality_def map_congestion_control_def map_priority_def map_reliability_def
  map_query_target_def map_consolidation_def locality_try_from_def
  congestion_control_try_from_def priority_try_from_def reliability_try_from_def
  query_target_try_from_def consolidation_mode_try_from_def

text \<open>
  Every \<^verbatim>\<open>i32\<close> an untrusted client may send is converted, and a number outside the
  enumeration has the same effect as the unspecified value \<open>0\<close>: the Zenoh default named in the code.
\<close>

theorem unknown_enum_values_are_defaults:
  assumes "n < 0 \<or> 8 \<le> n"
  shows "map_locality n = ZAny \<and> map_congestion_control n = ZBlock \<and> map_priority n = ZData
    \<and> map_reliability n = ZBestEffort \<and> map_query_target n = ZBestMatching
    \<and> map_consolidation n = ZAuto
    \<and> map_locality n = map_locality 0 \<and> map_congestion_control n = map_congestion_control 0
    \<and> map_priority n = map_priority 0 \<and> map_reliability n = map_reliability 0
    \<and> map_query_target n = map_query_target 0 \<and> map_consolidation n = map_consolidation 0"
  using assms by (auto simp: enum_conversions unwrap_or_def enum_try_from_def)

theorem unknown_enum_values_are_defaults_witness:
  "(8::int) \<le> 42 \<and> map_priority 42 = ZData \<and> map_consolidation 42 = ZAuto"
  using unknown_enum_values_are_defaults [of 42] by simp

end
