(* ===== verification/Zenoh_Api.thy ===== *)
theory Zenoh_Api
  imports Messages
begin

text \<open>
  The interface of the plugin to code outside the repository: the \<^verbatim>\<open>zenoh\<close> crate and tokio's
  \<^verbatim>\<open>broadcast\<close> channels. It is a record \<open>env\<close> of functions over a state \<open>'w\<close>, a parameter of every
  handler; nothing is assumed about it unless a theorem says so.

  A Zenoh object (publisher, subscriber, queryable, querier, reply receiver, query) and a broadcast
  channel is the reference \<open>zref\<close> that \<open>env\<close> returned for it. A builder chain of the source is one
  parameter record, with \<open>None\<close> for a method the source does not call on that path.
\<close>

type_synonym zref = nat
type_synonym zencoding = string
type_synonym 'a zresult = "string + 'a"

record put_params =
  zp_key_expr :: string
  zp_payload :: bytes
  zp_encoding :: zencoding
  zp_congestion_control :: z_congestion_control
  zp_priority :: z_priority
  zp_express :: bool
  zp_allowed_destination :: z_locality
  zp_attachment :: "bytes option"

record delete_params =
  zd_key_expr :: string
  zd_congestion_control :: z_congestion_control
  zd_priority :: z_priority
  zd_express :: bool
  zd_allowed_destination :: z_locality
  zd_attachment :: "bytes option"

record get_params =
  zg_selector :: string
  zg_target :: z_query_target
  zg_consolidation :: z_consolidation
  zg_allowed_destination :: z_locality
  zg_timeout :: "duration option"
  zg_value :: "(bytes \<times> zencoding) option"
  zg_attachment :: "bytes option"

record publisher_params =
  zpub_key_expr :: string
  zpub_encoding :: zencoding
  zpub_congestion_control :: z_congestion_control
  zpub_priority :: z_priority
  zpub_express :: bool
  zpub_reliability :: z_reliability
  zpub_allowed_destination :: z_locality

record querier_params =
  zqr_key_expr :: string
  zqr_target :: z_query_target
  zqr_consolidation :: z_consolidation
  zqr_allowed_destination :: z_locality
  zqr_timeout :: "duration option"

text \<open>What the accessors of a received \<^verbatim>\<open>Sample\<close>, \<^verbatim>\<open>Reply\<close> and \<^verbatim>\<open>Query\<close> return.\<close>

record z_sample =
  zs_key_expr :: string
  zs_payload :: bytes
  zs_encoding :: zencoding
  zs_kind :: z_sample_kind
  zs_attachment :: "bytes option"
  zs_timestamp :: "string option"

record z_reply_error =
  ze_payload :: bytes
  ze_encoding :: zencoding

type_synonym z_reply = "z_reply_error + z_sample"

record z_query =
  zq_ref :: zref
  zq_selector :: string
  zq_key_expr :: string
  zq_parameters :: string
  zq_payload :: "bytes option"
  zq_encoding :: "zencoding option"
  zq_attachment :: "bytes option"

record 'w env =
  encoding_from :: "string \<Rightarrow> zencoding"
  encoding_to_string :: "zencoding \<Rightarrow> string"
  z_zid :: "'w \<Rightarrow> string"
  z_put :: "put_params \<Rightarrow> 'w \<Rightarrow> unit zresult \<times> 'w"
  z_delete :: "delete_params \<Rightarrow> 'w \<Rightarrow> unit zresult \<times> 'w"
  z_get :: "get_params \<Rightarrow> 'w \<Rightarrow> zref zresult \<times> 'w"
  z_declare_publisher :: "publisher_params \<Rightarrow> 'w \<Rightarrow> zref zresult \<times> 'w"
  z_declare_subscriber :: "string \<Rightarrow> z_locality \<Rightarrow> nat \<Rightarrow> 'w \<Rightarrow> zref zresult \<times> 'w"
  z_declare_queryable :: "string \<Rightarrow> bool \<Rightarrow> z_locality \<Rightarrow> nat \<Rightarrow> 'w \<Rightarrow> zref zresult \<times> 'w"
  z_declare_querier :: "querier_params \<Rightarrow> 'w \<Rightarrow> zref zresult \<times> 'w"
  z_publisher_put :: "zref \<Rightarrow> bytes \<Rightarrow> zencoding option \<Rightarrow> bytes option \<Rightarrow> 'w \<Rightarrow> unit zresult \<times> 'w"
  z_publisher_delete :: "zref \<Rightarrow> bytes option \<Rightarrow> 'w \<Rightarrow> unit zresult \<times> 'w"
  z_querier_get ::
    "zref \<Rightarrow> string \<Rightarrow> (bytes \<times> zencoding) option \<Rightarrow> bytes option \<Rightarrow> 'w \<Rightarrow> zref zresult \<times> 'w"
  z_reply ::
    "zref \<Rightarrow> string \<Rightarrow> bytes \<Rightarrow> zencoding option \<Rightarrow> bytes option \<Rightarrow> 'w \<Rightarrow> unit zresult \<times> 'w"
  z_reply_err :: "zref \<Rightarrow> bytes \<Rightarrow> zencoding option \<Rightarrow> 'w \<Rightarrow> unit zresult \<times> 'w"
  z_reply_del :: "zref \<Rightarrow> string \<Rightarrow> bytes option \<Rightarrow> 'w \<Rightarrow> unit zresult \<times> 'w"
  z_undeclare :: "zref \<Rightarrow> 'w \<Rightarrow> unit zresult \<times> 'w"
  z_drop :: "zref \<Rightarrow> 'w \<Rightarrow> 'w"
  bc_channel :: "nat \<Rightarrow> 'w \<Rightarrow> zref \<times> 'w"
  bc_send_sample :: "zref \<Rightarrow> pb_SubscriberEvent \<Rightarrow> 'w \<Rightarrow> 'w"
  bc_send_query :: "zref \<Rightarrow> pb_QueryableEvent \<Rightarrow> 'w \<Rightarrow> 'w"
  bc_subscribe :: "zref \<Rightarrow> 'w \<Rightarrow> zref \<times> 'w"
  bc_drop :: "zref \<Rightarrow> 'w \<Rightarrow> 'w"

text \<open>
  An instance for the witnesses: every call succeeds and is recorded, and a new reference is the
  number of calls made before.
\<close>

datatype z_call =
    CallPut put_params | CallDelete delete_params | CallGet get_params
  | CallDeclarePublisher publisher_params | CallDeclareSubscriber string z_locality nat
  | CallDeclareQueryable string bool z_locality nat | CallDeclareQuerier querier_params
  | CallPublisherPut zref bytes "zencoding option" "bytes option"
  | CallPublisherDelete zref "bytes option"
  | CallQuerierGet zref string "(bytes \<times> zencoding) option" "bytes option"
  | CallReply zref string bytes "zencoding option" "bytes option"
  | CallReplyErr zref bytes "zencoding option" | CallReplyDel zref string "bytes option"
  | CallUndeclare zref | CallDrop zref | CallChannel nat | CallSendSample zref pb_SubscriberEvent
  | CallSendQuery zref pb_QueryableEvent | CallSubscribe zref | CallDropSender zref

definition log_unit :: "z_call \<Rightarrow> z_call list \<Rightarrow> unit zresult \<times> z_call list" where
  "log_unit c w = (Inr (), w @ [c])"

definition log_ref :: "z_call \<Rightarrow> z_call list \<Rightarrow> zref zresult \<times> z_call list" where
  "log_ref c w = (Inr (length w), w @ [c])"

definition log_env :: "z_call list env" where
  "log_env =
     \<lparr>encoding_from = (\<lambda>s. s), encoding_to_string = (\<lambda>s. s), z_zid = (\<lambda>_. ''zid''),
      z_put = (\<lambda>p. log_unit (CallPut p)),
      z_delete = (\<lambda>p. log_unit (CallDelete p)),
      z_get = (\<lambda>p. log_ref (CallGet p)),
      z_declare_publisher = (\<lambda>p. log_ref (CallDeclarePublisher p)),
      z_declare_subscriber = (\<lambda>k l n. log_ref (CallDeclareSubscriber k l n)),
      z_declare_queryable = (\<lambda>k c l n. log_ref (CallDeclareQueryable k c l n)),
      z_declare_querier = (\<lambda>p. log_ref (CallDeclareQuerier p)),
      z_publisher_put = (\<lambda>r p e a. log_unit (CallPublisherPut r p e a)),
      z_publisher_delete = (\<lambda>r a. log_unit (CallPublisherDelete r a)),
      z_querier_get = (\<lambda>r p v a. log_ref (CallQuerierGet r p v a)),
      z_reply = (\<lambda>r k p e a. log_unit (CallReply r k p e a)),
      z_reply_err = (\<lambda>r p e. log_unit (CallReplyErr r p e)),
      z_reply_del = (\<lambda>r k a. log_unit (CallReplyDel r k a)),
      z_undeclare = (\<lambda>r. log_unit (CallUndeclare r)),
      z_drop = (\<lambda>r w. w @ [CallDrop r]),
      bc_channel = (\<lambda>n w. (length w, w @ [CallChannel n])),
      bc_send_sample = (\<lambda>r e w. w @ [CallSendSample r e]),
      bc_send_query = (\<lambda>r e w. w @ [CallSendQuery r e]),
      bc_subscribe = (\<lambda>r w. (length w, w @ [CallSubscribe r])),
      bc_drop = (\<lambda>r w. w @ [CallDropSender r])\<rparr>"

end
