(* ===== verification/Config.thy ===== *)
theory Config
  imports Prelude
begin

text \<open>
  The configuration of the plugin (\<^verbatim>\<open>zenoh-plugin-grpc/src/config.rs\<close>): the \<^verbatim>\<open>Config\<close> structure with
  its defaults, the listener endpoints derived from it, and the hand-written deserialisers. The
  deserialisers are visitors; a \<open>path_input\<close> is the call that the serde deserialiser makes on them.
  Durations are in milliseconds, \<^verbatim>\<open>usize\<close> is 64 bits wide.
\<close>

record Config =
  listen :: "string option"
  host :: string
  port :: u16
  uds_path :: "string option"
  max_recv_message_size :: u64
  max_send_message_size :: u64
  shutdown_grace_period :: duration
  client_lease_duration :: duration
  client_cleanup_interval :: duration
  cfg_path :: "string list option"
  cfg_required :: "bool option"
  cfg_config :: "string option"

datatype ListenEndpoint = Tcp string | Unix string

definition DEFAULT_HOST :: string where "DEFAULT_HOST = ''127.0.0.1''"
definition DEFAULT_PORT :: u16 where "DEFAULT_PORT = 7335"
definition DEFAULT_UDS_PATH :: string where "DEFAULT_UDS_PATH = ''/tmp/zenoh-grpc.sock''"
definition DEFAULT_MAX_RECV_MESSAGE_SIZE :: u64 where
  "DEFAULT_MAX_RECV_MESSAGE_SIZE = 4 * 1024 * 1024"
definition DEFAULT_MAX_SEND_MESSAGE_SIZE :: u64 where
  "DEFAULT_MAX_SEND_MESSAGE_SIZE = 4 * 1024 * 1024"
definition DEFAULT_SHUTDOWN_GRACE_PERIOD_MS :: nat where
  "DEFAULT_SHUTDOWN_GRACE_PERIOD_MS = 3000"
definition DEFAULT_CLIENT_LEASE_DURATION_MS :: nat where
  "DEFAULT_CLIENT_LEASE_DURATION_MS = 4000"
definition DEFAULT_CLIENT_CLEANUP_INTERVAL_MS :: nat where
  "DEFAULT_CLIENT_CLEANUP_INTERVAL_MS = 3000"

definition Config_default :: Config where
  "Config_default =
     \<lparr>listen = None, host = DEFAULT_HOST, port = DEFAULT_PORT,
      uds_path = Some DEFAULT_UDS_PATH,
      max_recv_message_size = DEFAULT_MAX_RECV_MESSAGE_SIZE,
      max_send_message_size = DEFAULT_MAX_SEND_MESSAGE_SIZE,
      shutdown_grace_period = DEFAULT_SHUTDOWN_GRACE_PERIOD_MS,
      client_lease_duration = DEFAULT_CLIENT_LEASE_DURATION_MS,
      client_cleanup_interval = DEFAULT_CLIENT_CLEANUP_INTERVAL_MS,
      cfg_path = None, cfg_required = None, cfg_config = None\<rparr>"

text \<open>\<^verbatim>\<open>str::strip_prefix\<close> and the decimal formatting of an unsigned number.\<close>

definition strip_prefix :: "string \<Rightarrow> string \<Rightarrow> string option" where
  "strip_prefix p s = (if take (length p) s = p then Some (drop (length p) s) else None)"

definition digit_char :: "nat \<Rightarrow> char" where
  "digit_char d = char_of (48 + d)"

fun decimal :: "nat \<Rightarrow> string" where
  "decimal n = (if n < 10 then [digit_char n] else decimal (n div 10) @ [digit_char (n mod 10)])"

declare decimal.simps [simp del]

definition listeners :: "Config \<Rightarrow> string + ListenEndpoint list" where
  "listeners c =
     (case listen c of
        Some l \<Rightarrow>
          (case strip_prefix ''tcp://'' l of
             Some addr \<Rightarrow> Inr [Tcp addr]
           | None \<Rightarrow>
               (case strip_prefix ''unix://'' l of
                  Some path \<Rightarrow> Inr [Unix path]
                | None \<Rightarrow> Inl (''unsupported listen endpoint `'' @ l @ ''`'')))
      | None \<Rightarrow>
          Inr (Tcp (host c @ '':'' @ decimal (unat (port c)))
               # (case uds_path c of Some path \<Rightarrow> [Unix path] | None \<Rightarrow> [])))"

section \<open>Deserialisers\<close>

text \<open>
  \<^verbatim>\<open>deserialize_duration_ms\<close> takes what \<^verbatim>\<open>u64::deserialize\<close> returns: an error or a number of
  milliseconds.
\<close>

definition deserialize_duration_ms :: "string + u64 \<Rightarrow> string + duration" where
  "deserialize_duration_ms r = (case r of Inl e \<Rightarrow> Inl e | Inr ms \<Rightarrow> Inr (unat ms))"

text \<open>
  The calls on \<^verbatim>\<open>PathVisitor\<close>: a string, a sequence whose \<^verbatim>\<open>next_element\<close> results are given, or a
  value of another type, for which the visitor has no method and serde reports \<open>expecting\<close>.
\<close>

datatype path_value = Path_Str string | Path_Seq "(string + string) list" | Path_Other

datatype path_input = Path_None | Path_Some path_value

definition path_expecting :: string where
  "path_expecting = ''a string or array of strings''"

fun visit_seq :: "string list \<Rightarrow> (string + string) list \<Rightarrow> string + string list" where
  "visit_seq values [] = Inr values"
| "visit_seq values (Inl e # _) = Inl e"
| "visit_seq values (Inr v # rest) = visit_seq (values @ [v]) rest"

fun visit_path :: "path_value \<Rightarrow> string + string list" where
  "visit_path (Path_Str s) = Inr [s]"
| "visit_path (Path_Seq es) = visit_seq [] es"
| "visit_path Path_Other = Inl path_expecting"

fun deserialize_path :: "path_input \<Rightarrow> string + string list option" where
  "deserialize_path Path_None = Inr None"
| "deserialize_path (Path_Some v) =
     (case visit_path v of Inl e \<Rightarrow> Inl e | Inr ps \<Rightarrow> Inr (Some ps))"

section \<open>Lemmas\<close>

lemma strip_prefix_append [simp]: "strip_prefix p (p @ s) = Some s"
  by (simp add: strip_prefix_def)

lemma strip_prefix_Some: "strip_prefix p s = Some r \<longleftrightarrow> s = p @ r"
  by (auto simp: strip_prefix_def) (metis append_take_drop_id)

lemma strip_prefix_None: "strip_prefix p s = None \<longleftrightarrow> (\<nexists>r. s = p @ r)"
  by (metis strip_prefix_Some not_None_eq)

text \<open>Reading an address back: the part before the last colon and the number after it.\<close>

definition parse_decimal :: "string \<Rightarrow> nat" where
  "parse_decimal s = foldl (\<lambda>a c. 10 * a + (of_char c - 48)) 0 s"

definition split_addr :: "string \<Rightarrow> string \<times> nat" where
  "split_addr s =
     (rev (tl (dropWhile (\<lambda>c. c \<noteq> CHR '':'') (rev s))),
      parse_decimal (rev (takeWhile (\<lambda>c. c \<noteq> CHR '':'') (rev s))))"

lemma of_digit_char: "d < 10 \<Longrightarrow> of_char (digit_char d) = 48 + d"
  by (simp add: digit_char_def)

lemma digit_char_not_colon: "d < 10 \<Longrightarrow> digit_char d \<noteq> CHR '':''"
proof
  assume "d < 10" and "digit_char d = CHR '':''"
  then have "48 + d = (of_char (CHR '':'') :: nat)" by (simp flip: of_digit_char)
  with \<open>d < 10\<close> show False by simp
qed

lemma parse_decimal_decimal: "parse_decimal (decimal n) = n"
proof (induction n rule: decimal.induct)
  case (1 n)
  show ?case
  proof (cases "n < 10")
    case True
    then show ?thesis by (simp add: decimal.simps [of n] parse_decimal_def of_digit_char)
  next
    case False
    with "1" have "parse_decimal (decimal (n div 10)) = n div 10" by simp
    with False show ?thesis
      by (simp add: decimal.simps [of n] parse_decimal_def of_digit_char)
  qed
qed

lemma decimal_no_colon: "CHR '':'' \<notin> set (decimal n)"
proof (induction n rule: decimal.induct)
  case (1 n)
  have "digit_char (n mod 10) \<noteq> CHR '':''" by (rule digit_char_not_colon) simp
  with "1" show ?case
    using digit_char_not_colon [of n] by (auto simp: decimal.simps [of n])
qed

lemma split_addr_append:
  assumes "CHR '':'' \<notin> set d"
  shows "split_addr (h @ '':'' @ d) = (h, parse_decimal d)"
proof -
  have "takeWhile (\<lambda>c. c \<noteq> CHR '':'') (rev (h @ '':'' @ d)) = rev d"
    and "dropWhile (\<lambda>c. c \<noteq> CHR '':'') (rev (h @ '':'' @ d)) = CHR '':'' # rev h"
    using assms by (simp_all add: takeWhile_append dropWhile_append)
  then show ?thesis by (simp add: split_addr_def)
qed

text \<open>
  The listener configuration is decided completely by the \<open>listen\<close>, \<open>host\<close>, \<open>port\<close> and
  \<open>uds_path\<close> fields: an explicit endpoint yields exactly one listener and is rejected exactly when it
  has neither prefix; otherwise there is always a TCP listener first, whose address reads back as the
  configured host and port, followed by the Unix socket if one is configured.
\<close>

theorem listeners_spec:
  "(\<forall>e. listeners c = Inl e \<longleftrightarrow>
      (\<exists>l. listen c = Some l \<and> (\<nexists>r. l = ''tcp://'' @ r) \<and> (\<nexists>r. l = ''unix://'' @ r)
         \<and> e = ''unsupported listen endpoint `'' @ l @ ''`''))
   \<and> (\<forall>a. listen c = Some (''tcp://'' @ a) \<longrightarrow> listeners c = Inr [Tcp a])
   \<and> (\<forall>p. listen c = Some (''unix://'' @ p) \<longrightarrow> listeners c = Inr [Unix p])
   \<and> (listen c = None \<longrightarrow>
       (\<exists>a. listeners c = Inr (Tcp a # (case uds_path c of Some p \<Rightarrow> [Unix p] | None \<Rightarrow> []))
          \<and> split_addr a = (host c, unat (port c))))"
proof (intro conjI allI impI)
  fix a assume l: "listen c = Some (''tcp://'' @ a)"
  show "listeners c = Inr [Tcp a]"
    by (simp only: listeners_def l option.case strip_prefix_append)
next
  fix p assume l: "listen c = Some (''unix://'' @ p)"
  have "strip_prefix ''tcp://'' (''unix://'' @ p) = None" by (simp add: strip_prefix_def)
  then show "listeners c = Inr [Unix p]"
    by (simp only: listeners_def l option.case strip_prefix_append)
next
  fix e
  show "listeners c = Inl e \<longleftrightarrow>
      (\<exists>l. listen c = Some l \<and> (\<nexists>r. l = ''tcp://'' @ r) \<and> (\<nexists>r. l = ''unix://'' @ r)
         \<and> e = ''unsupported listen endpoint `'' @ l @ ''`'')"
    unfolding strip_prefix_None [symmetric]
    by (auto simp: listeners_def split: option.splits)
next
  assume "listen c = None"
  then show "\<exists>a. listeners c = Inr (Tcp a # (case uds_path c of Some p \<Rightarrow> [Unix p] | None \<Rightarrow> []))
          \<and> split_addr a = (host c, unat (port c))"
    by (simp add: listeners_def split_addr_append [simplified] decimal_no_colon parse_decimal_decimal)
qed

definition explicit_tcp :: Config where
  "explicit_tcp = Config_default\<lparr>listen := Some ''tcp://localhost:7444''\<rparr>"

theorem listeners_spec_witness:
  "listen Config_default = None \<and> listen explicit_tcp = Some (''tcp://'' @ ''localhost:7444'')
   \<and> listeners explicit_tcp = Inr [Tcp ''localhost:7444'']
   \<and> (\<exists>a. listeners Config_default = Inr [Tcp a, Unix DEFAULT_UDS_PATH]
         \<and> split_addr a = (DEFAULT_HOST, 7335))"
proof -
  have d: "listen Config_default = None" "uds_path Config_default = Some DEFAULT_UDS_PATH"
    "host Config_default = DEFAULT_HOST" "unat (port Config_default) = 7335"
    by (simp_all add: Config_default_def DEFAULT_PORT_def)
  have e: "listen explicit_tcp = Some (''tcp://'' @ ''localhost:7444'')"
    by (simp add: explicit_tcp_def)
  from listeners_spec [of explicit_tcp] e have "listeners explicit_tcp = Inr [Tcp ''localhost:7444'']"
    by blast
  with listeners_spec [of Config_default] d e show ?thesis by simp
qed

end
