(* ===== verification/Server_State.thy ===== *)
theory Server_State
  imports Zenoh_Api Config
begin

text \<open>
  \<^verbatim>\<open>PluginState\<close> of \<^verbatim>\<open>zenoh-plugin-grpc/src/lib.rs\<close>: the tables of declared objects and of in-flight
  queries, the handle and query counters, the clients with the time they were last seen, and the
  operations on them that are not themselves gRPC handlers.

  The state is passed explicitly; \<open>session\<close> is the state behind the interface \<open>env\<close>. The five tables
  are hash maps. \<open>now\<close> is the value of \<^verbatim>\<open>Instant::now()\<close>.
\<close>

record PublisherEntry =
  pub_owner :: string
  pub_publisher :: zref

record SubscriberEntry =
  sub_owner :: string
  sub_subscriber :: zref
  sub_events :: zref

record QueryableEntry =
  qbl_owner :: string
  qbl_queryable :: zref
  qbl_events :: zref

record QuerierEntry =
  qr_owner :: string
  qr_querier :: zref

record InFlightQuery =
  ifq_owner :: string
  ifq_handle :: u64
  ifq_query :: z_query

text \<open>The tables of declared objects are owned tables.\<close>

interpretation pubs: owned_table hm_get hm_insert hm_remove hm_retain hm_keys_where hm_ok pub_owner
  by unfold_locales

interpretation subs: owned_table hm_get hm_insert hm_remove hm_retain hm_keys_where hm_ok sub_owner
  by unfold_locales

interpretation qbls: owned_table hm_get hm_insert hm_remove hm_retain hm_keys_where hm_ok qbl_owner
  by unfold_locales

interpretation qrs: owned_table hm_get hm_insert hm_remove hm_retain hm_keys_where hm_ok qr_owner
  by unfold_locales

record 'w PluginState =
  session :: 'w
  next_handle :: u64
  next_query_id :: u64
  live_clients :: "(string, instant) hashmap"
  publishers :: "(u64, PublisherEntry) hashmap"
  subscribers :: "(u64, SubscriberEntry) hashmap"
  queryables :: "(u64, QueryableEntry) hashmap"
  queriers :: "(u64, QuerierEntry) hashmap"
  inflight_queries :: "(u64, InFlightQuery) hashmap"
  config :: Config

definition PluginState_new :: "'w \<Rightarrow> Config \<Rightarrow> 'w PluginState" where
  "PluginState_new w c =
     \<lparr>session = w, next_handle = 1, next_query_id = 1, live_clients = [], publishers = [],
      subscribers = [], queryables = [], queriers = [], inflight_queries = [], config = c\<rparr>"

definition alloc_handle :: "'w PluginState \<Rightarrow> u64 \<times> 'w PluginState" where
  "alloc_handle s = (next_handle s, s\<lparr>next_handle := next_handle s + 1\<rparr>)"

definition alloc_query_id :: "'w PluginState \<Rightarrow> u64 \<times> 'w PluginState" where
  "alloc_query_id s = (next_query_id s, s\<lparr>next_query_id := next_query_id s + 1\<rparr>)"

definition touch_client :: "instant \<Rightarrow> string \<Rightarrow> 'w PluginState \<Rightarrow> 'w PluginState" where
  "touch_client now client_id s =
     s\<lparr>live_clients := hm_insert client_id now (live_clients s)\<rparr>"

text \<open>\<^verbatim>\<open>saturating_duration_since\<close> is subtraction of natural numbers.\<close>

definition collect_stale_clients :: "instant \<Rightarrow> 'w PluginState \<Rightarrow> string list" where
  "collect_stale_clients now s =
     hm_keys_where (\<lambda>last_seen. client_lease_duration (config s) \<le> now - last_seen) (live_clients s)"

text \<open>
  The four loops of \<^verbatim>\<open>cleanup_client\<close>: each collected handle is removed from its table, and an entry
  that was still there is released.
\<close>

fun remove_entries ::
  "('v \<Rightarrow> 'w \<Rightarrow> 'w) \<Rightarrow> 'k list \<Rightarrow> ('k, 'v) hashmap \<times> 'w \<Rightarrow> ('k, 'v) hashmap \<times> 'w" where
  "remove_entries release [] mw = mw"
| "remove_entries release (h # hs) (m, w) =
     (case hm_get m h of
        None \<Rightarrow> remove_entries release hs (hm_remove h m, w)
      | Some entry \<Rightarrow> remove_entries release hs (hm_remove h m, release entry w))"

text \<open>
  Releasing an entry: \<^verbatim>\<open>let _ = entry.publisher.undeclare().await\<close>, then the rest of the entry goes
  out of scope (for subscribers and queryables, the broadcast sender).
\<close>

definition release_publisher :: "'w env \<Rightarrow> PublisherEntry \<Rightarrow> 'w \<Rightarrow> 'w" where
  "release_publisher E e w = snd (z_undeclare E (pub_publisher e) w)"

definition release_subscriber :: "'w env \<Rightarrow> SubscriberEntry \<Rightarrow> 'w \<Rightarrow> 'w" where
  "release_subscriber E e w = bc_drop E (sub_events e) (snd (z_undeclare E (sub_subscriber e) w))"

definition release_queryable :: "'w env \<Rightarrow> QueryableEntry \<Rightarrow> 'w \<Rightarrow> 'w" where
  "release_queryable E e w = bc_drop E (qbl_events e) (snd (z_undeclare E (qbl_queryable e) w))"

definition release_querier :: "'w env \<Rightarrow> QuerierEntry \<Rightarrow> 'w \<Rightarrow> 'w" where
  "release_querier E e w = snd (z_undeclare E (qr_querier e) w)"

text \<open>Dropping an in-flight query ends its reply stream.\<close>

definition drop_query :: "'w env \<Rightarrow> InFlightQuery \<Rightarrow> 'w \<Rightarrow> 'w" where
  "drop_query E q w = z_drop E (zq_ref (ifq_query q)) w"

definition retain_inflight :: "'w env \<Rightarrow> (InFlightQuery \<Rightarrow> bool) \<Rightarrow> 'w PluginState \<Rightarrow> 'w PluginState" where
  "retain_inflight E keep s =
     s\<lparr>inflight_queries := hm_retain keep (inflight_queries s),
       session := fold (drop_query E) (hm_values_where (\<lambda>q. \<not> keep q) (inflight_queries s)) (session s)\<rparr>"

definition cleanup_client :: "'w env \<Rightarrow> string \<Rightarrow> 'w PluginState \<Rightarrow> 'w PluginState" where
  "cleanup_client E client_id s0 =
     (let s1 = s0\<lparr>live_clients := hm_remove client_id (live_clients s0)\<rparr>;
          (m, w) = remove_entries (release_publisher E)
                     (hm_keys_where (\<lambda>e. pub_owner e = client_id) (publishers s1))
                     (publishers s1, session s1);
          s2 = s1\<lparr>publishers := m, session := w\<rparr>;
          (m, w) = remove_entries (release_subscriber E)
                     (hm_keys_where (\<lambda>e. sub_owner e = client_id) (subscribers s2))
                     (subscribers s2, session s2);
          s3 = s2\<lparr>subscribers := m, session := w\<rparr>;
          (m, w) = remove_entries (release_queryable E)
                     (hm_keys_where (\<lambda>e. qbl_owner e = client_id) (queryables s3))
                     (queryables s3, session s3);
          s4 = s3\<lparr>queryables := m, session := w\<rparr>;
          (m, w) = remove_entries (release_querier E)
                     (hm_keys_where (\<lambda>e. qr_owner e = client_id) (queriers s4))
                     (queriers s4, session s4);
          s5 = s4\<lparr>queriers := m, session := w\<rparr>
      in retain_inflight E (\<lambda>q. ifq_owner q \<noteq> client_id) s5)"

text \<open>One tick of the cleanup task in \<^verbatim>\<open>run\<close>.\<close>

definition cleanup_tick :: "'w env \<Rightarrow> instant \<Rightarrow> 'w PluginState \<Rightarrow> 'w PluginState" where
  "cleanup_tick E now s = fold (cleanup_client E) (collect_stale_clients now s) s"

section \<open>Removing a list of entries\<close>

lemma remove_entries_map: "fst (remove_entries release hs (m, w)) = fold hm_remove hs m"
  by (induction hs arbitrary: m w) (auto split: option.splits)

text \<open>
  Over the keys selected from a well-formed table, every selected entry is released exactly once, in
  the order of the iteration.
\<close>

lemma hm_remove_absent: "k \<notin> fst ` set m \<Longrightarrow> hm_remove k m = m"
  by (force simp: hm_remove_def filter_id_conv)

lemma remove_entries_skip:
  "k \<notin> set hs \<Longrightarrow> snd (remove_entries release hs ((k, v) # m, w)) = snd (remove_entries release hs (m, w))"
  by (induction hs arbitrary: m w)
    (auto simp: hm_get_Cons hm_remove_def split: option.splits)

lemma remove_entries_world:
  "hm_ok m \<Longrightarrow>
   snd (remove_entries release (hm_keys_where P m) (m, w)) = fold release (hm_values_where P m) w"
proof (induction m arbitrary: w)
  case (Cons kv m)
  obtain k v where kv: "kv = (k, v)" by (cases kv)
  from Cons.prems kv have ok: "hm_ok m" and new: "k \<notin> fst ` set m"
    by (auto simp: hm_ok_def)
  then have keys: "k \<notin> set (hm_keys_where P m)" by (auto simp: hm_keys_where_def)
  have rm: "hm_remove k ((k, v) # m) = m"
    using hm_remove_absent [OF new] by (simp add: hm_remove_def)
  show ?case
    using Cons.IH [OF ok] keys rm kv
    by (simp add: hm_keys_where_def hm_values_where_def hm_get_Cons remove_entries_skip
        del: remove_entries.simps(1))
qed (simp add: hm_keys_where_def hm_values_where_def)

end
