(* ===== verification/Server.thy ===== *)
theory Server
  imports Server_State
begin

text \<open>
  The gRPC services of the plugin (\<^verbatim>\<open>zenoh-plugin-grpc/src/lib.rs\<close>): one definition per handler of
  \<^verbatim>\<open>SessionService\<close>, \<^verbatim>\<open>PublisherService\<close>, \<^verbatim>\<open>SubscriberService\<close>, \<^verbatim>\<open>QueryableService\<close> and
  \<^verbatim>\<open>QuerierService\<close>, the background tasks they spawn, and the encoders.

  A handler maps the interface, the time, the request and the state to its result and the new state.
  \<open>handle_request\<close> dispatches a request to its handler; \<open>server_step\<close> adds the events that do not
  come from a client: the cleanup tick and the arrival of a query or a sample.
\<close>

section \<open>Helpers\<close>

definition ensure_owner :: "string \<Rightarrow> string \<Rightarrow> unit rpc_result" where
  "ensure_owner client_id owner =
     (if client_id \<noteq> owner then Inl (mk_status PermissionDenied ''handle belongs to another client'')
      else Inr ())"

definition internal_status :: "string \<Rightarrow> status" where
  "internal_status err = mk_status Internal err"

definition opt_attachment :: "bytes \<Rightarrow> bytes option" where
  "opt_attachment b = (if b \<noteq> [] then Some b else None)"

text \<open>\<^verbatim>\<open>builder.await.map_err(internal_status)?\<close>: the call's result and the state after it.\<close>

definition awaited :: "'a zresult \<times> 'w \<Rightarrow> 'w PluginState \<Rightarrow> 'a rpc_result \<times> 'w PluginState" where
  "awaited rw s =
     ((case fst rw of Inl err \<Rightarrow> Inl (internal_status err) | Inr v \<Rightarrow> Inr v), s\<lparr>session := snd rw\<rparr>)"

text \<open>\<^verbatim>\<open>if !req.encoding.is_empty() { builder.encoding(..) }\<close>.\<close>

definition opt_encoding :: "'w env \<Rightarrow> string \<Rightarrow> zencoding option" where
  "opt_encoding E e = (if e \<noteq> [] then Some (encoding_from E e) else None)"

text \<open>\<^verbatim>\<open>if !req.payload.is_empty() { builder.payload(..).encoding(..) }\<close>.\<close>

definition opt_value :: "'w env \<Rightarrow> bytes \<Rightarrow> string \<Rightarrow> (bytes \<times> zencoding) option" where
  "opt_value E p e = (if p \<noteq> [] then Some (p, encoding_from E e) else None)"

text \<open>\<^verbatim>\<open>if req.timeout_ms != 0 { builder.timeout(..) }\<close>.\<close>

definition opt_timeout :: "u64 \<Rightarrow> duration option" where
  "opt_timeout t = (if t \<noteq> 0 then Some (unat t) else None)"

section \<open>Encoders\<close>

definition sample_kind :: "z_sample_kind \<Rightarrow> i32" where
  "sample_kind k = (case k of ZDelete \<Rightarrow> 2 | _ \<Rightarrow> 1)"

definition encode_sample :: "'w env \<Rightarrow> z_sample \<Rightarrow> pb_Sample" where
  "encode_sample E z =
     \<lparr>smp_key_expr = zs_key_expr z, smp_payload = zs_payload z,
      smp_encoding = encoding_to_string E (zs_encoding z), smp_kind = sample_kind (zs_kind z),
      smp_attachment = unwrap_or (zs_attachment z) [],
      smp_timestamp = unwrap_or (zs_timestamp z) [], smp_source_info = None\<rparr>"

definition encode_reply :: "'w env \<Rightarrow> z_reply \<Rightarrow> pb_Reply" where
  "encode_reply E r =
     (case r of
        Inr z \<Rightarrow> \<lparr>reply_result = Some (Reply_Sample (encode_sample E z))\<rparr>
      | Inl e \<Rightarrow> \<lparr>reply_result = Some (Reply_Error
            \<lparr>rerr_payload = ze_payload e, rerr_encoding = encoding_to_string E (ze_encoding e)\<rparr>)\<rparr>)"

definition encode_query :: "'w env \<Rightarrow> u64 \<Rightarrow> z_query \<Rightarrow> pb_Query" where
  "encode_query E query_id q =
     \<lparr>qry_query_id = query_id, qry_selector = zq_selector q, qry_key_expr = zq_key_expr q,
      qry_parameters = zq_parameters q, qry_payload = unwrap_or (zq_payload q) [],
      qry_encoding = unwrap_or (map_option (encoding_to_string E) (zq_encoding q)) [],
      qry_attachment = unwrap_or (zq_attachment q) []\<rparr>"

text \<open>
  The reply streams of \<^verbatim>\<open>get\<close>: items received from the reply receiver up to the first error, encoded.
  The event streams: what a broadcast receiver yields, without its \<^verbatim>\<open>Lagged\<close> errors.
\<close>

definition reply_stream :: "'w env \<Rightarrow> (unit + z_reply) list \<Rightarrow> pb_Reply list" where
  "reply_stream E rs = map (encode_reply E \<circ> projr) (takeWhile (\<lambda>r. \<not> isl r) rs)"

definition event_stream :: "(nat + 'ev) list \<Rightarrow> 'ev list" where
  "event_stream rs = map projr (filter (\<lambda>r. \<not> isl r) rs)"

section \<open>SessionService\<close>

definition session_info :: "'w env \<Rightarrow> instant \<Rightarrow> string \<Rightarrow> 'w PluginState \<Rightarrow> string rpc_result \<times> 'w PluginState" where
  "session_info E now client_id s0 =
     (let s = touch_client now client_id s0 in (Inr (z_zid E (session s)), s))"

definition session_put ::
  "'w env \<Rightarrow> instant \<Rightarrow> SessionPutRequest \<Rightarrow> 'w PluginState \<Rightarrow> unit rpc_result \<times> 'w PluginState" where
  "session_put E now req s0 =
     (let s = touch_client now (sput_client_id req) s0 in
      awaited (z_put E
        \<lparr>zp_key_expr = sput_key_expr req, zp_payload = sput_payload req,
         zp_encoding = encoding_from E (sput_encoding req),
         zp_congestion_control = map_congestion_control (sput_congestion_control req),
         zp_priority = map_priority (sput_priority req), zp_express = sput_express req,
         zp_allowed_destination = map_locality (sput_allowed_destination req),
         zp_attachment = opt_attachment (sput_attachment req)\<rparr> (session s)) s)"

definition session_delete ::
  "'w env \<Rightarrow> instant \<Rightarrow> SessionDeleteRequest \<Rightarrow> 'w PluginState \<Rightarrow> unit rpc_result \<times> 'w PluginState" where
  "session_delete E now req s0 =
     (let s = touch_client now (sdel_client_id req) s0 in
      awaited (z_delete E
        \<lparr>zd_key_expr = sdel_key_expr req,
         zd_congestion_control = map_congestion_control (sdel_congestion_control req),
         zd_priority = map_priority (sdel_priority req), zd_express = sdel_express req,
         zd_allowed_destination = map_locality (sdel_allowed_destination req),
         zd_attachment = opt_attachment (sdel_attachment req)\<rparr> (session s)) s)"

definition session_get ::
  "'w env \<Rightarrow> instant \<Rightarrow> SessionGetRequest \<Rightarrow> 'w PluginState \<Rightarrow> zref rpc_result \<times> 'w PluginState" where
  "session_get E now req s0 =
     (let s = touch_client now (sget_client_id req) s0 in
      awaited (z_get E
        \<lparr>zg_selector = sget_selector req, zg_target = map_query_target (sget_target req),
         zg_consolidation = map_consolidation (sget_consolidation req),
         zg_allowed_destination = map_locality (sget_allowed_destination req),
         zg_timeout = opt_timeout (sget_timeout_ms req),
         zg_value = opt_value E (sget_payload req) (sget_encoding req),
         zg_attachment = opt_attachment (sget_attachment req)\<rparr> (session s)) s)"

definition session_touch_client ::
  "instant \<Rightarrow> string \<Rightarrow> 'w PluginState \<Rightarrow> unit rpc_result \<times> 'w PluginState" where
  "session_touch_client now client_id s = (Inr (), touch_client now client_id s)"

definition session_cleanup_client ::
  "'w env \<Rightarrow> string \<Rightarrow> 'w PluginState \<Rightarrow> unit rpc_result \<times> 'w PluginState" where
  "session_cleanup_client E client_id s = (Inr (), cleanup_client E client_id s)"

section \<open>PublisherService\<close>

text \<open>
  Inserting into a table drops the value it replaces, if there is one.
\<close>

definition replaced :: "('v \<Rightarrow> 'w \<Rightarrow> 'w) \<Rightarrow> ('k, 'v) hashmap \<Rightarrow> 'k \<Rightarrow> 'w \<Rightarrow> 'w" where
  "replaced drop_entry m k w = (case hm_get m k of None \<Rightarrow> w | Some old \<Rightarrow> drop_entry old w)"

definition drop_publisher :: "'w env \<Rightarrow> PublisherEntry \<Rightarrow> 'w \<Rightarrow> 'w" where
  "drop_publisher E e w = z_drop E (pub_publisher e) w"

definition insert_publisher :: "'w env \<Rightarrow> u64 \<Rightarrow> PublisherEntry \<Rightarrow> 'w PluginState \<Rightarrow> 'w PluginState" where
  "insert_publisher E h e s =
     s\<lparr>publishers := hm_insert h e (publishers s),
       session := replaced (drop_publisher E) (publishers s) h (session s)\<rparr>"

definition declare_publisher ::
  "'w env \<Rightarrow> instant \<Rightarrow> DeclarePublisherRequest \<Rightarrow> 'w PluginState \<Rightarrow> u64 rpc_result \<times> 'w PluginState" where
  "declare_publisher E now req s0 =
     (let (handle, s) = alloc_handle (touch_client now (dpub_client_id req) s0) in
      case awaited (z_declare_publisher E
        \<lparr>zpub_key_expr = dpub_key_expr req, zpub_encoding = encoding_from E (dpub_encoding req),
         zpub_congestion_control = map_congestion_control (dpub_congestion_control req),
         zpub_priority = map_priority (dpub_priority req), zpub_express = dpub_express req,
         zpub_reliability = map_reliability (dpub_reliability req),
         zpub_allowed_destination = map_locality (dpub_allowed_destination req)\<rparr> (session s)) s of
        (Inl e, s) \<Rightarrow> (Inl e, s)
      | (Inr publisher, s) \<Rightarrow>
          (Inr handle,
           insert_publisher E handle \<lparr>pub_owner = dpub_client_id req, pub_publisher = publisher\<rparr> s))"

definition publisher_put ::
  "'w env \<Rightarrow> instant \<Rightarrow> PublisherPutRequest \<Rightarrow> 'w PluginState \<Rightarrow> unit rpc_result \<times> 'w PluginState" where
  "publisher_put E now req s0 =
     (let s = touch_client now (pput_client_id req) s0 in
      case hm_get (publishers s) (pput_handle req) of
        None \<Rightarrow> (Inl (mk_status NotFound ''publisher handle not found''), s)
      | Some entry \<Rightarrow>
          (case ensure_owner (pput_client_id req) (pub_owner entry) of
             Inl e \<Rightarrow> (Inl e, s)
           | Inr _ \<Rightarrow>
               awaited (z_publisher_put E (pub_publisher entry) (pput_payload req)
                 (opt_encoding E (pput_encoding req)) (opt_attachment (pput_attachment req))
                 (session s)) s))"

definition publisher_delete ::
  "'w env \<Rightarrow> instant \<Rightarrow> PublisherDeleteRequest \<Rightarrow> 'w PluginState \<Rightarrow> unit rpc_result \<times> 'w PluginState" where
  "publisher_delete E now req s0 =
     (let s = touch_client now (pdel_client_id req) s0 in
      case hm_get (publishers s) (pdel_handle req) of
        None \<Rightarrow> (Inl (mk_status NotFound ''publisher handle not found''), s)
      | Some entry \<Rightarrow>
          (case ensure_owner (pdel_client_id req) (pub_owner entry) of
             Inl e \<Rightarrow> (Inl e, s)
           | Inr _ \<Rightarrow>
               awaited (z_publisher_delete E (pub_publisher entry)
                 (opt_attachment (pdel_attachment req)) (session s)) s))"

definition publisher_undeclare ::
  "'w env \<Rightarrow> instant \<Rightarrow> HandleRequest \<Rightarrow> 'w PluginState \<Rightarrow> unit rpc_result \<times> 'w PluginState" where
  "publisher_undeclare E now req s0 =
     (let s = touch_client now (hreq_client_id req) s0;
          removed = hm_get (publishers s) (hreq_handle req);
          s = s\<lparr>publishers := hm_remove (hreq_handle req) (publishers s)\<rparr> in
      case removed of
        None \<Rightarrow> (Inl (mk_status NotFound ''publisher handle not found''), s)
      | Some entry \<Rightarrow>
          (case ensure_owner (hreq_client_id req) (pub_owner entry) of
             Inl e \<Rightarrow> (Inl e, s\<lparr>session := drop_publisher E entry (session s)\<rparr>)
           | Inr _ \<Rightarrow> awaited (z_undeclare E (pub_publisher entry) (session s)) s))"

section \<open>SubscriberService\<close>

definition drop_subscriber :: "'w env \<Rightarrow> SubscriberEntry \<Rightarrow> 'w \<Rightarrow> 'w" where
  "drop_subscriber E e w = bc_drop E (sub_events e) (z_drop E (sub_subscriber e) w)"

definition insert_subscriber :: "'w env \<Rightarrow> u64 \<Rightarrow> SubscriberEntry \<Rightarrow> 'w PluginState \<Rightarrow> 'w PluginState" where
  "insert_subscriber E h e s =
     s\<lparr>subscribers := hm_insert h e (subscribers s),
       session := replaced (drop_subscriber E) (subscribers s) h (session s)\<rparr>"

definition declare_subscriber ::
  "'w env \<Rightarrow> instant \<Rightarrow> DeclareSubscriberRequest \<Rightarrow> 'w PluginState \<Rightarrow> u64 rpc_result \<times> 'w PluginState" where
  "declare_subscriber E now req s0 =
     (let (handle, s) = alloc_handle (touch_client now (dsub_client_id req) s0) in
      case awaited (z_declare_subscriber E (dsub_key_expr req)
             (map_locality (dsub_allowed_origin req)) 256 (session s)) s of
        (Inl e, s) \<Rightarrow> (Inl e, s)
      | (Inr subscriber, s) \<Rightarrow>
          (let (tx, w) = bc_channel E 256 (session s) in
           (Inr handle,
            insert_subscriber E handle
              \<lparr>sub_owner = dsub_client_id req, sub_subscriber = subscriber, sub_events = tx\<rparr>
              (s\<lparr>session := w\<rparr>))))"

text \<open>One iteration of the task that \<^verbatim>\<open>declare_subscriber\<close> spawns.\<close>

definition subscriber_forward :: "'w env \<Rightarrow> zref \<Rightarrow> z_sample \<Rightarrow> 'w PluginState \<Rightarrow> 'w PluginState" where
  "subscriber_forward E tx sample s =
     s\<lparr>session := bc_send_sample E tx \<lparr>sevt_sample = Some (encode_sample E sample)\<rparr> (session s)\<rparr>"

definition subscriber_events ::
  "'w env \<Rightarrow> instant \<Rightarrow> HandleRequest \<Rightarrow> 'w PluginState \<Rightarrow> zref rpc_result \<times> 'w PluginState" where
  "subscriber_events E now req s0 =
     (let s = touch_client now (hreq_client_id req) s0 in
      case hm_get (subscribers s) (hreq_handle req) of
        None \<Rightarrow> (Inl (mk_status NotFound ''subscriber handle not found''), s)
      | Some entry \<Rightarrow>
          (case ensure_owner (hreq_client_id req) (sub_owner entry) of
             Inl e \<Rightarrow> (Inl e, s)
           | Inr _ \<Rightarrow>
               (let (rx, w) = bc_subscribe E (sub_events entry) (session s) in
                (Inr rx, s\<lparr>session := w\<rparr>))))"

definition subscriber_undeclare ::
  "'w env \<Rightarrow> instant \<Rightarrow> HandleRequest \<Rightarrow> 'w PluginState \<Rightarrow> unit rpc_result \<times> 'w PluginState" where
  "subscriber_undeclare E now req s0 =
     (let s = touch_client now (hreq_client_id req) s0;
          removed = hm_get (subscribers s) (hreq_handle req);
          s = s\<lparr>subscribers := hm_remove (hreq_handle req) (subscribers s)\<rparr> in
      case removed of
        None \<Rightarrow> (Inl (mk_status NotFound ''subscriber handle not found''), s)
      | Some entry \<Rightarrow>
          (case ensure_owner (hreq_client_id req) (sub_owner entry) of
             Inl e \<Rightarrow> (Inl e, s\<lparr>session := drop_subscriber E entry (session s)\<rparr>)
           | Inr _ \<Rightarrow>
               (let (r, s) = awaited (z_undeclare E (sub_subscriber entry) (session s)) s in
                (r, s\<lparr>session := bc_drop E (sub_events entry) (session s)\<rparr>))))"

section \<open>QueryableService\<close>

definition drop_queryable :: "'w env \<Rightarrow> QueryableEntry \<Rightarrow> 'w \<Rightarrow> 'w" where
  "drop_queryable E e w = bc_drop E (qbl_events e) (z_drop E (qbl_queryable e) w)"

definition insert_queryable :: "'w env \<Rightarrow> u64 \<Rightarrow> QueryableEntry \<Rightarrow> 'w PluginState \<Rightarrow> 'w PluginState" where
  "insert_queryable E h e s =
     s\<lparr>queryables := hm_insert h e (queryables s),
       session := replaced (drop_queryable E) (queryables s) h (session s)\<rparr>"

definition declare_queryable ::
  "'w env \<Rightarrow> instant \<Rightarrow> DeclareQueryableRequest \<Rightarrow> 'w PluginState \<Rightarrow> u64 rpc_result \<times> 'w PluginState" where
  "declare_queryable E now req s0 =
     (let (handle, s) = alloc_handle (touch_client now (dqbl_client_id req) s0) in
      case awaited (z_declare_queryable E (dqbl_key_expr req) (dqbl_complete req)
             (map_locality (dqbl_allowed_origin req)) 256 (session s)) s of
        (Inl e, s) \<Rightarrow> (Inl e, s)
      | (Inr queryable, s) \<Rightarrow>
          (let (tx, w) = bc_channel E 256 (session s) in
           (Inr handle,
            insert_queryable E handle
              \<lparr>qbl_owner = dqbl_client_id req, qbl_queryable = queryable, qbl_events = tx\<rparr>
              (s\<lparr>session := w\<rparr>))))"

text \<open>
  One iteration of the task that \<^verbatim>\<open>declare_queryable\<close> spawns with its \<open>handle\<close>, \<open>owner\<close> and sender
  \<open>tx\<close>: the query is stored under a new id, and, if it is still stored when the table is locked
  again, its event is sent.
\<close>

definition dispatch_store ::
  "'w env \<Rightarrow> u64 \<Rightarrow> string \<Rightarrow> z_query \<Rightarrow> 'w PluginState \<Rightarrow> u64 \<times> 'w PluginState" where
  "dispatch_store E handle owner query s0 =
     (let (query_id, s) = alloc_query_id s0 in
      (query_id,
       s\<lparr>inflight_queries :=
           hm_insert query_id \<lparr>ifq_owner = owner, ifq_handle = handle, ifq_query = query\<rparr>
             (inflight_queries s),
         session := replaced (drop_query E) (inflight_queries s) query_id (session s)\<rparr>))"

definition dispatch_send :: "'w env \<Rightarrow> zref \<Rightarrow> u64 \<Rightarrow> 'w PluginState \<Rightarrow> 'w PluginState" where
  "dispatch_send E tx query_id s =
     (case hm_get (inflight_queries s) query_id of
        None \<Rightarrow> s
      | Some stored \<Rightarrow>
          s\<lparr>session := bc_send_query E tx
              \<lparr>qevt_query = Some (encode_query E query_id (ifq_query stored))\<rparr> (session s)\<rparr>)"

definition queryable_dispatch ::
  "'w env \<Rightarrow> u64 \<Rightarrow> string \<Rightarrow> zref \<Rightarrow> z_query \<Rightarrow> 'w PluginState \<Rightarrow> 'w PluginState" where
  "queryable_dispatch E handle owner tx query s0 =
     (let (query_id, s) = dispatch_store E handle owner query s0 in dispatch_send E tx query_id s)"

definition queryable_events ::
  "'w env \<Rightarrow> instant \<Rightarrow> HandleRequest \<Rightarrow> 'w PluginState \<Rightarrow> zref rpc_result \<times> 'w PluginState" where
  "queryable_events E now req s0 =
     (let s = touch_client now (hreq_client_id req) s0 in
      case hm_get (queryables s) (hreq_handle req) of
        None \<Rightarrow> (Inl (mk_status NotFound ''queryable handle not found''), s)
      | Some entry \<Rightarrow>
          (case ensure_owner (hreq_client_id req) (qbl_owner entry) of
             Inl e \<Rightarrow> (Inl e, s)
           | Inr _ \<Rightarrow>
               (let (rx, w) = bc_subscribe E (qbl_events entry) (session s) in
                (Inr rx, s\<lparr>session := w\<rparr>))))"

text \<open>The checks that \<^verbatim>\<open>reply\<close>, \<^verbatim>\<open>reply_err\<close>, \<^verbatim>\<open>reply_delete\<close> and \<^verbatim>\<open>finish\<close> begin with.\<close>

definition inflight_query ::
  "string \<Rightarrow> u64 \<Rightarrow> u64 \<Rightarrow> 'w PluginState \<Rightarrow> InFlightQuery rpc_result" where
  "inflight_query client_id handle query_id s =
     (case hm_get (inflight_queries s) query_id of
        None \<Rightarrow> Inl (mk_status NotFound ''query not found'')
      | Some query \<Rightarrow>
          (case ensure_owner client_id (ifq_owner query) of
             Inl e \<Rightarrow> Inl e
           | Inr _ \<Rightarrow>
               if ifq_handle query \<noteq> handle
               then Inl (mk_status PermissionDenied ''query does not belong to the queryable handle'')
               else Inr query))"

definition queryable_reply ::
  "'w env \<Rightarrow> instant \<Rightarrow> QueryReplyRequest \<Rightarrow> 'w PluginState \<Rightarrow> unit rpc_result \<times> 'w PluginState" where
  "queryable_reply E now req s0 =
     (let s = touch_client now (qrep_client_id req) s0 in
      case inflight_query (qrep_client_id req) (qrep_handle req) (qrep_query_id req) s of
        Inl e \<Rightarrow> (Inl e, s)
      | Inr query \<Rightarrow>
          awaited (z_reply E (zq_ref (ifq_query query)) (qrep_key_expr req) (qrep_payload req)
            (opt_encoding E (qrep_encoding req)) (opt_attachment (qrep_attachment req))
            (session s)) s)"

definition queryable_reply_err ::
  "'w env \<Rightarrow> instant \<Rightarrow> QueryReplyErrRequest \<Rightarrow> 'w PluginState \<Rightarrow> unit rpc_result \<times> 'w PluginState" where
  "queryable_reply_err E now req s0 =
     (let s = touch_client now (qerr_client_id req) s0 in
      case inflight_query (qerr_client_id req) (qerr_handle req) (qerr_query_id req) s of
        Inl e \<Rightarrow> (Inl e, s)
      | Inr query \<Rightarrow>
          awaited (z_reply_err E (zq_ref (ifq_query query)) (qerr_payload req)
            (opt_encoding E (qerr_encoding req)) (session s)) s)"

definition queryable_reply_delete ::
  "'w env \<Rightarrow> instant \<Rightarrow> QueryReplyDeleteRequest \<Rightarrow> 'w PluginState \<Rightarrow> unit rpc_result \<times> 'w PluginState" where
  "queryable_reply_delete E now req s0 =
     (let s = touch_client now (qdel_client_id req) s0 in
      case inflight_query (qdel_client_id req) (qdel_handle req) (qdel_query_id req) s of
        Inl e \<Rightarrow> (Inl e, s)
      | Inr query \<Rightarrow>
          awaited (z_reply_del E (zq_ref (ifq_query query)) (qdel_key_expr req)
            (opt_attachment (qdel_attachment req)) (session s)) s)"

definition queryable_finish ::
  "'w env \<Rightarrow> instant \<Rightarrow> QueryFinishRequest \<Rightarrow> 'w PluginState \<Rightarrow> unit rpc_result \<times> 'w PluginState" where
  "queryable_finish E now req s0 =
     (let s = touch_client now (qfin_client_id req) s0 in
      case inflight_query (qfin_client_id req) (qfin_handle req) (qfin_query_id req) s of
        Inl e \<Rightarrow> (Inl e, s)
      | Inr query \<Rightarrow>
          (Inr (), s\<lparr>inflight_queries := hm_remove (qfin_query_id req) (inflight_queries s),
                     session := drop_query E query (session s)\<rparr>))"

definition queryable_undeclare ::
  "'w env \<Rightarrow> instant \<Rightarrow> HandleRequest \<Rightarrow> 'w PluginState \<Rightarrow> unit rpc_result \<times> 'w PluginState" where
  "queryable_undeclare E now req s0 =
     (let s = touch_client now (hreq_client_id req) s0;
          removed = hm_get (queryables s) (hreq_handle req);
          s = s\<lparr>queryables := hm_remove (hreq_handle req) (queryables s)\<rparr> in
      case removed of
        None \<Rightarrow> (Inl (mk_status NotFound ''queryable handle not found''), s)
      | Some entry \<Rightarrow>
          (case ensure_owner (hreq_client_id req) (qbl_owner entry) of
             Inl e \<Rightarrow> (Inl e, s\<lparr>session := drop_queryable E entry (session s)\<rparr>)
           | Inr _ \<Rightarrow>
               (let s = retain_inflight E (\<lambda>q. ifq_handle q \<noteq> hreq_handle req) s;
                    (r, s) = awaited (z_undeclare E (qbl_queryable entry) (session s)) s in
                (r, s\<lparr>session := bc_drop E (qbl_events entry) (session s)\<rparr>))))"

section \<open>QuerierService\<close>

definition drop_querier :: "'w env \<Rightarrow> QuerierEntry \<Rightarrow> 'w \<Rightarrow> 'w" where
  "drop_querier E e w = z_drop E (qr_querier e) w"

definition insert_querier :: "'w env \<Rightarrow> u64 \<Rightarrow> QuerierEntry \<Rightarrow> 'w PluginState \<Rightarrow> 'w PluginState" where
  "insert_querier E h e s =
     s\<lparr>queriers := hm_insert h e (queriers s),
       session := replaced (drop_querier E) (queriers s) h (session s)\<rparr>"

definition declare_querier ::
  "'w env \<Rightarrow> instant \<Rightarrow> DeclareQuerierRequest \<Rightarrow> 'w PluginState \<Rightarrow> u64 rpc_result \<times> 'w PluginState" where
  "declare_querier E now req s0 =
     (let (handle, s) = alloc_handle (touch_client now (dqr_client_id req) s0) in
      case awaited (z_declare_querier E
        \<lparr>zqr_key_expr = dqr_key_expr req, zqr_target = map_query_target (dqr_target req),
         zqr_consolidation = map_consolidation (dqr_consolidation req),
         zqr_allowed_destination = map_locality (dqr_allowed_destination req),
         zqr_timeout = opt_timeout (dqr_timeout_ms req)\<rparr> (session s)) s of
        (Inl e, s) \<Rightarrow> (Inl e, s)
      | (Inr querier, s) \<Rightarrow>
          (Inr handle,
           insert_querier E handle \<lparr>qr_owner = dqr_client_id req, qr_querier = querier\<rparr> s))"

definition querier_get ::
  "'w env \<Rightarrow> instant \<Rightarrow> QuerierGetRequest \<Rightarrow> 'w PluginState \<Rightarrow> zref rpc_result \<times> 'w PluginState" where
  "querier_get E now req s0 =
     (let s = touch_client now (qget_client_id req) s0 in
      case hm_get (queriers s) (qget_handle req) of
        None \<Rightarrow> (Inl (mk_status NotFound ''querier handle not found''), s)
      | Some entry \<Rightarrow>
          (case ensure_owner (qget_client_id req) (qr_owner entry) of
             Inl e \<Rightarrow> (Inl e, s)
           | Inr _ \<Rightarrow>
               awaited (z_querier_get E (qr_querier entry) (qget_parameters req)
                 (opt_value E (qget_payload req) (qget_encoding req))
                 (opt_attachment (qget_attachment req)) (session s)) s))"

definition querier_undeclare ::
  "'w env \<Rightarrow> instant \<Rightarrow> HandleRequest \<Rightarrow> 'w PluginState \<Rightarrow> unit rpc_result \<times> 'w PluginState" where
  "querier_undeclare E now req s0 =
     (let s = touch_client now (hreq_client_id req) s0;
          removed = hm_get (queriers s) (hreq_handle req);
          s = s\<lparr>queriers := hm_remove (hreq_handle req) (queriers s)\<rparr> in
      case removed of
        None \<Rightarrow> (Inl (mk_status NotFound ''querier handle not found''), s)
      | Some entry \<Rightarrow>
          (case ensure_owner (hreq_client_id req) (qr_owner entry) of
             Inl e \<Rightarrow> (Inl e, s\<lparr>session := drop_querier E entry (session s)\<rparr>)
           | Inr _ \<Rightarrow> awaited (z_undeclare E (qr_querier entry) (session s)) s))"

section \<open>The server as a machine\<close>

datatype response = R_Empty | R_Info string | R_Handle u64 | R_Stream zref

definition respond :: "('a \<Rightarrow> response) \<Rightarrow> 'a rpc_result \<times> 's \<Rightarrow> response rpc_result \<times> 's" where
  "respond f rs = (map_sum id f (fst rs), snd rs)"

fun handle_request ::
  "'w env \<Rightarrow> instant \<Rightarrow> request \<Rightarrow> 'w PluginState \<Rightarrow> response rpc_result \<times> 'w PluginState" where
  "handle_request E now (Info c) s = respond R_Info (session_info E now c s)"
| "handle_request E now (Put r) s = respond (\<lambda>_. R_Empty) (session_put E now r s)"
| "handle_request E now (Delete r) s = respond (\<lambda>_. R_Empty) (session_delete E now r s)"
| "handle_request E now (Get r) s = respond R_Stream (session_get E now r s)"
| "handle_request E now (TouchClient c) s = respond (\<lambda>_. R_Empty) (session_touch_client now c s)"
| "handle_request E now (CleanupClient c) s = respond (\<lambda>_. R_Empty) (session_cleanup_client E c s)"
| "handle_request E now (DeclarePublisher r) s = respond R_Handle (declare_publisher E now r s)"
| "handle_request E now (PublisherPut r) s = respond (\<lambda>_. R_Empty) (publisher_put E now r s)"
| "handle_request E now (PublisherDelete r) s = respond (\<lambda>_. R_Empty) (publisher_delete E now r s)"
| "handle_request E now (PublisherUndeclare r) s = respond (\<lambda>_. R_Empty) (publisher_undeclare E now r s)"
| "handle_request E now (DeclareSubscriber r) s = respond R_Handle (declare_subscriber E now r s)"
| "handle_request E now (SubscriberEvents r) s = respond R_Stream (subscriber_events E now r s)"
| "handle_request E now (SubscriberUndeclare r) s = respond (\<lambda>_. R_Empty) (subscriber_undeclare E now r s)"
| "handle_request E now (DeclareQueryable r) s = respond R_Handle (declare_queryable E now r s)"
| "handle_request E now (QueryableEvents r) s = respond R_Stream (queryable_events E now r s)"
| "handle_request E now (Reply r) s = respond (\<lambda>_. R_Empty) (queryable_reply E now r s)"
| "handle_request E now (ReplyErr r) s = respond (\<lambda>_. R_Empty) (queryable_reply_err E now r s)"
| "handle_request E now (ReplyDelete r) s = respond (\<lambda>_. R_Empty) (queryable_reply_delete E now r s)"
| "handle_request E now (Finish r) s = respond (\<lambda>_. R_Empty) (queryable_finish E now r s)"
| "handle_request E now (QueryableUndeclare r) s = respond (\<lambda>_. R_Empty) (queryable_undeclare E now r s)"
| "handle_request E now (DeclareQuerier r) s = respond R_Handle (declare_querier E now r s)"
| "handle_request E now (QuerierGet r) s = respond R_Stream (querier_get E now r s)"
| "handle_request E now (QuerierUndeclare r) s = respond (\<lambda>_. R_Empty) (querier_undeclare E now r s)"

datatype server_event =
    Rpc instant request
  | Tick instant
  | QueryArrived u64 string zref z_query
  | SampleArrived zref z_sample

fun server_step :: "'w env \<Rightarrow> server_event \<Rightarrow> 'w PluginState \<Rightarrow> 'w PluginState" where
  "server_step E (Rpc now r) s = snd (handle_request E now r s)"
| "server_step E (Tick now) s = cleanup_tick E now s"
| "server_step E (QueryArrived handle owner tx q) s = queryable_dispatch E handle owner tx q s"
| "server_step E (SampleArrived tx z) s = subscriber_forward E tx z s"

end
