(* ===== verification/Server_Invariants.thy ===== *)
theory Server_Invariants
  imports Server
begin

text \<open>
  Well-formedness of the plugin state and what every server event keeps of it: handles are unique
  across the four object tables and never reused while the 64-bit counter has not wrapped, query ids
  likewise, and (between handlers) every declared object belongs to a client whose lease is being
  watched. The properties about ownership, cleanup and queries of the later theories rest on it.
\<close>

definition all_handles :: "'w PluginState \<Rightarrow> u64 list" where
  "all_handles s = map fst (publishers s) @ map fst (subscribers s)
     @ map fst (queryables s) @ map fst (queriers s)"

definition state_inv :: "'w PluginState \<Rightarrow> bool" where
  "state_inv s \<longleftrightarrow>
     distinct (all_handles s) \<and> (\<forall>h \<in> set (all_handles s). h < next_handle s)
     \<and> hm_ok (inflight_queries s) \<and> (\<forall>q \<in> hm_keys (inflight_queries s). q < next_query_id s)
     \<and> hm_ok (live_clients s)"

text \<open>The owners of the declared objects.\<close>

definition owners :: "'w PluginState \<Rightarrow> string set" where
  "owners s = (pub_owner \<circ> snd) ` set (publishers s) \<union> (sub_owner \<circ> snd) ` set (subscribers s)
     \<union> (qbl_owner \<circ> snd) ` set (queryables s) \<union> (qr_owner \<circ> snd) ` set (queriers s)"

definition owners_live :: "'w PluginState \<Rightarrow> bool" where
  "owners_live s \<longleftrightarrow> owners s \<subseteq> hm_keys (live_clients s)"

section \<open>Keys under the table operations\<close>

lemma keys_remove: "map fst (hm_remove k m) = filter (\<lambda>k'. k' \<noteq> k) (map fst m)"
  by (induction m) (auto simp: hm_remove_def)

lemma keys_insert_new: "k \<notin> set (map fst m) \<Longrightarrow> map fst (hm_insert k v m) = k # map fst m"
  by (simp add: hm_insert_def hm_remove_absent)

lemma set_hm_remove: "set (hm_remove k m) = {kv \<in> set m. fst kv \<noteq> k}"
  by (auto simp: hm_remove_def)

lemma set_hm_insert: "set (hm_insert k v m) = insert (k, v) {kv \<in> set m. fst kv \<noteq> k}"
  by (simp add: hm_insert_def set_hm_remove)

lemma hm_keys_simps [simp]:
  "hm_keys [] = {}"
  "hm_keys (hm_insert k v m) = insert k (hm_keys m)"
  "hm_keys (hm_remove k m) = hm_keys m - {k}"
  by (auto simp: hm_keys_def set_hm_insert set_hm_remove)

lemma hm_keys_retain: "hm_keys (hm_retain P m) \<subseteq> hm_keys m"
  by (auto simp: hm_keys_def hm_retain_def)

lemma filter_keys_subset: "fst ` set (filter P m) \<subseteq> fst ` set m"
  by auto

lemma distinct_parts:
  assumes "distinct (a @ b @ c @ d)" and "distinct a'" "distinct b'" "distinct c'" "distinct d'"
    and "set a' \<subseteq> set a" "set b' \<subseteq> set b" "set c' \<subseteq> set c" "set d' \<subseteq> set d"
  shows "distinct (a' @ b' @ c' @ d')"
  using assms by auto

lemma fold_hm_remove: "fold hm_remove ks m = filter (\<lambda>kv. fst kv \<notin> set ks) m"
  by (induction ks arbitrary: m) (auto simp: hm_remove_def intro: filter_cong)

lemma remove_selected:
  assumes "hm_ok m"
  shows "fold hm_remove (hm_keys_where P m) m = hm_retain (\<lambda>v. \<not> P v) m"
proof -
  have "fst kv \<in> set (hm_keys_where P m) \<longleftrightarrow> P (snd kv)" if "kv \<in> set m" for kv
    using that assms
    by (auto simp: hm_keys_where_def hm_ok_def) (metis eq_key_imp_eq_value prod.collapse)
  then show ?thesis
    by (auto simp: fold_hm_remove hm_retain_def intro: filter_cong)
qed

section \<open>The effect of cleaning up a client\<close>

lemma cleanup_client_tables:
  "live_clients (cleanup_client E c s) = hm_remove c (live_clients s)"
  "publishers (cleanup_client E c s) =
     fold hm_remove (hm_keys_where (\<lambda>e. pub_owner e = c) (publishers s)) (publishers s)"
  "subscribers (cleanup_client E c s) =
     fold hm_remove (hm_keys_where (\<lambda>e. sub_owner e = c) (subscribers s)) (subscribers s)"
  "queryables (cleanup_client E c s) =
     fold hm_remove (hm_keys_where (\<lambda>e. qbl_owner e = c) (queryables s)) (queryables s)"
  "queriers (cleanup_client E c s) =
     fold hm_remove (hm_keys_where (\<lambda>e. qr_owner e = c) (queriers s)) (queriers s)"
  "inflight_queries (cleanup_client E c s) =
     hm_retain (\<lambda>q. ifq_owner q \<noteq> c) (inflight_queries s)"
  "next_handle (cleanup_client E c s) = next_handle s"
  "next_query_id (cleanup_client E c s) = next_query_id s"
  "config (cleanup_client E c s) = config s"
  by (simp_all add: cleanup_client_def retain_inflight_def Let_def case_prod_beta remove_entries_map)

lemma state_inv_tables:
  assumes "state_inv s"
  shows "hm_ok (publishers s)" "hm_ok (subscribers s)" "hm_ok (queryables s)" "hm_ok (queriers s)"
    "hm_ok (inflight_queries s)" "hm_ok (live_clients s)"
  using assms by (auto simp: state_inv_def all_handles_def hm_ok_def)

lemma cleanup_client_retains:
  assumes "state_inv s"
  shows "publishers (cleanup_client E c s) = hm_retain (\<lambda>e. pub_owner e \<noteq> c) (publishers s)"
    "subscribers (cleanup_client E c s) = hm_retain (\<lambda>e. sub_owner e \<noteq> c) (subscribers s)"
    "queryables (cleanup_client E c s) = hm_retain (\<lambda>e. qbl_owner e \<noteq> c) (queryables s)"
    "queriers (cleanup_client E c s) = hm_retain (\<lambda>e. qr_owner e \<noteq> c) (queriers s)"
  using state_inv_tables [OF assms] by (simp_all add: cleanup_client_tables remove_selected)

section \<open>The invariant under the building blocks\<close>

lemma state_inv_session [simp]: "state_inv (s\<lparr>session := w\<rparr>) = state_inv s"
  by (simp add: state_inv_def all_handles_def)

lemma state_inv_touch [simp]: "state_inv s \<Longrightarrow> state_inv (touch_client now c s)"
  by (simp add: state_inv_def all_handles_def touch_client_def)

lemma state_inv_shrink:
  assumes "state_inv s"
    and "publishers t = filter kp (publishers s)" and "subscribers t = filter ks (subscribers s)"
    and "queryables t = filter kq (queryables s)" and "queriers t = filter kr (queriers s)"
    and "inflight_queries t = filter ki (inflight_queries s)"
    and "live_clients t = filter kl (live_clients s)"
    and "next_handle t = next_handle s" and "next_query_id t = next_query_id s"
  shows "state_inv t"
proof -
  let ?k = "\<lambda>P m. map fst (filter P m)"
  have "distinct (?k kp (publishers s) @ ?k ks (subscribers s) @ ?k kq (queryables s)
      @ ?k kr (queriers s))"
    by (rule distinct_parts [where a = "map fst (publishers s)" and b = "map fst (subscribers s)"
          and c = "map fst (queryables s)" and d = "map fst (queriers s)"])
      (use assms(1) in \<open>simp_all only: state_inv_def all_handles_def distinct_append
         distinct_map_filter filter_keys_subset set_map simp_thms\<close>)
  then have "distinct (all_handles t)" by (simp only: all_handles_def assms(2-5))
  moreover have "set (all_handles t) \<subseteq> set (all_handles s)"
    unfolding all_handles_def assms(2-5) set_append set_map
    by (intro Un_mono filter_keys_subset)
  moreover have "hm_keys (inflight_queries t) \<subseteq> hm_keys (inflight_queries s)"
    unfolding hm_keys_def assms(6) by (rule filter_keys_subset)
  moreover have "hm_ok (inflight_queries t)" "hm_ok (live_clients t)"
    using assms(1) unfolding assms(6,7) by (simp_all add: state_inv_def hm_ok_def distinct_map_filter)
  ultimately show ?thesis
    using assms(1) unfolding state_inv_def assms(8,9) by blast
qed

lemma state_inv_remove_publishers:
  assumes "state_inv s"
  shows "state_inv (s\<lparr>publishers := hm_remove h (publishers s)\<rparr>)"
  by (rule state_inv_shrink [OF assms, where kp = "\<lambda>kv. fst kv \<noteq> h" and ks = "\<lambda>_. True" and kq = "\<lambda>_. True" and kr = "\<lambda>_. True" and ki = "\<lambda>_. True" and kl = "\<lambda>_. True"])
    (simp_all add: hm_remove_def)

lemma state_inv_remove_subscribers:
  assumes "state_inv s"
  shows "state_inv (s\<lparr>subscribers := hm_remove h (subscribers s)\<rparr>)"
  by (rule state_inv_shrink [OF assms, where kp = "\<lambda>_. True" and ks = "\<lambda>kv. fst kv \<noteq> h" and kq = "\<lambda>_. True" and kr = "\<lambda>_. True" and ki = "\<lambda>_. True" and kl = "\<lambda>_. True"])
    (simp_all add: hm_remove_def)

lemma state_inv_remove_queryables:
  assumes "state_inv s"
  shows "state_inv (s\<lparr>queryables := hm_remove h (queryables s)\<rparr>)"
  by (rule state_inv_shrink [OF assms, where kp = "\<lambda>_. True" and ks = "\<lambda>_. True" and kq = "\<lambda>kv. fst kv \<noteq> h" and kr = "\<lambda>_. True" and ki = "\<lambda>_. True" and kl = "\<lambda>_. True"])
    (simp_all add: hm_remove_def)

lemma state_inv_remove_queriers:
  assumes "state_inv s"
  shows "state_inv (s\<lparr>queriers := hm_remove h (queriers s)\<rparr>)"
  by (rule state_inv_shrink [OF assms, where kp = "\<lambda>_. True" and ks = "\<lambda>_. True" and kq = "\<lambda>_. True" and kr = "\<lambda>kv. fst kv \<noteq> h" and ki = "\<lambda>_. True" and kl = "\<lambda>_. True"])
    (simp_all add: hm_remove_def)

lemma state_inv_remove_inflight:
  assumes "state_inv s"
  shows "state_inv (s\<lparr>inflight_queries := hm_remove h (inflight_queries s)\<rparr>)"
  by (rule state_inv_shrink [OF assms, where kp = "\<lambda>_. True" and ks = "\<lambda>_. True" and kq = "\<lambda>_. True" and kr = "\<lambda>_. True" and ki = "\<lambda>kv. fst kv \<noteq> h" and kl = "\<lambda>_. True"])
    (simp_all add: hm_remove_def)

lemmas state_inv_remove =
  state_inv_remove_publishers state_inv_remove_subscribers state_inv_remove_queryables
  state_inv_remove_queriers state_inv_remove_inflight

lemma state_inv_retain_inflight [simp]: "state_inv s \<Longrightarrow> state_inv (retain_inflight E P s)"
  using hm_keys_retain [of P "inflight_queries s"]
  by (auto simp: state_inv_def all_handles_def retain_inflight_def)

lemma state_inv_cleanup [simp]:
  assumes "state_inv s"
  shows "state_inv (cleanup_client E c s)"
  by (rule state_inv_shrink [OF assms])
    (simp_all only: cleanup_client_retains [OF assms] cleanup_client_tables(1,6-8) hm_retain_def
      hm_remove_def)

lemma state_inv_alloc:
  assumes "state_inv s" and "next_handle s \<noteq> -1"
  shows "state_inv (s\<lparr>next_handle := next_handle s + 1\<rparr>)"
    and "next_handle s \<notin> set (all_handles s)"
  using assms u64_less_Suc [OF _ assms(2)] by (auto simp: state_inv_def all_handles_def)

text \<open>A fresh handle below the counter may be inserted into any table.\<close>

definition insertable :: "u64 \<Rightarrow> 'w PluginState \<Rightarrow> bool" where
  "insertable h s \<longleftrightarrow> state_inv s \<and> h \<notin> set (all_handles s) \<and> h < next_handle s"

lemma insertable_alloc:
  assumes "state_inv s" and "next_handle s \<noteq> -1"
  shows "insertable (next_handle s) (s\<lparr>next_handle := next_handle s + 1, session := w\<rparr>)"
  using state_inv_alloc [OF assms] u64_self_less_Suc [OF assms(2)]
  by (auto simp: insertable_def state_inv_def all_handles_def)

lemma state_inv_insert:
  assumes "insertable h s"
  shows "state_inv (insert_publisher E h p s)" "state_inv (insert_subscriber E h sb s)"
    "state_inv (insert_queryable E h qb s)" "state_inv (insert_querier E h qr s)"
  using assms
  by (auto simp: insertable_def state_inv_def all_handles_def keys_insert_new insert_publisher_def
      insert_subscriber_def insert_queryable_def insert_querier_def)

lemma state_inv_dispatch_store:
  assumes "state_inv s" and "next_query_id s \<noteq> -1"
  shows "state_inv (snd (dispatch_store E h ow q s))"
  using assms u64_less_Suc [OF _ assms(2)] u64_self_less_Suc [OF assms(2)]
  by (auto simp: state_inv_def all_handles_def dispatch_store_def alloc_query_id_def)

lemma state_inv_dispatch_send [simp]: "state_inv s \<Longrightarrow> state_inv (dispatch_send E tx i s)"
  by (simp add: dispatch_send_def split: option.splits)

section \<open>The invariant under every event\<close>

lemmas handlers =
  session_info_def session_put_def session_delete_def session_get_def session_touch_client_def
  session_cleanup_client_def declare_publisher_def publisher_put_def publisher_delete_def
  publisher_undeclare_def declare_subscriber_def subscriber_events_def subscriber_undeclare_def
  declare_queryable_def queryable_events_def queryable_reply_def queryable_reply_err_def
  queryable_reply_delete_def queryable_finish_def queryable_undeclare_def declare_querier_def
  querier_get_def querier_undeclare_def

lemma touch_client_fields [simp]:
  "session (touch_client now c s) = session s"
  "next_handle (touch_client now c s) = next_handle s"
  "next_query_id (touch_client now c s) = next_query_id s"
  "live_clients (touch_client now c s) = hm_insert c now (live_clients s)"
  "publishers (touch_client now c s) = publishers s"
  "subscribers (touch_client now c s) = subscribers s"
  "queryables (touch_client now c s) = queryables s"
  "queriers (touch_client now c s) = queriers s"
  "inflight_queries (touch_client now c s) = inflight_queries s"
  "config (touch_client now c s) = config s"
  by (simp_all add: touch_client_def)

lemma awaited_simps [simp]:
  "awaited (Inl e, w) s = (Inl (internal_status e), s\<lparr>session := w\<rparr>)"
  "awaited (Inr v, w) s = (Inr v, s\<lparr>session := w\<rparr>)"
  "snd (awaited rw s) = s\<lparr>session := snd rw\<rparr>"
  by (simp_all add: awaited_def)

lemma snd_respond [simp]: "snd (respond f rs) = snd rs"
  by (simp add: respond_def)

lemma state_inv_declare:
  fixes s :: "'w PluginState"
  assumes "state_inv s" and "next_handle s \<noteq> -1"
  shows "state_inv (snd (declare_publisher E now dp s))"
    "state_inv (snd (declare_subscriber E now ds s))"
    "state_inv (snd (declare_queryable E now dq s))"
    "state_inv (snd (declare_querier E now dr s))"
proof -
  have ok: "insertable (next_handle s)
      ((touch_client now c s)\<lparr>next_handle := next_handle s + 1, session := w\<rparr>)" for c and w :: 'w
    using insertable_alloc [of "touch_client now c s" w] assms by simp
  then have inv: "state_inv ((touch_client now c s)\<lparr>next_handle := next_handle s + 1\<rparr>)" for c
    using ok [where c = c and w = "session s"] by (simp add: insertable_def state_inv_def all_handles_def)
  note defs = declare_publisher_def declare_subscriber_def declare_queryable_def declare_querier_def
    alloc_handle_def Let_def case_prod_beta
  show "state_inv (snd (declare_publisher E now dp s))"
    by (simp add: defs awaited_def inv ok state_inv_insert split: sum.split)
  show "state_inv (snd (declare_subscriber E now ds s))"
    by (simp add: defs awaited_def inv ok state_inv_insert split: sum.split)
  show "state_inv (snd (declare_queryable E now dq s))"
    by (simp add: defs awaited_def inv ok state_inv_insert split: sum.split)
  show "state_inv (snd (declare_querier E now dr s))"
    by (simp add: defs awaited_def inv ok state_inv_insert split: sum.split)
qed

lemma state_inv_request:
  assumes "state_inv s" and "next_handle s \<noteq> -1"
  shows "state_inv (snd (handle_request E now r s))"
proof (cases "\<exists>q. r \<in> {DeclarePublisher (fst q), DeclareSubscriber (fst (snd q)),
    DeclareQueryable (fst (snd (snd q))), DeclareQuerier (snd (snd (snd q)))}")
  case True
  then show ?thesis using state_inv_declare [OF assms] by auto
next
  case False
  have t: "state_inv (touch_client now c s)" for c using assms(1) by simp
  note rm = state_inv_remove [OF t, simplified]
  from False assms(1) show ?thesis
    by (cases r) (auto simp: handlers Let_def case_prod_beta rm split: option.split sum.split)
qed

lemma state_inv_cleanup_all: "state_inv s \<Longrightarrow> state_inv (fold (cleanup_client E) cs s)"
  by (induction cs arbitrary: s) auto

lemma state_inv_step:
  assumes "state_inv s" and "next_handle s \<noteq> -1" and "next_query_id s \<noteq> -1"
  shows "state_inv (server_step E ev s)"
proof (cases ev)
  case (Rpc now r)
  with state_inv_request [OF assms(1,2)] show ?thesis by simp
next
  case (Tick now)
  with assms show ?thesis by (simp add: cleanup_tick_def state_inv_cleanup_all)
next
  case (QueryArrived h ow tx q)
  with state_inv_dispatch_store [OF assms(1,3), of E h ow q] show ?thesis
    by (simp add: queryable_dispatch_def case_prod_beta)
next
  case (SampleArrived tx z)
  with assms show ?thesis by (simp add: subscriber_forward_def)
qed

section \<open>The counters\<close>

fun declares :: "server_event \<Rightarrow> bool" where
  "declares (Rpc _ (DeclarePublisher _)) = True"
| "declares (Rpc _ (DeclareSubscriber _)) = True"
| "declares (Rpc _ (DeclareQueryable _)) = True"
| "declares (Rpc _ (DeclareQuerier _)) = True"
| "declares _ = False"

fun queries :: "server_event \<Rightarrow> bool" where
  "queries (QueryArrived _ _ _ _) = True"
| "queries _ = False"

lemma insert_counters [simp]:
  "next_handle (insert_publisher E h p s) = next_handle s"
  "next_handle (insert_subscriber E h sb s) = next_handle s"
  "next_handle (insert_queryable E h qb s) = next_handle s"
  "next_handle (insert_querier E h qr s) = next_handle s"
  "next_query_id (insert_publisher E h p s) = next_query_id s"
  "next_query_id (insert_subscriber E h sb s) = next_query_id s"
  "next_query_id (insert_queryable E h qb s) = next_query_id s"
  "next_query_id (insert_querier E h qr s) = next_query_id s"
  by (simp_all add: insert_publisher_def insert_subscriber_def insert_queryable_def insert_querier_def)

lemma retain_inflight_fields [simp]:
  "next_handle (retain_inflight E P s) = next_handle s"
  "next_query_id (retain_inflight E P s) = next_query_id s"
  "live_clients (retain_inflight E P s) = live_clients s"
  "publishers (retain_inflight E P s) = publishers s"
  "subscribers (retain_inflight E P s) = subscribers s"
  "queryables (retain_inflight E P s) = queryables s"
  "queriers (retain_inflight E P s) = queriers s"
  "inflight_queries (retain_inflight E P s) = hm_retain P (inflight_queries s)"
  "config (retain_inflight E P s) = config s"
  by (simp_all add: retain_inflight_def)

lemma cleanup_all_counters [simp]:
  "next_handle (fold (cleanup_client E) cs s) = next_handle s"
  "next_query_id (fold (cleanup_client E) cs s) = next_query_id s"
  by (induction cs arbitrary: s) (simp_all add: cleanup_client_tables)

lemma dispatch_counters [simp]:
  "next_handle (queryable_dispatch E h ow tx q s) = next_handle s"
  "next_query_id (queryable_dispatch E h ow tx q s) = next_query_id s + 1"
  by (simp_all add: queryable_dispatch_def dispatch_store_def dispatch_send_def alloc_query_id_def
      case_prod_beta split: option.split)

lemma step_next_handle:
  "next_handle (server_step E ev s) = (if declares ev then next_handle s + 1 else next_handle s)"
proof (cases ev)
  case (Rpc now r)
  then show ?thesis
    by (cases r)
      (auto simp: handlers Let_def case_prod_beta alloc_handle_def awaited_def cleanup_client_tables
        split: option.split sum.split)
qed (simp_all add: cleanup_tick_def subscriber_forward_def)

lemma step_next_query_id:
  "next_query_id (server_step E ev s) = (if queries ev then next_query_id s + 1 else next_query_id s)"
proof (cases ev)
  case (Rpc now r)
  then show ?thesis
    by (cases r)
      (auto simp: handlers Let_def case_prod_beta alloc_handle_def awaited_def cleanup_client_tables
        split: option.split sum.split)
qed (simp_all add: cleanup_tick_def subscriber_forward_def)

end
