(* ===== verification/Server_Runs.thy ===== *)
theory Server_Runs
  imports Server_Invariants
begin

text \<open>
  Whole executions of the plugin: any sequence of requests, cleanup ticks, queries and samples from
  the initial state. The well-formedness of the tables and the uniqueness of handles hold for every
  execution of fewer than \<open>2 ^ 64 - 1\<close> events, whatever Zenoh answers; between events, every declared
  object has a live owner, so nothing outlives the lease of its client.
\<close>

fun server_run :: "'w env \<Rightarrow> server_event list \<Rightarrow> 'w PluginState \<Rightarrow> 'w PluginState" where
  "server_run E [] s = s"
| "server_run E (ev # evs) s = server_run E evs (server_step E ev s)"

text \<open>The handles that the successful declarations of an execution returned, in order.\<close>

definition issued :: "'w env \<Rightarrow> server_event \<Rightarrow> 'w PluginState \<Rightarrow> u64 list" where
  "issued E ev s =
     (case ev of
        Rpc now r \<Rightarrow> (case fst (handle_request E now r s) of Inr (R_Handle h) \<Rightarrow> [h] | _ \<Rightarrow> [])
      | _ \<Rightarrow> [])"

fun issued_handles :: "'w env \<Rightarrow> server_event list \<Rightarrow> 'w PluginState \<Rightarrow> u64 list" where
  "issued_handles E [] s = []"
| "issued_handles E (ev # evs) s = issued E ev s @ issued_handles E evs (server_step E ev s)"

section \<open>Induction over executions\<close>

lemma step_counters_bound:
  assumes "unat (next_handle s) + Suc k < 2 ^ 64 - 1" and "unat (next_query_id s) + Suc k < 2 ^ 64 - 1"
  shows "unat (next_handle (server_step E ev s)) + k < 2 ^ 64 - 1"
    and "unat (next_query_id (server_step E ev s)) + k < 2 ^ 64 - 1"
  using assms not_exhausted [OF assms(1)] not_exhausted [OF assms(2)]
  by (auto simp: step_next_handle step_next_query_id unat_Suc_u64)

lemma server_run_induct [consumes 3, case_names Nil Cons]:
  assumes "state_inv s"
    and "unat (next_handle s) + length evs < 2 ^ 64 - 1"
    and "unat (next_query_id s) + length evs < 2 ^ 64 - 1"
    and nil: "\<And>s. state_inv s \<Longrightarrow> P [] s"
    and cons: "\<And>ev evs s. state_inv s \<Longrightarrow> next_handle s \<noteq> -1 \<Longrightarrow> next_query_id s \<noteq> -1 \<Longrightarrow>
      state_inv (server_step E ev s) \<Longrightarrow> P evs (server_step E ev s) \<Longrightarrow> P (ev # evs) s"
  shows "P evs s"
  using assms(1-3)
proof (induction evs arbitrary: s)
  case Nil
  then show ?case by (simp add: nil)
next
  case (Cons ev evs)
  have h: "next_handle s \<noteq> -1" and q: "next_query_id s \<noteq> -1"
    using not_exhausted [OF Cons.prems(2)] not_exhausted [OF Cons.prems(3)] by blast+
  have inv: "state_inv (server_step E ev s)"
    by (rule state_inv_step [OF Cons.prems(1) h q])
  show ?case
    using Cons.prems(2,3)
    by (intro cons [OF Cons.prems(1) h q inv] Cons.IH [OF inv] step_counters_bound) simp_all
qed

lemma initial_state:
  "state_inv (PluginState_new w c)" "owners_live (PluginState_new w c)"
  "unat (next_handle (PluginState_new w c)) = 1" "unat (next_query_id (PluginState_new w c)) = 1"
  by (simp_all add: PluginState_new_def state_inv_def all_handles_def owners_live_def owners_def)

lemma run_state_inv:
  assumes "state_inv s" and "unat (next_handle s) + length evs < 2 ^ 64 - 1"
    and "unat (next_query_id s) + length evs < 2 ^ 64 - 1"
  shows "state_inv (server_run E evs s)"
  using assms by (induction rule: server_run_induct [where E = E]) simp_all

text \<open>
  The tables stay well formed in every execution. From the initial state, after any sequence of
  fewer than \<open>2 ^ 64 - 2\<close> requests, ticks, queries and samples and for any behaviour of Zenoh, no handle
  is in two tables or twice in one, all handles and query ids are below their counters, and the maps
  have no duplicate keys.
\<close>

theorem server_run_state_inv:
  assumes "length evs < 2 ^ 64 - 2"
  shows "state_inv (server_run E evs (PluginState_new w c))"
  by (rule run_state_inv [OF initial_state(1)]) (use assms in \<open>simp_all add: initial_state\<close>)

section \<open>Unique handles\<close>

lemma issued_next:
  "issued E ev s = [] \<or> (declares ev \<and> issued E ev s = [next_handle s])"
proof (cases ev)
  case (Rpc now r)
  then show ?thesis
    by (cases r)
      (auto simp: issued_def handlers respond_def Let_def case_prod_beta alloc_handle_def awaited_def
        split: option.split sum.split)
qed (simp_all add: issued_def)

lemma issued_handles_increasing:
  assumes "state_inv s" and "unat (next_handle s) + length evs < 2 ^ 64 - 1"
    and "unat (next_query_id s) + length evs < 2 ^ 64 - 1"
  shows "sorted_wrt (<) (issued_handles E evs s)
    \<and> (\<forall>h \<in> set (issued_handles E evs s). next_handle s \<le> h)"
  using assms
proof (induction rule: server_run_induct [where E = E])
  case (Nil s)
  then show ?case by simp
next
  case (Cons ev evs s)
  from Cons.hyps(2) have less: "next_handle s < next_handle s + 1" by (rule u64_self_less_Suc)
  have above: "next_handle s < h" if "declares ev" "h \<in> set (issued_handles E evs (server_step E ev s))" for h
    using that Cons.IH less by (auto simp: step_next_handle dest!: bspec intro: less_le_trans)
  from issued_next [of E ev s] show ?case
  proof
    assume "issued E ev s = []"
    with Cons.IH above show ?thesis
      by (cases "declares ev") (auto simp: step_next_handle less_imp_le)
  next
    assume "declares ev \<and> issued E ev s = [next_handle s]"
    with Cons.IH above show ?thesis by (auto simp: less_imp_le)
  qed
qed

text \<open>
  C12: no two declarations of an execution ever return the same handle: the handles returned to all
  clients, over all four services, are strictly increasing and none is zero (again below \<open>2 ^ 64 - 2\<close>
  events).
\<close>

theorem issued_handles_unique:
  assumes "length evs < 2 ^ 64 - 2"
  shows "sorted_wrt (<) (issued_handles E evs (PluginState_new w c))
    \<and> distinct (issued_handles E evs (PluginState_new w c))
    \<and> 0 \<notin> set (issued_handles E evs (PluginState_new w c))"
proof -
  let ?s = "PluginState_new w c"
  have inc: "sorted_wrt (<) (issued_handles E evs ?s)
      \<and> (\<forall>h \<in> set (issued_handles E evs ?s). next_handle ?s \<le> h)"
    using assms by (intro issued_handles_increasing) (simp_all add: initial_state)
  then have "distinct (issued_handles E evs ?s)"
    by (simp add: strict_sorted_iff)
  with inc show ?thesis by (auto simp: PluginState_new_def)
qed

section \<open>Owners and leases\<close>

lemma owners_session [simp]: "owners (s\<lparr>session := w\<rparr>) = owners s"
  by (simp add: owners_def)

lemma owners_touch [simp]: "owners (touch_client now c s) = owners s"
  by (simp add: owners_def)

lemma owners_next_handle [simp]: "owners (s\<lparr>next_handle := h\<rparr>) = owners s"
  by (simp add: owners_def)

lemma owners_inflight [simp]: "owners (s\<lparr>inflight_queries := m\<rparr>) = owners s"
  by (simp add: owners_def)

lemma owners_retain_inflight [simp]: "owners (retain_inflight E P s) = owners s"
  by (simp add: owners_def)

lemma owners_remove:
  "owners (s\<lparr>publishers := hm_remove h (publishers s)\<rparr>) \<subseteq> owners s"
  "owners (s\<lparr>subscribers := hm_remove h (subscribers s)\<rparr>) \<subseteq> owners s"
  "owners (s\<lparr>queryables := hm_remove h (queryables s)\<rparr>) \<subseteq> owners s"
  "owners (s\<lparr>queriers := hm_remove h (queriers s)\<rparr>) \<subseteq> owners s"
  by (auto simp: owners_def set_hm_remove)

lemma owners_touch_remove:
  "c' \<in> owners ((touch_client now c s)\<lparr>publishers := hm_remove h (publishers s)\<rparr>) \<Longrightarrow> c' \<in> owners s"
  "c' \<in> owners ((touch_client now c s)\<lparr>subscribers := hm_remove h (subscribers s)\<rparr>) \<Longrightarrow> c' \<in> owners s"
  "c' \<in> owners ((touch_client now c s)\<lparr>queryables := hm_remove h (queryables s)\<rparr>) \<Longrightarrow> c' \<in> owners s"
  "c' \<in> owners ((touch_client now c s)\<lparr>queriers := hm_remove h (queriers s)\<rparr>) \<Longrightarrow> c' \<in> owners s"
  using owners_remove [where s = "touch_client now c s" and h = h] by auto

lemma owners_insert:
  "owners (insert_publisher E h p s) \<subseteq> insert (pub_owner p) (owners s)"
  "owners (insert_subscriber E h sb s) \<subseteq> insert (sub_owner sb) (owners s)"
  "owners (insert_queryable E h qb s) \<subseteq> insert (qbl_owner qb) (owners s)"
  "owners (insert_querier E h qr s) \<subseteq> insert (qr_owner qr) (owners s)"
  by (auto simp: owners_def insert_publisher_def insert_subscriber_def insert_queryable_def
      insert_querier_def set_hm_insert)

text \<open>A request only ever creates objects owned by the client it names, and renews its lease.\<close>

lemma request_owners:
  assumes "\<And>c. r \<noteq> CleanupClient c"
  shows "owners (snd (handle_request E now r s)) \<subseteq> insert (requester r) (owners s)"
  using assms
  by (cases r)
    (auto simp: handlers Let_def case_prod_beta alloc_handle_def awaited_def
      split: option.split sum.split dest!: owners_insert [THEN subsetD] owners_touch_remove)

lemma insert_live [simp]:
  "live_clients (insert_publisher E h p s) = live_clients s"
  "live_clients (insert_subscriber E h sb s) = live_clients s"
  "live_clients (insert_queryable E h qb s) = live_clients s"
  "live_clients (insert_querier E h qr s) = live_clients s"
  by (simp_all add: insert_publisher_def insert_subscriber_def insert_queryable_def insert_querier_def)

lemma request_live:
  assumes "\<And>c. r \<noteq> CleanupClient c"
  shows "live_clients (snd (handle_request E now r s)) = hm_insert (requester r) now (live_clients s)"
  using assms
  by (cases r)
    (auto simp: handlers Let_def case_prod_beta alloc_handle_def awaited_def
      split: option.split sum.split)

lemma image_retain_owner: "(f \<circ> snd) ` set (hm_retain (\<lambda>v. f v \<noteq> c) m) = (f \<circ> snd) ` set m - {c}"
  by (auto simp: hm_retain_def)

lemma owners_cleanup:
  assumes "state_inv s"
  shows "owners (cleanup_client E c s) = owners s - {c}"
  by (simp only: owners_def cleanup_client_retains [OF assms] image_retain_owner Un_Diff)

lemma owners_live_cleanup:
  "state_inv s \<Longrightarrow> owners_live s \<Longrightarrow> owners_live (cleanup_client E c s)"
  by (auto simp: owners_live_def owners_cleanup cleanup_client_tables(1))

lemma owners_live_cleanup_all:
  "state_inv s \<Longrightarrow> owners_live s \<Longrightarrow> owners_live (fold (cleanup_client E) cs s)"
  by (induction cs arbitrary: s) (auto simp: owners_live_cleanup)

lemma owners_live_step:
  assumes "state_inv s" and "owners_live s"
  shows "owners_live (server_step E ev s)"
proof (cases ev)
  case (Rpc now r)
  show ?thesis
  proof (cases "\<exists>c. r = CleanupClient c")
    case True
    with Rpc assms show ?thesis by (auto simp: session_cleanup_client_def owners_live_cleanup)
  next
    case False
    with request_owners [of r E now s] request_live [of r E now s] Rpc assms show ?thesis
      by (auto simp: owners_live_def)
  qed
next
  case (Tick now)
  with assms show ?thesis by (simp add: cleanup_tick_def owners_live_cleanup_all)
next
  case (QueryArrived h ow tx q)
  with assms show ?thesis
    by (simp add: queryable_dispatch_def dispatch_store_def dispatch_send_def alloc_query_id_def
        owners_live_def owners_def case_prod_beta split: option.split)
next
  case (SampleArrived tx z)
  with assms show ?thesis by (simp add: subscriber_forward_def owners_live_def)
qed

lemma run_owners_live:
  assumes "state_inv s" and "unat (next_handle s) + length evs < 2 ^ 64 - 1"
    and "unat (next_query_id s) + length evs < 2 ^ 64 - 1" and "owners_live s"
  shows "owners_live (server_run E evs s)"
proof -
  from assms(1-3) have "owners_live s \<longrightarrow> owners_live (server_run E evs s)"
    by (induction rule: server_run_induct [where E = E]) (simp_all add: owners_live_step)
  with assms(4) show ?thesis by simp
qed

lemma reached:
  assumes "length evs < 2 ^ 64 - 2" and "s = server_run E evs (PluginState_new w c)"
  shows "state_inv s" "owners_live s"
  unfolding assms(2) using assms(1)
  by (auto intro!: run_state_inv run_owners_live simp: initial_state)

text \<open>
  Between events, every declared publisher, subscriber, queryable and querier belongs to a client
  that is in the lease table, in every execution of fewer than \<open>2 ^ 64 - 2\<close> events; so each of them
  is within reach of the cleanup task.
\<close>

theorem server_run_owners_live:
  assumes "length evs < 2 ^ 64 - 2"
  shows "owners_live (server_run E evs (PluginState_new w c))"
  using reached(2) [OF assms refl] .

section \<open>The cleanup task\<close>

lemma hm_retain_retain: "hm_retain P (hm_retain Q m) = hm_retain (\<lambda>v. Q v \<and> P v) m"
  by (simp add: hm_retain_def)

lemma cleanup_all_retains:
  assumes "state_inv s"
  shows "publishers (fold (cleanup_client E) cs s) = hm_retain (\<lambda>e. pub_owner e \<notin> set cs) (publishers s)"
    "subscribers (fold (cleanup_client E) cs s) = hm_retain (\<lambda>e. sub_owner e \<notin> set cs) (subscribers s)"
    "queryables (fold (cleanup_client E) cs s) = hm_retain (\<lambda>e. qbl_owner e \<notin> set cs) (queryables s)"
    "queriers (fold (cleanup_client E) cs s) = hm_retain (\<lambda>e. qr_owner e \<notin> set cs) (queriers s)"
    "inflight_queries (fold (cleanup_client E) cs s) =
       hm_retain (\<lambda>q. ifq_owner q \<notin> set cs) (inflight_queries s)"
    "live_clients (fold (cleanup_client E) cs s) = fold hm_remove cs (live_clients s)"
proof (use assms in \<open>induction cs arbitrary: s\<close>)
  case Nil
  { case 1 show ?case by (simp add: hm_retain_def)
  next case 2 show ?case by (simp add: hm_retain_def)
  next case 3 show ?case by (simp add: hm_retain_def)
  next case 4 show ?case by (simp add: hm_retain_def)
  next case 5 show ?case by (simp add: hm_retain_def)
  next case 6 show ?case by simp }
next
  case (Cons c cs)
  { case 1 then show ?case
      by (simp add: Cons.IH cleanup_client_retains hm_retain_retain conj_commute)
  next case 2 then show ?case
      by (simp add: Cons.IH cleanup_client_retains hm_retain_retain conj_commute)
  next case 3 then show ?case
      by (simp add: Cons.IH cleanup_client_retains hm_retain_retain conj_commute)
  next case 4 then show ?case
      by (simp add: Cons.IH cleanup_client_retains hm_retain_retain conj_commute)
  next case 5 then show ?case
      by (simp add: Cons.IH cleanup_client_tables hm_retain_retain conj_commute)
  next case 6 then show ?case
      by (simp add: Cons.IH cleanup_client_tables) }
qed

definition stale :: "instant \<Rightarrow> 'w PluginState \<Rightarrow> string \<Rightarrow> bool" where
  "stale now s c \<longleftrightarrow>
     (\<exists>last_seen. hm_get (live_clients s) c = Some last_seen
        \<and> client_lease_duration (config s) \<le> now - last_seen)"

lemma collect_stale:
  "hm_ok (live_clients s) \<Longrightarrow> c \<in> set (collect_stale_clients now s) \<longleftrightarrow> stale now s c"
  by (simp add: collect_stale_clients_def hm_keys_where_get stale_def)

lemma retained_lookup:
  "hm_ok m \<Longrightarrow> hm_get (hm_retain P m) h = Some e \<longleftrightarrow> hm_get m h = Some e \<and> P e"
  by (auto simp: hm_get_retain split: option.splits)

lemma tick_tables:
  assumes "state_inv s"
  shows "hm_get (publishers (cleanup_tick E now s)) h = Some p \<longleftrightarrow>
      hm_get (publishers s) h = Some p \<and> \<not> stale now s (pub_owner p)"
    "hm_get (subscribers (cleanup_tick E now s)) h = Some sb \<longleftrightarrow>
      hm_get (subscribers s) h = Some sb \<and> \<not> stale now s (sub_owner sb)"
    "hm_get (queryables (cleanup_tick E now s)) h = Some qb \<longleftrightarrow>
      hm_get (queryables s) h = Some qb \<and> \<not> stale now s (qbl_owner qb)"
    "hm_get (queriers (cleanup_tick E now s)) h = Some qr \<longleftrightarrow>
      hm_get (queriers s) h = Some qr \<and> \<not> stale now s (qr_owner qr)"
    "hm_get (inflight_queries (cleanup_tick E now s)) h = Some q \<longleftrightarrow>
      hm_get (inflight_queries s) h = Some q \<and> \<not> stale now s (ifq_owner q)"
  using state_inv_tables [OF assms]
  by (simp_all add: cleanup_tick_def cleanup_all_retains [OF assms] retained_lookup collect_stale)

lemma tick_live:
  assumes "state_inv s"
  shows "hm_get (live_clients (cleanup_tick E now s)) c =
    (if stale now s c then None else hm_get (live_clients s) c)"
  using state_inv_tables [OF assms]
  by (simp add: cleanup_tick_def cleanup_all_retains [OF assms] hm.get_remove_all collect_stale)

text \<open>
  C13: one tick of the cleanup task removes exactly the state of the stale clients. In the state
  reached by any execution, after a tick an object or in-flight query is in its table if and only if it
  was there before and its owner's lease (time since last seen at least \<open>client_lease_duration\<close>) has
  not expired; a stale client is forgotten and owns nothing.
\<close>

theorem cleanup_tick_spec:
  assumes "length evs < 2 ^ 64 - 2" and "s = server_run E evs (PluginState_new w c)"
    and "s' = cleanup_tick E now s"
  shows "(\<forall>h p. hm_get (publishers s') h = Some p \<longleftrightarrow>
            hm_get (publishers s) h = Some p \<and> \<not> stale now s (pub_owner p))
    \<and> (\<forall>h p. hm_get (subscribers s') h = Some p \<longleftrightarrow>
            hm_get (subscribers s) h = Some p \<and> \<not> stale now s (sub_owner p))
    \<and> (\<forall>h p. hm_get (queryables s') h = Some p \<longleftrightarrow>
            hm_get (queryables s) h = Some p \<and> \<not> stale now s (qbl_owner p))
    \<and> (\<forall>h p. hm_get (queriers s') h = Some p \<longleftrightarrow>
            hm_get (queriers s) h = Some p \<and> \<not> stale now s (qr_owner p))
    \<and> (\<forall>h p. hm_get (inflight_queries s') h = Some p \<longleftrightarrow>
            hm_get (inflight_queries s) h = Some p \<and> \<not> stale now s (ifq_owner p))
    \<and> (\<forall>k. stale now s k \<longrightarrow> hm_get (live_clients s') k = None \<and> k \<notin> owners s')"
proof -
  note run = reached [OF assms(1,2)]
  have "hm_get (live_clients s') k = None \<and> k \<notin> owners s'" if "stale now s k" for k
  proof
    from that show gone: "hm_get (live_clients s') k = None"
      by (simp add: assms(3) tick_live [OF run(1)])
    have "owners_live s'"
      unfolding assms(3) cleanup_tick_def by (rule owners_live_cleanup_all [OF run])
    with gone show "k \<notin> owners s'" by (auto simp: owners_live_def hm_keys_get)
  qed
  then show ?thesis
    unfolding assms(3) using tick_tables [OF run(1), of E now] by blast
qed

section \<open>Example executions\<close>

definition declare_request :: "string \<Rightarrow> string \<Rightarrow> DeclarePublisherRequest" where
  "declare_request client key =
     \<lparr>dpub_client_id = client, dpub_key_expr = key, dpub_encoding = [], dpub_congestion_control = 0,
      dpub_priority = 0, dpub_express = False, dpub_reliability = 0, dpub_allowed_destination = 0\<rparr>"

definition two_clients :: "server_event list" where
  "two_clients =
     [Rpc 0 (DeclarePublisher (declare_request ''a'' ''k/a'')),
      Rpc 3000 (DeclarePublisher (declare_request ''b'' ''k/b''))]"

definition initial :: "z_call list PluginState" where
  "initial = PluginState_new [] Config_default"

lemma initial_eq: "server_run E evs initial = server_run E evs (PluginState_new [] Config_default)"
  by (simp add: initial_def)

lemma two_clients_length: "length two_clients = 2"
  by (simp add: two_clients_def)

lemma two_clients_publishers:
  "publishers (server_run log_env two_clients initial) =
     [(2, \<lparr>pub_owner = ''b'', pub_publisher = 1\<rparr>), (1, \<lparr>pub_owner = ''a'', pub_publisher = 0\<rparr>)]"
  "live_clients (server_run log_env two_clients initial) = [(''b'', 3000), (''a'', 0)]"
  "client_lease_duration (config (server_run log_env two_clients initial)) = 4000"
  "subscribers (server_run log_env two_clients initial) = []"
  "queryables (server_run log_env two_clients initial) = []"
  "queriers (server_run log_env two_clients initial) = []"
  "inflight_queries (server_run log_env two_clients initial) = []"
  by (simp_all add: two_clients_def initial_def PluginState_new_def declare_publisher_def alloc_handle_def
      declare_request_def log_env_def log_ref_def insert_publisher_def replaced_def hm_insert_def
      hm_remove_def touch_client_def Config_default_def DEFAULT_CLIENT_LEASE_DURATION_MS_def hm_get_def)

theorem server_run_state_inv_witness:
  "length two_clients < 2 ^ 64 - 2 \<and> state_inv (server_run log_env two_clients (PluginState_new [] Config_default))"
  using server_run_state_inv [of two_clients log_env "[]" Config_default] by (simp add: two_clients_def)

theorem issued_handles_unique_witness:
  "length two_clients < 2 ^ 64 - 2
   \<and> distinct (issued_handles log_env two_clients (PluginState_new [] Config_default))"
  using issued_handles_unique [of two_clients log_env "[]" Config_default] by (simp add: two_clients_def)

theorem server_run_owners_live_witness:
  "length two_clients < 2 ^ 64 - 2 \<and> owners_live (server_run log_env two_clients (PluginState_new [] Config_default))"
  using server_run_owners_live [of two_clients log_env "[]" Config_default] by (simp add: two_clients_def)

text \<open>At 5 s the lease of the first client (4 s) has expired and that of the second has not.\<close>

theorem cleanup_tick_spec_witness:
  "stale 5000 (server_run log_env two_clients initial) ''a''
   \<and> \<not> stale 5000 (server_run log_env two_clients initial) ''b''
   \<and> hm_get (publishers (cleanup_tick log_env 5000 (server_run log_env two_clients initial))) 2
       = Some \<lparr>pub_owner = ''b'', pub_publisher = 1\<rparr>
   \<and> ''a'' \<notin> owners (cleanup_tick log_env 5000 (server_run log_env two_clients initial))"
proof -
  let ?s = "server_run log_env two_clients initial"
  have "stale 5000 ?s ''a''" "\<not> stale 5000 ?s ''b''"
    "hm_get (publishers ?s) 2 = Some \<lparr>pub_owner = ''b'', pub_publisher = 1\<rparr>"
    by (simp_all add: stale_def two_clients_publishers hm_get_def)
  then show ?thesis
    using cleanup_tick_spec [of two_clients ?s log_env "[]" Config_default
        "cleanup_tick log_env 5000 ?s" 5000]
    by (simp add: initial_def two_clients_def)
qed

end
