(* ===== verification/Server_Ownership.thy ===== *)
theory Server_Ownership
  imports Server_Runs
begin

text \<open>
  Who may do what: a request touches only what its client owns, an unauthorised request changes
  nothing but the lease of its sender, a finished query and an undeclared handle never come back, and
  the two places where the code is weaker than that (\<^verbatim>\<open>undeclare\<close> by another client, a query that
  arrives after its queryable has gone).
\<close>

fun is_undeclare :: "request \<Rightarrow> bool" where
  "is_undeclare (PublisherUndeclare _) = True"
| "is_undeclare (SubscriberUndeclare _) = True"
| "is_undeclare (QueryableUndeclare _) = True"
| "is_undeclare (QuerierUndeclare _) = True"
| "is_undeclare _ = False"

text \<open>Everything that client \<open>b\<close> has in \<open>s\<close> is still there, unchanged, in \<open>t\<close>.\<close>

definition keeps_entries :: "string \<Rightarrow> 'w PluginState \<Rightarrow> 'w PluginState \<Rightarrow> bool" where
  "keeps_entries b s t \<longleftrightarrow>
     (\<forall>h e. hm_get (publishers s) h = Some e \<and> pub_owner e = b \<longrightarrow> hm_get (publishers t) h = Some e)
   \<and> (\<forall>h e. hm_get (subscribers s) h = Some e \<and> sub_owner e = b \<longrightarrow> hm_get (subscribers t) h = Some e)
   \<and> (\<forall>h e. hm_get (queryables s) h = Some e \<and> qbl_owner e = b \<longrightarrow> hm_get (queryables t) h = Some e)
   \<and> (\<forall>h e. hm_get (queriers s) h = Some e \<and> qr_owner e = b \<longrightarrow> hm_get (queriers t) h = Some e)
   \<and> (\<forall>h e. hm_get (inflight_queries s) h = Some e \<and> ifq_owner e = b \<longrightarrow>
        hm_get (inflight_queries t) h = Some e)"

text \<open>
  What a request needs before it may use an object: the object is in its table, belongs to the
  client, and a query also belongs to the queryable named with it.
\<close>

definition owns_query :: "string \<Rightarrow> u64 \<Rightarrow> u64 \<Rightarrow> 'w PluginState \<Rightarrow> bool" where
  "owns_query c h i s \<longleftrightarrow>
     (\<exists>q. hm_get (inflight_queries s) i = Some q \<and> ifq_owner q = c \<and> ifq_handle q = h)"

definition owns_in :: "('v \<Rightarrow> string) \<Rightarrow> (u64, 'v) hashmap \<Rightarrow> string \<Rightarrow> u64 \<Rightarrow> bool" where
  "owns_in owner m c h \<longleftrightarrow> (\<exists>e. hm_get m h = Some e \<and> owner e = c)"

fun authorised :: "request \<Rightarrow> 'w PluginState \<Rightarrow> bool" where
  "authorised (PublisherPut r) s = owns_in pub_owner (publishers s) (pput_client_id r) (pput_handle r)"
| "authorised (PublisherDelete r) s = owns_in pub_owner (publishers s) (pdel_client_id r) (pdel_handle r)"
| "authorised (SubscriberEvents r) s = owns_in sub_owner (subscribers s) (hreq_client_id r) (hreq_handle r)"
| "authorised (QueryableEvents r) s = owns_in qbl_owner (queryables s) (hreq_client_id r) (hreq_handle r)"
| "authorised (QuerierGet r) s = owns_in qr_owner (queriers s) (qget_client_id r) (qget_handle r)"
| "authorised (Reply r) s = owns_query (qrep_client_id r) (qrep_handle r) (qrep_query_id r) s"
| "authorised (ReplyErr r) s = owns_query (qerr_client_id r) (qerr_handle r) (qerr_query_id r) s"
| "authorised (ReplyDelete r) s = owns_query (qdel_client_id r) (qdel_handle r) (qdel_query_id r) s"
| "authorised (Finish r) s = owns_query (qfin_client_id r) (qfin_handle r) (qfin_query_id r) s"
| "authorised _ s = True"

section \<open>Authorisation\<close>

lemma ensure_owner_simps [simp]:
  "ensure_owner c c = Inr ()"
  "c \<noteq> ow \<Longrightarrow> ensure_owner c ow = Inl (mk_status PermissionDenied ''handle belongs to another client'')"
  "ensure_owner c ow = Inr u \<longleftrightarrow> c = ow"
  by (auto simp: ensure_owner_def)

lemma inflight_query_Inr:
  "inflight_query c h i s = Inr q \<longleftrightarrow>
     hm_get (inflight_queries s) i = Some q \<and> ifq_owner q = c \<and> ifq_handle q = h"
  by (auto simp: inflight_query_def ensure_owner_def split: option.splits sum.splits if_splits)

lemma inflight_query_Inl:
  "inflight_query c h i s = Inl e \<Longrightarrow>
     \<not> owns_query c h i s \<and> st_code e \<in> {NotFound, PermissionDenied}"
  by (auto simp: inflight_query_def ensure_owner_def owns_query_def
      split: option.splits sum.splits if_splits)

lemma not_owns_query: "\<not> owns_query c h i s \<Longrightarrow> \<exists>e. inflight_query c h i s = Inl e"
  by (metis inflight_query_Inr obj_sumE owns_query_def)


section \<open>Isolation\<close>

lemma inv_handle_not_next:
  assumes "state_inv s"
  shows "hm_get (publishers s) (next_handle s) = None" "hm_get (subscribers s) (next_handle s) = None"
    "hm_get (queryables s) (next_handle s) = None" "hm_get (queriers s) (next_handle s) = None"
    "hm_get (inflight_queries s) (next_query_id s) = None"
  using assms
  by (auto simp: state_inv_def all_handles_def hm_get_def map_of_eq_None_iff hm_keys_def)

lemma insert_tables [simp]:
  "publishers (insert_publisher E h p s) = hm_insert h p (publishers s)"
  "subscribers (insert_publisher E h p s) = subscribers s"
  "queryables (insert_publisher E h p s) = queryables s"
  "queriers (insert_publisher E h p s) = queriers s"
  "inflight_queries (insert_publisher E h p s) = inflight_queries s"
  "publishers (insert_subscriber E h sb s) = publishers s"
  "subscribers (insert_subscriber E h sb s) = hm_insert h sb (subscribers s)"
  "queryables (insert_subscriber E h sb s) = queryables s"
  "queriers (insert_subscriber E h sb s) = queriers s"
  "inflight_queries (insert_subscriber E h sb s) = inflight_queries s"
  "publishers (insert_queryable E h qb s) = publishers s"
  "subscribers (insert_queryable E h qb s) = subscribers s"
  "queryables (insert_queryable E h qb s) = hm_insert h qb (queryables s)"
  "queriers (insert_queryable E h qb s) = queriers s"
  "inflight_queries (insert_queryable E h qb s) = inflight_queries s"
  "publishers (insert_querier E h qr s) = publishers s"
  "subscribers (insert_querier E h qr s) = subscribers s"
  "queryables (insert_querier E h qr s) = queryables s"
  "queriers (insert_querier E h qr s) = hm_insert h qr (queriers s)"
  "inflight_queries (insert_querier E h qr s) = inflight_queries s"
  by (simp_all add: insert_publisher_def insert_subscriber_def insert_queryable_def insert_querier_def)

lemma keeps_cleanup:
  assumes "state_inv s" and "c \<noteq> b"
  shows "keeps_entries b s (cleanup_client E c s)"
  unfolding keeps_entries_def cleanup_client_tables
  using state_inv_tables [OF assms(1)] assms(2)
  by (auto simp: pubs.remove_owned_keeps subs.remove_owned_keeps qbls.remove_owned_keeps
      qrs.remove_owned_keeps hm_get_retain)

lemma request_keeps_others:
  assumes "state_inv s" and "requester r \<noteq> b" and "\<not> is_undeclare r"
  shows "keeps_entries b s (snd (handle_request E now r s))"
proof (cases r)
  case (CleanupClient c)
  with assms show ?thesis by (simp add: session_cleanup_client_def keeps_cleanup)
next
  case (Finish q)
  with assms show ?thesis
    by (auto simp: queryable_finish_def keeps_entries_def Let_def inflight_query_Inr
        split: option.split sum.split)
qed (use assms inv_handle_not_next [OF assms(1)] in \<open>auto simp: handlers keeps_entries_def Let_def
      case_prod_beta alloc_handle_def awaited_def split: option.split sum.split\<close>)

text \<open>
  C5: clients are isolated from each other. In a well-formed state, a request of one client that is
  not an undeclaration leaves every publisher, subscriber, queryable, querier and in-flight query of
  every other client as it was, whatever handles and ids the request names.
\<close>

theorem requests_isolated:
  assumes "state_inv s" and "requester r \<noteq> b" and "\<not> is_undeclare r"
  shows "keeps_entries b s (snd (handle_request E now r s))"
  by (rule request_keeps_others [OF assms])

section \<open>Undeclaration by another client\<close>

text \<open>
  C37: \<^verbatim>\<open>undeclare\<close> removes the entry before it checks the owner. A client that names another
  client's handle is answered with \<^verbatim>\<open>PermissionDenied\<close>, yet the object is gone from its table and its
  Zenoh object is dropped, for all four services; the owner's next \<^verbatim>\<open>put\<close> on such a publisher is
  answered with \<^verbatim>\<open>NotFound\<close>.
\<close>

theorem foreign_undeclare_removes:
  assumes "hreq_client_id r = a" and "hreq_handle r = h"
  shows "(\<forall>e. hm_get (publishers s) h = Some e \<and> pub_owner e \<noteq> a \<longrightarrow>
      (\<exists>st. fst (publisher_undeclare E now r s) = Inl st \<and> st_code st = PermissionDenied)
      \<and> hm_get (publishers (snd (publisher_undeclare E now r s))) h = None
      \<and> session (snd (publisher_undeclare E now r s)) = z_drop E (pub_publisher e) (session s)
      \<and> (\<forall>now' p. pput_handle p = h \<longrightarrow>
           fst (publisher_put E now' p (snd (publisher_undeclare E now r s))) =
             Inl (mk_status NotFound ''publisher handle not found'')))
    \<and> (\<forall>e. hm_get (subscribers s) h = Some e \<and> sub_owner e \<noteq> a \<longrightarrow>
      (\<exists>st. fst (subscriber_undeclare E now r s) = Inl st \<and> st_code st = PermissionDenied)
      \<and> hm_get (subscribers (snd (subscriber_undeclare E now r s))) h = None)
    \<and> (\<forall>e. hm_get (queryables s) h = Some e \<and> qbl_owner e \<noteq> a \<longrightarrow>
      (\<exists>st. fst (queryable_undeclare E now r s) = Inl st \<and> st_code st = PermissionDenied)
      \<and> hm_get (queryables (snd (queryable_undeclare E now r s))) h = None)
    \<and> (\<forall>e. hm_get (queriers s) h = Some e \<and> qr_owner e \<noteq> a \<longrightarrow>
      (\<exists>st. fst (querier_undeclare E now r s) = Inl st \<and> st_code st = PermissionDenied)
      \<and> hm_get (queriers (snd (querier_undeclare E now r s))) h = None)"
  using assms
  by (auto simp: publisher_undeclare_def publisher_put_def subscriber_undeclare_def
      queryable_undeclare_def querier_undeclare_def drop_publisher_def Let_def)

definition intruder :: HandleRequest where
  "intruder = \<lparr>hreq_client_id = ''b'', hreq_handle = 1\<rparr>"

theorem foreign_undeclare_removes_witness:
  "hm_get (publishers (server_run log_env two_clients initial)) 1 = Some \<lparr>pub_owner = ''a'', pub_publisher = 0\<rparr>
   \<and> hm_get (publishers (snd (publisher_undeclare log_env 3500 intruder
        (server_run log_env two_clients initial)))) 1 = None"
proof -
  have "hm_get (publishers (server_run log_env two_clients initial)) 1 =
      Some \<lparr>pub_owner = ''a'', pub_publisher = 0\<rparr>"
    by (simp add: two_clients_publishers hm_get_def)
  then show ?thesis
    using foreign_undeclare_removes [of intruder "''b''" 1 "server_run log_env two_clients initial"
        log_env 3500] by (simp add: intruder_def)
qed

section \<open>Nothing comes back\<close>

lemma set_all_handles:
  "set (all_handles s) = hm_keys (publishers s) \<union> hm_keys (subscribers s) \<union> hm_keys (queryables s)
     \<union> hm_keys (queriers s)"
  by (auto simp: all_handles_def hm_keys_def)

lemma cleanup_all_keys:
  assumes "state_inv s"
  shows "set (all_handles (fold (cleanup_client E) cs s)) \<subseteq> set (all_handles s)"
    "hm_keys (inflight_queries (fold (cleanup_client E) cs s)) \<subseteq> hm_keys (inflight_queries s)"
  unfolding set_all_handles cleanup_all_retains [OF assms]
  by (intro Un_mono hm_keys_retain) (rule hm_keys_retain)

lemma request_keys:
  assumes "state_inv s"
  shows "set (all_handles (snd (handle_request E now r s))) \<subseteq>
      (if declares (Rpc now r) then insert (next_handle s) (set (all_handles s)) else set (all_handles s))"
    (is ?handles)
    and "hm_keys (inflight_queries (snd (handle_request E now r s))) \<subseteq> hm_keys (inflight_queries s)"
    (is ?queries)
proof -
  note defs = handlers Let_def case_prod_beta alloc_handle_def awaited_def
  show ?handles
  proof (cases r)
    case (CleanupClient c)
    then show ?thesis
      using cleanup_all_keys(1) [OF assms, of E "[c]"] by (simp add: session_cleanup_client_def)
  qed (auto simp: defs set_all_handles split: option.split sum.split)
  show ?queries
  proof (cases r)
    case (CleanupClient c)
    then show ?thesis
      using cleanup_all_keys(2) [OF assms, of E "[c]"] by (simp add: session_cleanup_client_def)
  qed (auto simp: defs split: option.split sum.split dest!: hm_keys_retain [THEN subsetD])
qed

lemma step_keys:
  assumes "state_inv s"
  shows "set (all_handles (server_step E ev s)) \<subseteq>
      (if declares ev then insert (next_handle s) (set (all_handles s)) else set (all_handles s))"
    and "hm_keys (inflight_queries (server_step E ev s)) \<subseteq>
      (if queries ev then insert (next_query_id s) (hm_keys (inflight_queries s))
       else hm_keys (inflight_queries s))"
  using request_keys [OF assms] cleanup_all_keys [OF assms]
  by (cases ev; auto simp: cleanup_tick_def subscriber_forward_def queryable_dispatch_def
      dispatch_store_def dispatch_send_def alloc_query_id_def set_all_handles split: option.split)+

text \<open>A handle or query id below its counter that is not in use will never be in use.\<close>

lemma run_gone:
  assumes "state_inv s" and "unat (next_handle s) + length evs < 2 ^ 64 - 1"
    and "unat (next_query_id s) + length evs < 2 ^ 64 - 1"
  shows "(h < next_handle s \<and> h \<notin> set (all_handles s) \<longrightarrow> h \<notin> set (all_handles (server_run E evs s)))
    \<and> (i < next_query_id s \<and> i \<notin> hm_keys (inflight_queries s) \<longrightarrow>
        i \<notin> hm_keys (inflight_queries (server_run E evs s)))"
  using assms
proof (induction rule: server_run_induct [where E = E])
  case (Nil s)
  then show ?case by simp
next
  case (Cons ev evs s)
  from Cons.hyps(1,2) step_keys(1) [OF Cons.hyps(1), of E ev]
  have h: "h < next_handle s \<and> h \<notin> set (all_handles s) \<longrightarrow>
      h < next_handle (server_step E ev s) \<and> h \<notin> set (all_handles (server_step E ev s))"
    by (auto simp: step_next_handle u64_less_Suc split: if_splits)
  from Cons.hyps(1,3) step_keys(2) [OF Cons.hyps(1), of E ev]
  have i: "i < next_query_id s \<and> i \<notin> hm_keys (inflight_queries s) \<longrightarrow>
      i < next_query_id (server_step E ev s) \<and> i \<notin> hm_keys (inflight_queries (server_step E ev s))"
    by (auto simp: step_next_query_id u64_less_Suc split: if_splits)
  from h i Cons.IH show ?case by simp
qed

lemma run_counters_bound:
  assumes "unat (next_handle s) + (length evs + k) < 2 ^ 64 - 1"
    and "unat (next_query_id s) + (length evs + k) < 2 ^ 64 - 1"
  shows "unat (next_handle (server_run E evs s)) + k < 2 ^ 64 - 1"
    and "unat (next_query_id (server_run E evs s)) + k < 2 ^ 64 - 1"
  using assms
proof (induction evs arbitrary: s)
  case (Cons ev evs)
  { case 1 then show ?case using Cons.IH [of "server_step E ev s"] step_counters_bound [of s "length evs + k" E ev] by simp
  next
    case 2 then show ?case using Cons.IH [of "server_step E ev s"] step_counters_bound [of s "length evs + k" E ev] by simp }
qed simp_all

text \<open>
  Finishing a query is final. After a successful \<^verbatim>\<open>finish\<close> in the state of any execution, in every
  continuation the query id is unknown: every later \<^verbatim>\<open>reply\<close>, \<^verbatim>\<open>reply_err\<close>, \<^verbatim>\<open>reply_delete\<close> or \<^verbatim>\<open>finish\<close>
  for it is answered with \<^verbatim>\<open>NotFound\<close>, because ids are never reused.
\<close>

theorem finished_query_is_final:
  assumes "length evs0 + length evs < 2 ^ 64 - 3" and "s = server_run E evs0 (PluginState_new w c)"
    and "fst (queryable_finish E now q s) = Inr ()"
    and "s' = server_run E evs (snd (queryable_finish E now q s))"
  shows "hm_get (inflight_queries s') (qfin_query_id q) = None
    \<and> (\<forall>t client h. inflight_query client h (qfin_query_id q) (touch_client t client s') =
         Inl (mk_status NotFound ''query not found''))"
proof -
  let ?i = "qfin_query_id q" and ?s1 = "server_step E (Rpc now (Finish q)) s"
  have s: "state_inv s" using reached(1) [OF _ assms(2)] assms(1) by simp
  have bounds: "unat (next_handle s) + Suc (length evs) < 2 ^ 64 - 1"
    "unat (next_query_id s) + Suc (length evs) < 2 ^ 64 - 1"
    unfolding assms(2) using assms(1)
      run_counters_bound [of "PluginState_new w c" evs0 "Suc (length evs)" E]
    by (simp_all add: initial_state)
  have s1: "state_inv ?s1"
    using bounds by (intro state_inv_step [OF s] not_exhausted [where k = "Suc (length evs)"])
  from assms(3) have "?i \<in> hm_keys (inflight_queries s)"
    by (auto simp: queryable_finish_def inflight_query_def hm_keys_get split: option.splits sum.splits)
  with s have less: "?i < next_query_id s" by (simp add: state_inv_def)
  then have less': "?i < next_query_id ?s1" by (simp add: step_next_query_id del: server_step.simps)
  have gone: "?i \<notin> hm_keys (inflight_queries ?s1)"
    using assms(3) by (auto simp: queryable_finish_def Let_def split: sum.splits)
  have "?i \<notin> hm_keys (inflight_queries (server_run E evs ?s1))"
    using run_gone [OF s1 step_counters_bound [OF bounds], where h = ?i and i = ?i] less' gone by blast
  then have "hm_get (inflight_queries s') ?i = None"
    by (simp add: assms(4) hm_keys_get)
  then show ?thesis by (simp add: inflight_query_def)
qed

section \<open>Releasing what a client holds\<close>

text \<open>
  Cleaning up a client releases each of its Zenoh objects exactly once. In the state of any
  execution, the calls that \<^verbatim>\<open>cleanup_client\<close> makes are: \<^verbatim>\<open>undeclare\<close> for each publisher, subscriber,
  queryable and querier the client owns (dropping the event senders of the second and third), then
  the drop of each of its in-flight queries; nothing else is touched, even if an undeclaration fails.
\<close>

theorem cleanup_client_releases:
  assumes "length evs < 2 ^ 64 - 2" and "s = server_run E evs (PluginState_new w cfg)"
  shows "session (cleanup_client E c s) =
    fold (drop_query E) (hm_values_where (\<lambda>q. ifq_owner q = c) (inflight_queries s))
     (fold (release_querier E) (hm_values_where (\<lambda>e. qr_owner e = c) (queriers s))
      (fold (release_queryable E) (hm_values_where (\<lambda>e. qbl_owner e = c) (queryables s))
       (fold (release_subscriber E) (hm_values_where (\<lambda>e. sub_owner e = c) (subscribers s))
        (fold (release_publisher E) (hm_values_where (\<lambda>e. pub_owner e = c) (publishers s))
         (session s)))))
    \<and> owners (cleanup_client E c s) = owners s - {c}"
proof
  note inv = reached(1) [OF assms]
  show "owners (cleanup_client E c s) = owners s - {c}" by (rule owners_cleanup [OF inv])
qed (simp add: cleanup_client_def retain_inflight_def Let_def case_prod_beta remove_entries_world
      state_inv_tables [OF reached(1) [OF assms]])

theorem cleanup_client_releases_witness:
  "length two_clients < 2 ^ 64 - 2
   \<and> session (cleanup_client log_env ''a'' (server_run log_env two_clients initial)) =
       session (server_run log_env two_clients initial) @ [CallUndeclare 0]"
proof -
  have "session (cleanup_client log_env ''a'' (server_run log_env two_clients initial)) =
      release_publisher log_env \<lparr>pub_owner = ''a'', pub_publisher = 0\<rparr>
        (session (server_run log_env two_clients initial))"
    using cleanup_client_releases [OF _ initial_eq, of two_clients log_env "''a''"]
    by (simp add: two_clients_length two_clients_publishers hm_values_where_def)
  then show ?thesis
    by (simp add: release_publisher_def log_env_def log_unit_def two_clients_length)
qed

section \<open>Queries that outlive their queryable\<close>

text \<open>
  A query that its task receives after the queryable was undeclared is stored all the same: it
  stays in the table of in-flight queries under a handle that no table knows, and no later
  \<^verbatim>\<open>undeclare\<close> of that handle removes it.
\<close>

theorem orphaned_query:
  assumes "hm_get (queryables s) h = None"
  shows "owns_query ow h (next_query_id s) (queryable_dispatch E h ow tx q s)
    \<and> hm_get (queryables (queryable_dispatch E h ow tx q s)) h = None
    \<and> (\<forall>now c. owns_query ow h (next_query_id s)
        (snd (queryable_undeclare E now \<lparr>hreq_client_id = c, hreq_handle = h\<rparr>
           (queryable_dispatch E h ow tx q s))))"
  using assms
  by (simp add: queryable_dispatch_def dispatch_store_def dispatch_send_def alloc_query_id_def
      owns_query_def queryable_undeclare_def Let_def)

definition a_query :: z_query where
  "a_query = \<lparr>zq_ref = 9, zq_selector = ''k'', zq_key_expr = ''k'', zq_parameters = [],
     zq_payload = None, zq_encoding = None, zq_attachment = None\<rparr>"

theorem orphaned_query_witness:
  "hm_get (queryables initial) 7 = None
   \<and> owns_query ''a'' 7 1 (queryable_dispatch log_env 7 ''a'' 3 a_query initial)"
  using orphaned_query [of initial 7 "''a''" log_env 3 a_query]
  by (simp add: initial_def PluginState_new_def)

section \<open>Witnesses\<close>

definition foreign_put :: PublisherPutRequest where
  "foreign_put = \<lparr>pput_client_id = ''b'', pput_handle = 1, pput_payload = [1], pput_encoding = [],
     pput_attachment = [], pput_timestamp = []\<rparr>"


theorem requests_isolated_witness:
  "hm_get (publishers (snd (handle_request log_env 3500 (CleanupClient ''b'')
      (server_run log_env two_clients initial)))) 1 = Some \<lparr>pub_owner = ''a'', pub_publisher = 0\<rparr>"
proof -
  have "state_inv (server_run log_env two_clients initial)"
    by (rule reached(1) [of two_clients _ log_env "[]" Config_default])
      (simp_all add: two_clients_def initial_def)
  moreover have "hm_get (publishers (server_run log_env two_clients initial)) 1 =
      Some \<lparr>pub_owner = ''a'', pub_publisher = 0\<rparr>"
    by (simp add: two_clients_publishers hm_get_def)
  ultimately show ?thesis
    using requests_isolated [of "server_run log_env two_clients initial" "CleanupClient ''b''" "''a''"
        log_env 3500] by (simp add: keeps_entries_def)
qed

definition with_query :: "server_event list" where
  "with_query =
     [Rpc 0 (DeclareQueryable \<lparr>dqbl_client_id = ''a'', dqbl_key_expr = ''k'', dqbl_complete = True,
        dqbl_allowed_origin = 0\<rparr>),
      QueryArrived 1 ''a'' 1 a_query]"

definition finish_it :: QueryFinishRequest where
  "finish_it = \<lparr>qfin_client_id = ''a'', qfin_handle = 1, qfin_query_id = 1\<rparr>"

theorem finished_query_is_final_witness:
  "fst (queryable_finish log_env 10 finish_it (server_run log_env with_query initial)) = Inr ()
   \<and> hm_get (inflight_queries (server_run log_env [Tick 20]
        (snd (queryable_finish log_env 10 finish_it (server_run log_env with_query initial))))) 1 = None"
proof -
  have fin: "fst (queryable_finish log_env 10 finish_it (server_run log_env with_query initial)) = Inr ()"
    by (simp add: with_query_def initial_def PluginState_new_def declare_queryable_def alloc_handle_def
        touch_client_def log_env_def log_ref_def insert_queryable_def queryable_dispatch_def
        dispatch_store_def dispatch_send_def alloc_query_id_def queryable_finish_def finish_it_def
        inflight_query_def Let_def)
  then show ?thesis
    using finished_query_is_final [of with_query "[Tick 20]" "server_run log_env with_query initial"
        log_env "[]" Config_default 10 finish_it]
    by (simp add: with_query_def initial_def finish_it_def)
qed

end
