(* ===== verification/Server_Refinement.thy ===== *)
theory Server_Refinement
  imports Server_Ownership
begin

text \<open>
  What the plugin promises about declared objects, without its tables: a directory that maps each
  handle to the kind of the object and its owner. \<open>spec_objects\<close> says how a request and its answer
  change the directory; the handlers of the five services, with their four tables, counters and
  leases, refine it, and \<open>spec_answer\<close> says which answers the directory allows. A client may reason
  about its handles with the directory alone.
\<close>

datatype obj_kind = KPublisher | KSubscriber | KQueryable | KQuerier

type_synonym directory = "u64 \<Rightarrow> (obj_kind \<times> string) option"

section \<open>Abstract behaviour\<close>

definition forget_object :: "obj_kind \<Rightarrow> u64 \<Rightarrow> directory \<Rightarrow> directory" where
  "forget_object k h m =
     (case m h of Some (k', _) \<Rightarrow> if k' = k then m(h := None) else m | None \<Rightarrow> m)"

definition forget_client :: "string \<Rightarrow> directory \<Rightarrow> directory" where
  "forget_client c m =
     (\<lambda>h. case m h of Some (k, ow) \<Rightarrow> if ow = c then None else Some (k, ow) | None \<Rightarrow> None)"

definition add_object :: "obj_kind \<Rightarrow> string \<Rightarrow> response rpc_result \<Rightarrow> directory \<Rightarrow> directory" where
  "add_object k c answer m = (case answer of Inr (R_Handle h) \<Rightarrow> m(h \<mapsto> (k, c)) | _ \<Rightarrow> m)"

fun spec_objects :: "request \<Rightarrow> response rpc_result \<Rightarrow> directory \<Rightarrow> directory" where
  "spec_objects (DeclarePublisher r) answer m = add_object KPublisher (dpub_client_id r) answer m"
| "spec_objects (DeclareSubscriber r) answer m = add_object KSubscriber (dsub_client_id r) answer m"
| "spec_objects (DeclareQueryable r) answer m = add_object KQueryable (dqbl_client_id r) answer m"
| "spec_objects (DeclareQuerier r) answer m = add_object KQuerier (dqr_client_id r) answer m"
| "spec_objects (PublisherUndeclare r) answer m = forget_object KPublisher (hreq_handle r) m"
| "spec_objects (SubscriberUndeclare r) answer m = forget_object KSubscriber (hreq_handle r) m"
| "spec_objects (QueryableUndeclare r) answer m = forget_object KQueryable (hreq_handle r) m"
| "spec_objects (QuerierUndeclare r) answer m = forget_object KQuerier (hreq_handle r) m"
| "spec_objects (CleanupClient c) answer m = forget_client c m"
| "spec_objects _ answer m = m"

text \<open>
  Which answers the directory allows: a handle that names no object of the kind is \<^verbatim>\<open>NotFound\<close>, an
  object of another client is \<^verbatim>\<open>PermissionDenied\<close>, and the owner gets neither; a declaration yields
  a handle that was free, or Zenoh's error.
\<close>

fun rejected :: "code \<Rightarrow> response rpc_result \<Rightarrow> bool" where
  "rejected c (Inl e) = (st_code e = c)"
| "rejected c (Inr v) = False"

definition access :: "obj_kind \<Rightarrow> string \<Rightarrow> u64 \<Rightarrow> response rpc_result \<Rightarrow> directory \<Rightarrow> bool" where
  "access k c h answer m =
     (if m h = Some (k, c) then \<not> rejected NotFound answer \<and> \<not> rejected PermissionDenied answer
      else if map_option fst (m h) = Some k then rejected PermissionDenied answer
      else rejected NotFound answer)"

fun fresh_handle :: "response rpc_result \<Rightarrow> directory \<Rightarrow> bool" where
  "fresh_handle (Inr (R_Handle h)) m = (m h = None)"
| "fresh_handle answer m = rejected Internal answer"

fun spec_answer :: "request \<Rightarrow> response rpc_result \<Rightarrow> directory \<Rightarrow> bool" where
  "spec_answer (DeclarePublisher r) answer m = fresh_handle answer m"
| "spec_answer (DeclareSubscriber r) answer m = fresh_handle answer m"
| "spec_answer (DeclareQueryable r) answer m = fresh_handle answer m"
| "spec_answer (DeclareQuerier r) answer m = fresh_handle answer m"
| "spec_answer (PublisherPut r) answer m = access KPublisher (pput_client_id r) (pput_handle r) answer m"
| "spec_answer (PublisherDelete r) answer m = access KPublisher (pdel_client_id r) (pdel_handle r) answer m"
| "spec_answer (PublisherUndeclare r) answer m = access KPublisher (hreq_client_id r) (hreq_handle r) answer m"
| "spec_answer (SubscriberEvents r) answer m = access KSubscriber (hreq_client_id r) (hreq_handle r) answer m"
| "spec_answer (SubscriberUndeclare r) answer m = access KSubscriber (hreq_client_id r) (hreq_handle r) answer m"
| "spec_answer (QueryableEvents r) answer m = access KQueryable (hreq_client_id r) (hreq_handle r) answer m"
| "spec_answer (QueryableUndeclare r) answer m = access KQueryable (hreq_client_id r) (hreq_handle r) answer m"
| "spec_answer (QuerierGet r) answer m = access KQuerier (qget_client_id r) (qget_handle r) answer m"
| "spec_answer (QuerierUndeclare r) answer m = access KQuerier (hreq_client_id r) (hreq_handle r) answer m"
| "spec_answer (Info c) answer m = (\<exists>z. answer = Inr (R_Info z))"
| "spec_answer (TouchClient c) answer m = (answer = Inr R_Empty)"
| "spec_answer (CleanupClient c) answer m = (answer = Inr R_Empty)"
| "spec_answer _ answer m = True"

section \<open>The abstraction\<close>

definition kind_table :: "obj_kind \<Rightarrow> ('v \<Rightarrow> string) \<Rightarrow> (u64, 'v) hashmap \<Rightarrow> directory" where
  "kind_table k owner m = (\<lambda>h. map_option (\<lambda>e. (k, owner e)) (hm_get m h))"

definition objects :: "'w PluginState \<Rightarrow> directory" where
  "objects s =
     kind_table KPublisher pub_owner (publishers s) ++ kind_table KSubscriber sub_owner (subscribers s)
     ++ kind_table KQueryable qbl_owner (queryables s) ++ kind_table KQuerier qr_owner (queriers s)"

section \<open>Lookup in the directory\<close>

lemma one_table:
  assumes "state_inv s"
  shows "hm_get (publishers s) h \<noteq> None \<Longrightarrow> hm_get (subscribers s) h = None \<and>
      hm_get (queryables s) h = None \<and> hm_get (queriers s) h = None"
    and "hm_get (subscribers s) h \<noteq> None \<Longrightarrow> hm_get (queryables s) h = None \<and> hm_get (queriers s) h = None"
    and "hm_get (queryables s) h \<noteq> None \<Longrightarrow> hm_get (queriers s) h = None"
  using assms unfolding state_inv_def all_handles_def hm_get_def map_of_eq_None_iff
  by (auto simp: disjoint_iff)

lemma objects_eq:
  assumes "state_inv s"
  shows "objects s h =
     (case hm_get (publishers s) h of Some e \<Rightarrow> Some (KPublisher, pub_owner e) | None \<Rightarrow>
     (case hm_get (subscribers s) h of Some e \<Rightarrow> Some (KSubscriber, sub_owner e) | None \<Rightarrow>
     (case hm_get (queryables s) h of Some e \<Rightarrow> Some (KQueryable, qbl_owner e) | None \<Rightarrow>
     (case hm_get (queriers s) h of Some e \<Rightarrow> Some (KQuerier, qr_owner e) | None \<Rightarrow> None))))"
  using one_table [OF assms, of h]
  by (auto simp: objects_def kind_table_def map_add_def split: option.split)

text \<open>What each table says about the directory.\<close>

lemma objects_at:
  assumes "state_inv s"
  shows "hm_get (publishers s) h = Some p \<Longrightarrow> objects s h = Some (KPublisher, pub_owner p)"
    "hm_get (subscribers s) h = Some sb \<Longrightarrow> objects s h = Some (KSubscriber, sub_owner sb)"
    "hm_get (queryables s) h = Some qb \<Longrightarrow> objects s h = Some (KQueryable, qbl_owner qb)"
    "hm_get (queriers s) h = Some qr \<Longrightarrow> objects s h = Some (KQuerier, qr_owner qr)"
proof -
  have only: "hm_get (subscribers s) h = Some sb \<Longrightarrow> hm_get (publishers s) h = None"
    "hm_get (queryables s) h = Some qb \<Longrightarrow> hm_get (publishers s) h = None \<and> hm_get (subscribers s) h = None"
    "hm_get (queriers s) h = Some qr \<Longrightarrow> hm_get (publishers s) h = None \<and> hm_get (subscribers s) h = None
       \<and> hm_get (queryables s) h = None"
    by (metis one_table [OF assms] option.distinct(1))+
  show "hm_get (publishers s) h = Some p \<Longrightarrow> objects s h = Some (KPublisher, pub_owner p)"
    "hm_get (subscribers s) h = Some sb \<Longrightarrow> objects s h = Some (KSubscriber, sub_owner sb)"
    "hm_get (queryables s) h = Some qb \<Longrightarrow> objects s h = Some (KQueryable, qbl_owner qb)"
    "hm_get (queriers s) h = Some qr \<Longrightarrow> objects s h = Some (KQuerier, qr_owner qr)"
    by (simp_all add: objects_eq [OF assms] only)
qed

lemma objects_not_at:
  assumes "state_inv s"
  shows "hm_get (publishers s) h = None \<Longrightarrow> map_option fst (objects s h) \<noteq> Some KPublisher"
    "hm_get (subscribers s) h = None \<Longrightarrow> map_option fst (objects s h) \<noteq> Some KSubscriber"
    "hm_get (queryables s) h = None \<Longrightarrow> map_option fst (objects s h) \<noteq> Some KQueryable"
    "hm_get (queriers s) h = None \<Longrightarrow> map_option fst (objects s h) \<noteq> Some KQuerier"
  by (auto simp: objects_eq [OF assms] split: option.splits)

lemma objects_next:
  assumes "state_inv s"
  shows "objects s (next_handle s) = None"
  by (simp add: objects_eq [OF assms] inv_handle_not_next [OF assms])

section \<open>Tables and directory under change\<close>

lemma objects_insert:
  assumes "state_inv s" and "h = next_handle s" and "publishers t = publishers s"
    "subscribers t = subscribers s" "queryables t = queryables s" "queriers t = queriers s"
  shows "objects (insert_publisher E h p t) = (objects s)(h \<mapsto> (KPublisher, pub_owner p))"
    "objects (insert_subscriber E h sb t) = (objects s)(h \<mapsto> (KSubscriber, sub_owner sb))"
    "objects (insert_queryable E h qb t) = (objects s)(h \<mapsto> (KQueryable, qbl_owner qb))"
    "objects (insert_querier E h qr t) = (objects s)(h \<mapsto> (KQuerier, qr_owner qr))"
  using inv_handle_not_next [OF assms(1)] assms(2-6)
  by (simp_all add: objects_def kind_table_def map_add_def fun_eq_iff)

lemma objects_remove:
  assumes "state_inv s"
  shows "objects (s\<lparr>publishers := hm_remove h (publishers s)\<rparr>) = forget_object KPublisher h (objects s)"
    "objects (s\<lparr>subscribers := hm_remove h (subscribers s)\<rparr>) = forget_object KSubscriber h (objects s)"
    "objects (s\<lparr>queryables := hm_remove h (queryables s)\<rparr>) = forget_object KQueryable h (objects s)"
    "objects (s\<lparr>queriers := hm_remove h (queriers s)\<rparr>) = forget_object KQuerier h (objects s)"
  using one_table [OF assms, of h]
  by (auto simp: objects_eq [OF assms] objects_eq [OF state_inv_remove(1) [OF assms]]
      objects_eq [OF state_inv_remove(2) [OF assms]] objects_eq [OF state_inv_remove(3) [OF assms]]
      objects_eq [OF state_inv_remove(4) [OF assms]] forget_object_def fun_eq_iff split: option.split)

lemma objects_cleanup:
  assumes "state_inv s"
  shows "objects (cleanup_client E c s) = forget_client c (objects s)"
proof
  fix h
  show "objects (cleanup_client E c s) h = forget_client c (objects s) h"
    using one_table [OF assms, of h] state_inv_tables [OF assms]
    by (simp add: objects_eq [OF assms] objects_eq [OF state_inv_cleanup [OF assms]]
      cleanup_client_retains [OF assms] hm_get_retain forget_client_def split: option.split)
qed

section \<open>The handlers refine the directory\<close>

lemma objects_same [simp]:
  "objects (s\<lparr>session := w\<rparr>) = objects s" "objects (touch_client now c s) = objects s"
  "objects (s\<lparr>next_handle := h\<rparr>) = objects s" "objects (s\<lparr>inflight_queries := m\<rparr>) = objects s"
  "objects (retain_inflight E P s) = objects s"
  by (simp_all add: objects_def)

lemma access_result:
  "objects s h = Some (k, ow) \<Longrightarrow> ow \<noteq> c \<Longrightarrow>
     access k c h (Inl (mk_status PermissionDenied msg)) (objects s)"
  "map_option fst (objects s h) \<noteq> Some k \<Longrightarrow> access k c h (Inl (mk_status NotFound msg)) (objects s)"
  "objects s h = Some (k, c) \<Longrightarrow> access k c h (Inl (mk_status Internal err)) (objects s)"
  "objects s h = Some (k, c) \<Longrightarrow> access k c h (Inr v) (objects s)"
  by (auto simp: access_def)

lemma objects_touch_remove:
  assumes "state_inv s"
  shows "objects ((touch_client now c s)\<lparr>publishers := hm_remove h (publishers s)\<rparr>) = forget_object KPublisher h (objects s)"
    "objects ((touch_client now c s)\<lparr>subscribers := hm_remove h (subscribers s)\<rparr>) = forget_object KSubscriber h (objects s)"
    "objects ((touch_client now c s)\<lparr>queryables := hm_remove h (queryables s)\<rparr>) = forget_object KQueryable h (objects s)"
    "objects ((touch_client now c s)\<lparr>queriers := hm_remove h (queriers s)\<rparr>) = forget_object KQuerier h (objects s)"
  using objects_remove [OF state_inv_touch [OF assms, of now c], of h] by simp_all

lemma spec_answer_holds:
  assumes "state_inv s"
  shows "spec_answer r (fst (handle_request E now r s)) (objects s)"
proof -
  note at = objects_at [OF assms] and gone = objects_not_at [OF assms]
  show ?thesis
    by (cases r)
      (auto simp: handlers Let_def respond_def case_prod_beta alloc_handle_def awaited_def
        ensure_owner_def objects_next [OF assms] internal_status_def access_result
        split: option.split sum.split intro!: access_result dest: at gone)
qed

lemma spec_objects_holds:
  assumes "state_inv s"
  shows "objects (snd (handle_request E now r s)) =
    spec_objects r (fst (handle_request E now r s)) (objects s)"
  by (cases r)
    (auto simp: handlers Let_def respond_def case_prod_beta alloc_handle_def awaited_def
      ensure_owner_def add_object_def objects_insert [OF assms] objects_touch_remove [OF assms]
      objects_cleanup [OF assms]
      split: option.split sum.split)

lemma objects_new: "objects (PluginState_new w cfg) = Map.empty"
  by (simp add: objects_def kind_table_def PluginState_new_def fun_eq_iff)

lemma objects_cleanup_all:
  "state_inv s \<Longrightarrow> objects (fold (cleanup_client E) cs s) = fold forget_client cs (objects s)"
  by (induction cs arbitrary: s) (simp_all add: objects_cleanup)

lemma objects_dispatch:
  "objects (queryable_dispatch E h ow tx q s) = objects s"
  "objects (subscriber_forward E tx z s) = objects s"
  by (simp_all add: queryable_dispatch_def dispatch_store_def dispatch_send_def alloc_query_id_def
      subscriber_forward_def objects_def split: option.split)

text \<open>
  C1: the plugin's tables refine the directory of handles. It starts empty; in every state of an
  execution, each request is answered as the directory allows (a fresh handle, \<^verbatim>\<open>NotFound\<close> for a
  handle of no such object, \<^verbatim>\<open>PermissionDenied\<close> for another client's) and changes the directory as
  \<open>spec_objects\<close> says; a tick of the cleanup task forgets exactly the clients it found stale; samples
  and queries arriving from Zenoh leave the directory alone.
\<close>

theorem objects_refine:
  assumes "length evs < 2 ^ 64 - 2" and "s = server_run E evs (PluginState_new w cfg)"
  shows "objects (PluginState_new w cfg) = Map.empty
    \<and> spec_answer r (fst (handle_request E now r s)) (objects s)
    \<and> objects (snd (handle_request E now r s)) =
        spec_objects r (fst (handle_request E now r s)) (objects s)
    \<and> objects (cleanup_tick E now s) = fold forget_client (collect_stale_clients now s) (objects s)
    \<and> objects (queryable_dispatch E h ow tx q s) = objects s
    \<and> objects (subscriber_forward E tx z s) = objects s"
  using reached(1) [OF assms]
  by (simp add: objects_new spec_answer_holds spec_objects_holds objects_dispatch cleanup_tick_def
      objects_cleanup_all)

lemma two_clients_objects: "objects (server_run log_env two_clients initial) 1 = Some (KPublisher, ''a'')"
proof -
  have "length two_clients < 2 ^ 64 - 2" by (simp add: two_clients_length)
  from objects_at(1) [OF reached(1) [OF this initial_eq], of log_env 1 "\<lparr>pub_owner = ''a'', pub_publisher = 0\<rparr>"]
  show ?thesis by (simp add: two_clients_publishers hm_get_def)
qed

theorem objects_refine_witness:
  "length two_clients < 2 ^ 64 - 2
   \<and> objects (server_run log_env two_clients initial) 1 = Some (KPublisher, ''a'')
   \<and> rejected PermissionDenied (fst (handle_request log_env 3500 (PublisherUndeclare intruder)
        (server_run log_env two_clients initial)))
   \<and> objects (snd (handle_request log_env 3500 (PublisherUndeclare intruder)
        (server_run log_env two_clients initial))) 1 = None"
proof -
  have len: "length two_clients < 2 ^ 64 - 2" by (simp add: two_clients_length)
  show ?thesis
    using two_clients_objects objects_refine [OF len initial_eq, where r = "PublisherUndeclare intruder" and now = 3500] len
    by (simp add: intruder_def access_def forget_object_def)
qed

end
