(* ===== verification/Client_Session.thy ===== *)
theory Client_Session
  imports Prelude
begin

text \<open>
  The connection of a client session (\<^verbatim>\<open>zenoh-grpc-client-rs/src/lib.rs\<close>): the shared state
  \<^verbatim>\<open>Inner\<close>, the operations on it, the waiting loop \<^verbatim>\<open>wait_for_connection_or_closed\<close>, and the
  background workers for reconnecting and for heartbeats.

  The transport (the \<^verbatim>\<open>tonic\<close> crate) is the parameter \<open>transport\<close>; the \<open>n\<close>-th attempt to connect may
  answer differently from the others. \<^verbatim>\<open>Notify::notify_waiters\<close> is an epoch counter: a waiter
  remembers the epoch at which its \<^verbatim>\<open>Notified\<close> future was created and wakes up when the counter has
  moved on. Lines printed on standard error are kept in \<open>stderr\<close>, oldest first. Every operation that
  locks the connection is one atomic step; a worker is a step function on its program counter, and
  what the runtime or the server answers is an input of the step.
\<close>

section \<open>Addresses and errors\<close>

datatype ConnectAddr = ConnectTcp string | ConnectUnix string

datatype Error = Transport string | Status status | CallbackDriven string

type_synonym 'a result = "Error + 'a"

record ('e, 'ch) transport =
  from_shared :: "string \<Rightarrow> string + 'e"
  connect_tcp :: "nat \<Rightarrow> 'e \<Rightarrow> string + 'ch"
  connect_unix :: "nat \<Rightarrow> 'e \<Rightarrow> string \<Rightarrow> string + 'ch"

definition connect_channel :: "('e, 'ch) transport \<Rightarrow> nat \<Rightarrow> ConnectAddr \<Rightarrow> string + 'ch" where
  "connect_channel T n addr =
     (case addr of
        ConnectTcp a \<Rightarrow>
          (case from_shared T (''http://'' @ a) of Inl e \<Rightarrow> Inl e | Inr ep \<Rightarrow> connect_tcp T n ep)
      | ConnectUnix path \<Rightarrow>
          (case from_shared T ''http://[::]:50051'' of
             Inl e \<Rightarrow> Inl e
           | Inr ep \<Rightarrow> connect_unix T n ep path))"

definition validate_connect_addr :: "('e, 'ch) transport \<Rightarrow> ConnectAddr \<Rightarrow> string + unit" where
  "validate_connect_addr T addr =
     (case addr of
        ConnectTcp a \<Rightarrow> (case from_shared T (''http://'' @ a) of Inl e \<Rightarrow> Inl e | Inr _ \<Rightarrow> Inr ())
      | ConnectUnix _ \<Rightarrow> (case from_shared T ''http://[::]:50051'' of Inl e \<Rightarrow> Inl e | Inr _ \<Rightarrow> Inr ()))"

definition is_disconnect_status :: "status \<Rightarrow> bool" where
  "is_disconnect_status st \<longleftrightarrow> st_code st \<in> {Unavailable, Unknown, Cancelled}"

definition is_stale_status :: "status \<Rightarrow> bool" where
  "is_stale_status st \<longleftrightarrow> st_code st \<in> {NotFound, PermissionDenied}"

lemma not_disconnect_and_stale: "\<not> (is_disconnect_status st \<and> is_stale_status st)"
  by (auto simp: is_disconnect_status_def is_stale_status_def)

section \<open>Constants\<close>

definition SEND_QUEUE_CAPACITY :: nat where "SEND_QUEUE_CAPACITY = 256"
definition RECV_QUEUE_CAPACITY :: nat where "RECV_QUEUE_CAPACITY = 256"
definition HEARTBEAT_INTERVAL :: duration where "HEARTBEAT_INTERVAL = 2 * 1000"
definition RECONNECT_DELAY_INITIAL :: duration where "RECONNECT_DELAY_INITIAL = 200"
definition RECONNECT_DELAY_MAX :: duration where "RECONNECT_DELAY_MAX = 2 * 1000"
definition INITIAL_CONNECT_TIMEOUT :: duration where "INITIAL_CONNECT_TIMEOUT = 200"
definition STREAM_READY_TIMEOUT :: duration where "STREAM_READY_TIMEOUT = 500"

section \<open>Session state\<close>

datatype log_line =
    LogDisconnected
  | LogReconnected
  | LogOperation string status
  | LogStaleQuery u64
  | LogCallbackPanicked string

record 'ch ConnectionState =
  channel :: "'ch option"
  generation :: u64

record 'ch Inner =
  addr :: ConnectAddr
  client_id :: string
  next_local_handle :: u64
  closed :: bool
  warning_issued :: bool
  connection :: "'ch ConnectionState"
  connection_epoch :: nat
  stderr :: "log_line list"

definition Inner_new :: "ConnectAddr \<Rightarrow> string \<Rightarrow> 'ch Inner" where
  "Inner_new a uuid =
     \<lparr>addr = a, client_id = uuid, next_local_handle = 1, closed = False, warning_issued = False,
      connection = \<lparr>channel = None, generation = 0\<rparr>, connection_epoch = 0, stderr = []\<rparr>"

definition is_closed :: "'ch Inner \<Rightarrow> bool" where
  "is_closed s = closed s"

definition alloc_local_handle :: "'ch Inner \<Rightarrow> u64 \<times> 'ch Inner" where
  "alloc_local_handle s = (next_local_handle s, s\<lparr>next_local_handle := next_local_handle s + 1\<rparr>)"

definition log_line :: "log_line \<Rightarrow> 'ch Inner \<Rightarrow> 'ch Inner" where
  "log_line l s = s\<lparr>stderr := stderr s @ [l]\<rparr>"

definition log_operation_warning :: "string \<Rightarrow> status \<Rightarrow> 'ch Inner \<Rightarrow> 'ch Inner" where
  "log_operation_warning context st = log_line (LogOperation context st)"

definition notify_connection :: "'ch Inner \<Rightarrow> 'ch Inner" where
  "notify_connection s = s\<lparr>connection_epoch := Suc (connection_epoch s)\<rparr>"

definition warn_disconnected_once :: "'ch Inner \<Rightarrow> 'ch Inner" where
  "warn_disconnected_once s =
     (if warning_issued s then s else log_line LogDisconnected (s\<lparr>warning_issued := True\<rparr>))"

definition current_connection :: "'ch Inner \<Rightarrow> ('ch \<times> u64) option" where
  "current_connection s =
     map_option (\<lambda>c. (c, generation (connection s))) (channel (connection s))"

definition set_connected :: "'ch \<Rightarrow> 'ch Inner \<Rightarrow> 'ch Inner" where
  "set_connected c s =
     (let was_disconnected = warning_issued s;
          s1 = s\<lparr>warning_issued := False,
                 connection := \<lparr>channel = Some c, generation = generation (connection s) + 1\<rparr>\<rparr>;
          s2 = (if was_disconnected then log_line LogReconnected s1 else s1)
      in notify_connection s2)"

definition mark_disconnected :: "u64 \<Rightarrow> 'ch Inner \<Rightarrow> 'ch Inner" where
  "mark_disconnected g s =
     (if generation (connection s) = g \<and> channel (connection s) \<noteq> None
      then notify_connection (warn_disconnected_once
             (s\<lparr>connection := (connection s)\<lparr>channel := None\<rparr>\<rparr>))
      else s)"

definition close_session :: "'ch Inner \<Rightarrow> 'ch Inner" where
  "close_session s = notify_connection (s\<lparr>closed := True\<rparr>)"

text \<open>
  \<^verbatim>\<open>GrpcSession::connect\<close> up to the start of the workers: \<open>in_time\<close> says whether the first attempt
  ends before \<open>INITIAL_CONNECT_TIMEOUT\<close>.
\<close>

definition session_connect ::
  "('e, 'ch) transport \<Rightarrow> string \<Rightarrow> bool \<Rightarrow> ConnectAddr \<Rightarrow> 'ch Inner result" where
  "session_connect T uuid in_time a =
     (case validate_connect_addr T a of
        Inl e \<Rightarrow> Inl (Transport e)
      | Inr _ \<Rightarrow>
          Inr (if in_time
               then (case connect_channel T 0 a of
                       Inr c \<Rightarrow> set_connected c (Inner_new a uuid)
                     | Inl _ \<Rightarrow> Inner_new a uuid)
               else Inner_new a uuid))"

section \<open>Waiting for a connection\<close>

text \<open>
  The loop of \<^verbatim>\<open>wait_for_connection_or_closed\<close>. The objects of a session wait on two notifications,
  that of the connection and their own \<^verbatim>\<open>close_notify\<close>, whose epoch is \<open>ce\<close>; \<^verbatim>\<open>select!\<close> picks any
  ready branch, so \<open>pick\<close> is true when it takes the second although both are ready. The result is
  \<open>None\<close> while the loop sleeps.
\<close>

datatype wait_pc = WaitClosed | WaitConnection | WaitRegister | WaitNotified nat nat

datatype 'ch wait_result = WaitMore wait_pc | WaitReturn "('ch \<times> u64) option"

definition wait_step ::
  "bool \<Rightarrow> nat \<Rightarrow> bool \<Rightarrow> 'ch Inner \<Rightarrow> wait_pc \<Rightarrow> 'ch wait_result option" where
  "wait_step closed_now ce pick s pc =
     (case pc of
        WaitClosed \<Rightarrow> Some (if closed_now then WaitReturn None else WaitMore WaitConnection)
      | WaitConnection \<Rightarrow>
          Some (case current_connection s of
                  Some c \<Rightarrow> WaitReturn (Some c)
                | None \<Rightarrow> WaitMore WaitRegister)
      | WaitRegister \<Rightarrow> Some (WaitMore (WaitNotified (connection_epoch s) ce))
      | WaitNotified e e' \<Rightarrow>
          if e' < ce \<and> (pick \<or> \<not> e < connection_epoch s) then Some (WaitReturn None)
          else if e < connection_epoch s then Some (WaitMore WaitClosed)
          else None)"

text \<open>The session's own loop has no second notification.\<close>

definition session_wait_step :: "'ch Inner \<Rightarrow> wait_pc \<Rightarrow> 'ch wait_result option" where
  "session_wait_step s = wait_step (is_closed s) 0 False s"

section \<open>The reconnect worker\<close>

datatype reconnect_pc =
    RcHead | RcCheck | RcRegister | RcNotified nat | RcConnecting | RcBackoff nat | RcDone

record reconnect_worker =
  rc_pc :: reconnect_pc
  rc_delay :: duration

definition reconnect_start :: reconnect_worker where
  "reconnect_start = \<lparr>rc_pc = RcHead, rc_delay = RECONNECT_DELAY_INITIAL\<rparr>"

text \<open>
  \<open>answer\<close> is the result of the pending \<^verbatim>\<open>connect_channel\<close>, \<open>timer\<close> says whether the pending sleep is
  over.
\<close>

definition reconnect_step ::
  "string + 'ch \<Rightarrow> bool \<Rightarrow> reconnect_worker \<times> 'ch Inner \<Rightarrow> (reconnect_worker \<times> 'ch Inner) option" where
  "reconnect_step answer timer ws =
     (let w = fst ws; s = snd ws in
      case rc_pc w of
        RcHead \<Rightarrow> Some (w\<lparr>rc_pc := (if is_closed s then RcDone else RcCheck)\<rparr>, s)
      | RcCheck \<Rightarrow>
          Some (w\<lparr>rc_pc := (if current_connection s \<noteq> None then RcRegister else RcConnecting)\<rparr>, s)
      | RcRegister \<Rightarrow> Some (w\<lparr>rc_pc := RcNotified (connection_epoch s)\<rparr>, s)
      | RcNotified e \<Rightarrow> if e < connection_epoch s then Some (w\<lparr>rc_pc := RcHead\<rparr>, s) else None
      | RcConnecting \<Rightarrow>
          (case answer of
             Inr c \<Rightarrow> Some (\<lparr>rc_pc = RcHead, rc_delay = RECONNECT_DELAY_INITIAL\<rparr>, set_connected c s)
           | Inl _ \<Rightarrow>
               Some (w\<lparr>rc_pc := RcBackoff (connection_epoch s)\<rparr>, warn_disconnected_once s))
      | RcBackoff e \<Rightarrow>
          if timer \<or> e < connection_epoch s
          then Some (\<lparr>rc_pc = RcHead,
                     rc_delay = min (rc_delay w + rc_delay w) RECONNECT_DELAY_MAX\<rparr>, s)
          else None
      | RcDone \<Rightarrow> None)"

section \<open>The heartbeat worker\<close>

datatype 'ch heartbeat_pc = HbTick | HbClosed | HbConnection | HbCalling 'ch u64 | HbDone

text \<open>
  The request of the state \<open>HbCalling c g\<close> is \<open>TouchClient (client_id s)\<close> on channel \<open>c\<close>; \<open>answer\<close> is
  its result.
\<close>

definition heartbeat_step ::
  "unit rpc_result \<Rightarrow> 'ch heartbeat_pc \<times> 'ch Inner \<Rightarrow> ('ch heartbeat_pc \<times> 'ch Inner) option" where
  "heartbeat_step answer ws =
     (let s = snd ws in
      case fst ws of
        HbTick \<Rightarrow> Some (HbClosed, s)
      | HbClosed \<Rightarrow> Some (if is_closed s then HbDone else HbConnection, s)
      | HbConnection \<Rightarrow>
          Some (case current_connection s of None \<Rightarrow> HbTick | Some (c, g) \<Rightarrow> HbCalling c g, s)
      | HbCalling c g \<Rightarrow>
          Some (HbTick,
                case answer of
                  Inl st \<Rightarrow> if is_disconnect_status st then mark_disconnected g s else s
                | Inr _ \<Rightarrow> s)
      | HbDone \<Rightarrow> None)"

end
