(* ===== verification/Server_Leases.thy ===== *)
theory Server_Leases
  imports Server_Refinement Client_Session
begin

text \<open>
  Leases from the point of view of a client: as long as it is heard from often enough, its objects
  survive whatever the other clients and the cleanup task do. \<open>watched\<close> says of a schedule that it
  gives the object with handle \<open>h\<close> of client \<open>c\<close> nothing to end it: at each tick the client was seen
  less than a lease ago, nobody undeclares \<open>h\<close> and nobody cleans up \<open>c\<close>.
\<close>

fun undeclares :: "u64 \<Rightarrow> request \<Rightarrow> bool" where
  "undeclares h (PublisherUndeclare r) = (hreq_handle r = h)"
| "undeclares h (SubscriberUndeclare r) = (hreq_handle r = h)"
| "undeclares h (QueryableUndeclare r) = (hreq_handle r = h)"
| "undeclares h (QuerierUndeclare r) = (hreq_handle r = h)"
| "undeclares h _ = False"

fun cleans_up :: "string \<Rightarrow> request \<Rightarrow> bool" where
  "cleans_up c (CleanupClient c') = (c' = c)"
| "cleans_up c _ = False"

fun watched :: "duration \<Rightarrow> string \<Rightarrow> u64 \<Rightarrow> instant \<Rightarrow> server_event list \<Rightarrow> bool" where
  "watched lease c h seen [] = True"
| "watched lease c h seen (Rpc now r # evs) =
     (\<not> undeclares h r \<and> \<not> cleans_up c r
      \<and> watched lease c h (if requester r = c then now else seen) evs)"
| "watched lease c h seen (Tick now # evs) = (now - seen < lease \<and> watched lease c h seen evs)"
| "watched lease c h seen (_ # evs) = watched lease c h seen evs"

definition watching :: "string \<Rightarrow> u64 \<Rightarrow> obj_kind \<Rightarrow> instant \<Rightarrow> duration \<Rightarrow> 'w PluginState \<Rightarrow> bool" where
  "watching c h k seen lease s \<longleftrightarrow>
     objects s h = Some (k, c) \<and> hm_get (live_clients s) c = Some seen
     \<and> client_lease_duration (config s) = lease"

section \<open>One event\<close>

lemma insert_config [simp]:
  "config (insert_publisher E h p s) = config s" "config (insert_subscriber E h sb s) = config s"
  "config (insert_queryable E h qb s) = config s" "config (insert_querier E h qr s) = config s"
  by (simp_all add: insert_publisher_def insert_subscriber_def insert_queryable_def insert_querier_def)

lemma config_cleanup_all [simp]: "config (fold (cleanup_client E) cs s) = config s"
  by (induction cs arbitrary: s) (simp_all add: cleanup_client_tables)

lemma config_step [simp]: "config (server_step E ev s) = config s"
proof (cases ev)
  case (Rpc now r)
  then show ?thesis
    by (cases r) (auto simp: handlers Let_def case_prod_beta alloc_handle_def awaited_def
        cleanup_client_tables split: option.split sum.split)
qed (simp_all add: cleanup_tick_def subscriber_forward_def queryable_dispatch_def dispatch_store_def
    dispatch_send_def alloc_query_id_def split: option.split)

lemma spec_objects_keeps:
  assumes "m h = Some (k, c)" and "spec_answer r answer m" and "\<not> undeclares h r" and "\<not> cleans_up c r"
  shows "spec_objects r answer m h = Some (k, c)"
  using assms
  by (cases r) (auto simp: forget_object_def forget_client_def add_object_def
      split: option.splits sum.splits response.splits)

lemma forget_clients_keeps:
  "m h = Some (k, c) \<Longrightarrow> c \<notin> set cs \<Longrightarrow> fold forget_client cs m h = Some (k, c)"
  by (induction cs arbitrary: m) (simp_all add: forget_client_def)

lemma request_watching:
  assumes "state_inv s" and "watching c h k seen lease s" and "\<not> undeclares h r" and "\<not> cleans_up c r"
  shows "watching c h k (if requester r = c then now else seen) lease (server_step E (Rpc now r) s)"
proof -
  have "objects (snd (handle_request E now r s)) h = Some (k, c)"
    using assms spec_answer_holds [OF assms(1), of r E now]
    by (simp add: spec_objects_holds spec_objects_keeps watching_def)
  moreover have "hm_get (live_clients (snd (handle_request E now r s))) c =
      (if requester r = c then Some now else Some seen)"
  proof (cases "\<exists>c'. r = CleanupClient c'")
    case True
    with assms(2,4) show ?thesis
      by (auto simp: session_cleanup_client_def cleanup_client_tables watching_def)
  next
    case False
    with request_live [of r E now s] assms(2) show ?thesis by (auto simp: watching_def)
  qed
  ultimately show ?thesis
    using assms(2) config_step [of E "Rpc now r" s] by (simp add: watching_def)
qed

lemma tick_watching:
  assumes "state_inv s" and "watching c h k seen lease s" and "now - seen < lease"
  shows "watching c h k seen lease (server_step E (Tick now) s)"
proof -
  from assms(2,3) have "\<not> stale now s c" by (simp add: watching_def stale_def)
  with assms(2) tick_live [OF assms(1), of E now c] collect_stale [of s c now]
    state_inv_tables(6) [OF assms(1)] config_step [of E "Tick now" s]
  show ?thesis
    by (simp add: watching_def cleanup_tick_def objects_cleanup_all [OF assms(1)] forget_clients_keeps)
qed

lemma arrival_watching:
  assumes "watching c h k seen lease s"
  shows "watching c h k seen lease (server_step E (QueryArrived h' ow tx q) s)"
    "watching c h k seen lease (server_step E (SampleArrived tx z) s)"
  using assms config_step [of E "QueryArrived h' ow tx q" s] config_step [of E "SampleArrived tx z" s]
  by (simp_all add: watching_def objects_dispatch queryable_dispatch_def dispatch_store_def
      dispatch_send_def alloc_query_id_def subscriber_forward_def objects_def split: option.split)

section \<open>Executions\<close>

lemma run_watching:
  assumes "state_inv s" and "unat (next_handle s) + length evs < 2 ^ 64 - 1"
    and "unat (next_query_id s) + length evs < 2 ^ 64 - 1"
  shows "watching c h k seen lease s \<Longrightarrow> watched lease c h seen evs \<Longrightarrow>
    objects (server_run E evs s) h = Some (k, c)"
  using assms
proof (induction arbitrary: seen rule: server_run_induct [where E = E])
  case (Nil s)
  then show ?case by (simp add: watching_def)
next
  case (Cons ev evs s)
  show ?case
  proof (cases ev)
    case (Rpc now r)
    with request_watching [OF Cons.hyps(1) Cons.prems(1), of r now E] Cons.prems(2)
    have "watching c h k (if requester r = c then now else seen) lease (server_step E ev s)" by simp
    from Cons.IH [OF this] Cons.prems(2) Rpc show ?thesis by simp
  next
    case (Tick now)
    with tick_watching [OF Cons.hyps(1) Cons.prems(1), of now E] Cons.prems(2)
    have "watching c h k seen lease (server_step E ev s)" by simp
    from Cons.IH [OF this] Cons.prems(2) Tick show ?thesis by simp
  next
    case (QueryArrived h' ow tx q)
    with arrival_watching(1) [OF Cons.prems(1)] have "watching c h k seen lease (server_step E ev s)"
      by blast
    from Cons.IH [OF this] Cons.prems(2) QueryArrived show ?thesis by simp
  next
    case (SampleArrived tx z)
    with arrival_watching(2) [OF Cons.prems(1)] have "watching c h k seen lease (server_step E ev s)"
      by blast
    from Cons.IH [OF this] Cons.prems(2) SampleArrived show ?thesis by simp
  qed
qed

lemma config_run: "config (server_run E evs s) = config s"
  by (induction evs arbitrary: s) simp_all

lemma watched_mono: "watched d c h seen evs \<Longrightarrow> d \<le> d' \<Longrightarrow> watched d' c h seen evs"
  by (induction d c h seen evs rule: watched.induct) auto


text \<open>Client \<open>a\<close> of the example sends a heartbeat every two seconds, client \<open>b\<close> does not.\<close>

definition beats :: "server_event list" where
  "beats = [Rpc 2000 (TouchClient ''a''), Tick 3500, Rpc 4000 (TouchClient ''a''), Tick 6000,
     Rpc 6500 (TouchClient ''a''), Tick 9000]"


end
