(* ===== verification/Client_Args.thy ===== *)
theory Client_Args
  imports Messages
begin

text \<open>
  The argument structs of the client core (\<^verbatim>\<open>zenoh-grpc-client-rs/src/args.rs\<close>) with their defaults,
  and the requests that the client builds from them. Each request is built in exactly one place of
  \<^verbatim>\<open>lib.rs\<close>: inside the worker or call that sends it. \<open>cid\<close> is the client id of the session, \<open>h\<close> a
  remote handle and \<open>qid\<close> the id of a query.
\<close>

section \<open>Arguments\<close>

record SessionPutArgs =
  pa_key_expr :: string
  pa_payload :: bytes
  pa_encoding :: string
  pa_congestion_control :: i32
  pa_priority :: i32
  pa_express :: bool
  pa_attachment :: bytes
  pa_timestamp :: string
  pa_allowed_destination :: i32

record SessionDeleteArgs =
  da_key_expr :: string
  da_congestion_control :: i32
  da_priority :: i32
  da_express :: bool
  da_attachment :: bytes
  da_timestamp :: string
  da_allowed_destination :: i32

record SessionGetArgs =
  ga_selector :: string
  ga_target :: i32
  ga_consolidation :: i32
  ga_timeout_ms :: u64
  ga_payload :: bytes
  ga_encoding :: string
  ga_attachment :: bytes
  ga_allowed_destination :: i32

record DeclarePublisherArgs =
  dpa_key_expr :: string
  dpa_encoding :: string
  dpa_congestion_control :: i32
  dpa_priority :: i32
  dpa_express :: bool
  dpa_reliability :: i32
  dpa_allowed_destination :: i32

record DeclareSubscriberArgs =
  dsa_key_expr :: string
  dsa_allowed_origin :: i32

record DeclareQueryableArgs =
  dqa_key_expr :: string
  dqa_complete :: bool
  dqa_allowed_origin :: i32

record DeclareQuerierArgs =
  dra_key_expr :: string
  dra_target :: i32
  dra_consolidation :: i32
  dra_timeout_ms :: u64
  dra_allowed_destination :: i32

record PublisherPutArgs =
  ppa_payload :: bytes
  ppa_encoding :: string
  ppa_attachment :: bytes
  ppa_timestamp :: string

record PublisherDeleteArgs =
  pda_attachment :: bytes
  pda_timestamp :: string

record QueryReplyArgs =
  ra_query_id :: u64
  ra_key_expr :: string
  ra_payload :: bytes
  ra_encoding :: string
  ra_attachment :: bytes
  ra_timestamp :: string

record QueryReplyErrArgs =
  rea_query_id :: u64
  rea_payload :: bytes
  rea_encoding :: string

record QueryReplyDeleteArgs =
  rda_query_id :: u64
  rda_key_expr :: string
  rda_attachment :: bytes
  rda_timestamp :: string

record QuerierGetArgs =
  qga_parameters :: string
  qga_payload :: bytes
  qga_encoding :: string
  qga_attachment :: bytes

section \<open>Defaults\<close>

definition SessionPutArgs_default :: SessionPutArgs where
  "SessionPutArgs_default =
    \<lparr>pa_key_expr = [], pa_payload = [], pa_encoding = [], pa_congestion_control = 0, pa_priority
     = 0, pa_express = False, pa_attachment = [], pa_timestamp = [], pa_allowed_destination = 0\<rparr>"

definition SessionDeleteArgs_default :: SessionDeleteArgs where
  "SessionDeleteArgs_default =
    \<lparr>da_key_expr = [], da_congestion_control = 0, da_priority = 0, da_express = False,
     da_attachment = [], da_timestamp = [], da_allowed_destination = 0\<rparr>"

definition SessionGetArgs_default :: SessionGetArgs where
  "SessionGetArgs_default =
    \<lparr>ga_selector = [], ga_target = 0, ga_consolidation = 0, ga_timeout_ms = 0, ga_payload = [],
     ga_encoding = [], ga_attachment = [], ga_allowed_destination = 0\<rparr>"

definition DeclarePublisherArgs_default :: DeclarePublisherArgs where
  "DeclarePublisherArgs_default =
    \<lparr>dpa_key_expr = [], dpa_encoding = [], dpa_congestion_control = 0, dpa_priority = 0,
     dpa_express = False, dpa_reliability = 0, dpa_allowed_destination = 0\<rparr>"

definition DeclareSubscriberArgs_default :: DeclareSubscriberArgs where
  "DeclareSubscriberArgs_default =
    \<lparr>dsa_key_expr = [], dsa_allowed_origin = 0\<rparr>"

definition DeclareQueryableArgs_default :: DeclareQueryableArgs where
  "DeclareQueryableArgs_default =
    \<lparr>dqa_key_expr = [], dqa_complete = False, dqa_allowed_origin = 0\<rparr>"

definition DeclareQuerierArgs_default :: DeclareQuerierArgs where
  "DeclareQuerierArgs_default =
    \<lparr>dra_key_expr = [], dra_target = 0, dra_consolidation = 0, dra_timeout_ms = 0,
     dra_allowed_destination = 0\<rparr>"

definition PublisherPutArgs_default :: PublisherPutArgs where
  "PublisherPutArgs_default =
    \<lparr>ppa_payload = [], ppa_encoding = [], ppa_attachment = [], ppa_timestamp = []\<rparr>"

definition PublisherDeleteArgs_default :: PublisherDeleteArgs where
  "PublisherDeleteArgs_default =
    \<lparr>pda_attachment = [], pda_timestamp = []\<rparr>"

definition QueryReplyArgs_default :: QueryReplyArgs where
  "QueryReplyArgs_default =
    \<lparr>ra_query_id = 0, ra_key_expr = [], ra_payload = [], ra_encoding = [], ra_attachment = [],
     ra_timestamp = []\<rparr>"

definition QueryReplyErrArgs_default :: QueryReplyErrArgs where
  "QueryReplyErrArgs_default =
    \<lparr>rea_query_id = 0, rea_payload = [], rea_encoding = []\<rparr>"

definition QueryReplyDeleteArgs_default :: QueryReplyDeleteArgs where
  "QueryReplyDeleteArgs_default =
    \<lparr>rda_query_id = 0, rda_key_expr = [], rda_attachment = [], rda_timestamp = []\<rparr>"

definition QuerierGetArgs_default :: QuerierGetArgs where
  "QuerierGetArgs_default =
    \<lparr>qga_parameters = [], qga_payload = [], qga_encoding = [], qga_attachment = []\<rparr>"

section \<open>Requests\<close>

definition put_request :: "string \<Rightarrow> SessionPutArgs \<Rightarrow> SessionPutRequest" where
  "put_request cid a =
    \<lparr>sput_client_id = cid, sput_key_expr = pa_key_expr a, sput_payload = pa_payload a,
     sput_encoding = pa_encoding a, sput_congestion_control = pa_congestion_control a,
     sput_priority = pa_priority a, sput_express = pa_express a, sput_attachment = pa_attachment
     a, sput_timestamp = pa_timestamp a, sput_allowed_destination = pa_allowed_destination a\<rparr>"

definition delete_request :: "string \<Rightarrow> SessionDeleteArgs \<Rightarrow> SessionDeleteRequest" where
  "delete_request cid a =
    \<lparr>sdel_client_id = cid, sdel_key_expr = da_key_expr a, sdel_congestion_control =
     da_congestion_control a, sdel_priority = da_priority a, sdel_express = da_express a,
     sdel_attachment = da_attachment a, sdel_timestamp = da_timestamp a, sdel_allowed_destination
     = da_allowed_destination a\<rparr>"

definition get_request :: "string \<Rightarrow> SessionGetArgs \<Rightarrow> SessionGetRequest" where
  "get_request cid a =
    \<lparr>sget_client_id = cid, sget_selector = ga_selector a, sget_target = ga_target a,
     sget_consolidation = ga_consolidation a, sget_timeout_ms = ga_timeout_ms a, sget_payload =
     ga_payload a, sget_encoding = ga_encoding a, sget_attachment = ga_attachment a,
     sget_allowed_destination = ga_allowed_destination a\<rparr>"

definition declare_publisher_request :: "string \<Rightarrow> DeclarePublisherArgs \<Rightarrow> DeclarePublisherRequest" where
  "declare_publisher_request cid a =
    \<lparr>dpub_client_id = cid, dpub_key_expr = dpa_key_expr a, dpub_encoding = dpa_encoding a,
     dpub_congestion_control = dpa_congestion_control a, dpub_priority = dpa_priority a,
     dpub_express = dpa_express a, dpub_reliability = dpa_reliability a, dpub_allowed_destination
     = dpa_allowed_destination a\<rparr>"

definition declare_subscriber_request :: "string \<Rightarrow> DeclareSubscriberArgs \<Rightarrow> DeclareSubscriberRequest" where
  "declare_subscriber_request cid a =
    \<lparr>dsub_client_id = cid, dsub_key_expr = dsa_key_expr a, dsub_allowed_origin =
     dsa_allowed_origin a\<rparr>"

definition declare_queryable_request :: "string \<Rightarrow> DeclareQueryableArgs \<Rightarrow> DeclareQueryableRequest" where
  "declare_queryable_request cid a =
    \<lparr>dqbl_client_id = cid, dqbl_key_expr = dqa_key_expr a, dqbl_complete = dqa_complete a,
     dqbl_allowed_origin = dqa_allowed_origin a\<rparr>"

definition declare_querier_request :: "string \<Rightarrow> DeclareQuerierArgs \<Rightarrow> DeclareQuerierRequest" where
  "declare_querier_request cid a =
    \<lparr>dqr_client_id = cid, dqr_key_expr = dra_key_expr a, dqr_target = dra_target a,
     dqr_consolidation = dra_consolidation a, dqr_timeout_ms = dra_timeout_ms a,
     dqr_allowed_destination = dra_allowed_destination a\<rparr>"

definition publisher_put_request :: "string \<Rightarrow> u64 \<Rightarrow> PublisherPutArgs \<Rightarrow> PublisherPutRequest" where
  "publisher_put_request cid h a =
    \<lparr>pput_client_id = cid, pput_handle = h, pput_payload = ppa_payload a, pput_encoding =
     ppa_encoding a, pput_attachment = ppa_attachment a, pput_timestamp = ppa_timestamp a\<rparr>"

definition publisher_delete_request :: "string \<Rightarrow> u64 \<Rightarrow> PublisherDeleteArgs \<Rightarrow> PublisherDeleteRequest" where
  "publisher_delete_request cid h a =
    \<lparr>pdel_client_id = cid, pdel_handle = h, pdel_attachment = pda_attachment a, pdel_timestamp =
     pda_timestamp a\<rparr>"

definition reply_request :: "string \<Rightarrow> u64 \<Rightarrow> u64 \<Rightarrow> QueryReplyArgs \<Rightarrow> QueryReplyRequest" where
  "reply_request cid h qid a =
    \<lparr>qrep_client_id = cid, qrep_handle = h, qrep_query_id = qid, qrep_key_expr = ra_key_expr a,
     qrep_payload = ra_payload a, qrep_encoding = ra_encoding a, qrep_attachment = ra_attachment
     a, qrep_timestamp = ra_timestamp a\<rparr>"

definition reply_err_request :: "string \<Rightarrow> u64 \<Rightarrow> u64 \<Rightarrow> QueryReplyErrArgs \<Rightarrow> QueryReplyErrRequest" where
  "reply_err_request cid h qid a =
    \<lparr>qerr_client_id = cid, qerr_handle = h, qerr_query_id = qid, qerr_payload = rea_payload a,
     qerr_encoding = rea_encoding a\<rparr>"

definition reply_delete_request :: "string \<Rightarrow> u64 \<Rightarrow> u64 \<Rightarrow> QueryReplyDeleteArgs \<Rightarrow> QueryReplyDeleteRequest" where
  "reply_delete_request cid h qid a =
    \<lparr>qdel_client_id = cid, qdel_handle = h, qdel_query_id = qid, qdel_key_expr = rda_key_expr a,
     qdel_attachment = rda_attachment a, qdel_timestamp = rda_timestamp a\<rparr>"

definition querier_get_request :: "string \<Rightarrow> u64 \<Rightarrow> QuerierGetArgs \<Rightarrow> QuerierGetRequest" where
  "querier_get_request cid h a =
    \<lparr>qget_client_id = cid, qget_handle = h, qget_parameters = qga_parameters a, qget_payload =
     qga_payload a, qget_encoding = qga_encoding a, qget_attachment = qga_attachment a\<rparr>"

end
