(* ===== verification/Client_Worker.thy ===== *)
theory Client_Worker
  imports Queue "HOL-Library.Sublist"
begin

text \<open>
  What the three command workers of the client core have in common (those of the session, of a
  publisher and of a queryable): each takes commands from its drop-oldest queue one at a time, holds
  the command until the server has acknowledged it or it is given up, and marks it as processed once.

  The locale \<open>command_worker\<close> states this as laws of a step function on the whole state of the object
  (queue, worker and shared session state; an input says which actor moves and what it is answered).
  Proved once from them: what the server acknowledges is, in order, a subsequence of what the
  application submitted, and the pending counter counts the commands that are not processed yet.
\<close>

section \<open>Runs\<close>

text \<open>An input for which the addressed actor is blocked leaves the state as it is.\<close>

definition step_or_stay :: "('i \<Rightarrow> 's \<Rightarrow> 's option) \<Rightarrow> 'i \<Rightarrow> 's \<Rightarrow> 's" where
  "step_or_stay step i s = (case step i s of None \<Rightarrow> s | Some s' \<Rightarrow> s')"

fun run_steps :: "('i \<Rightarrow> 's \<Rightarrow> 's option) \<Rightarrow> 'i list \<Rightarrow> 's \<Rightarrow> 's" where
  "run_steps step [] s = s"
| "run_steps step (i # is) s = run_steps step is (step_or_stay step i s)"

text \<open>What the steps of a run let an observer see, \<open>obs i s\<close> for each step that is taken.\<close>

fun run_log :: "('i \<Rightarrow> 's \<Rightarrow> 's option) \<Rightarrow> ('i \<Rightarrow> 's \<Rightarrow> 'o list) \<Rightarrow> 'i list \<Rightarrow> 's \<Rightarrow> 'o list" where
  "run_log step obs [] s = []"
| "run_log step obs (i # is) s =
     (case step i s of None \<Rightarrow> [] | Some _ \<Rightarrow> obs i s) @ run_log step obs is (step_or_stay step i s)"

lemma run_steps_append: "run_steps step (is @ js) s = run_steps step js (run_steps step is s)"
  by (induction "is" arbitrary: s) simp_all

lemma run_steps_invariant:
  assumes "\<And>i s s'. step i s = Some s' \<Longrightarrow> I s \<Longrightarrow> I s'" and "I s"
  shows "I (run_steps step is s)"
  using assms(2)
  by (induction "is" arbitrary: s)
    (auto simp: step_or_stay_def split: option.splits intro: assms(1))

definition held :: "'a option \<Rightarrow> 'a list" where
  "held x = (case x of None \<Rightarrow> [] | Some a \<Rightarrow> [a])"

lemma held_simps [simp]: "held None = []" "held (Some a) = [a]" "held x = [] \<longleftrightarrow> x = None"
  by (simp_all add: held_def split: option.splits)

lemma replicate_small:
  "replicate 3 x = [x, x, x]" "replicate 4 x = [x, x, x, x]" "replicate 6 x = [x, x, x, x, x, x]"
  "replicate 7 x = [x, x, x, x, x, x, x]" "replicate 8 x = [x, x, x, x, x, x, x, x]"
  by (simp_all add: eval_nat_numeral)

section \<open>The contract of a command worker\<close>

locale command_worker =
  fixes step :: "'i \<Rightarrow> 's \<Rightarrow> 's option"
    and ok :: "'s \<Rightarrow> bool"
    and current :: "'s \<Rightarrow> 'cmd option"
    and queued :: "'s \<Rightarrow> 'cmd list"
    and unprocessed :: "'s \<Rightarrow> u64"
    and submitted acked :: "'i \<Rightarrow> 's \<Rightarrow> 'cmd list"
  assumes step_ok: "ok s \<Longrightarrow> step i s = Some s' \<Longrightarrow> ok s'"
    and queued_bound: "ok s \<Longrightarrow> length (queued s) < 2 ^ 64 - 1"
    and step_cases: "ok s \<Longrightarrow> step i s = Some s' \<Longrightarrow>
      (current s' = current s \<and> acked i s = [] \<and> subseq (queued s') (queued s @ submitted i s)
         \<and> unprocessed s' - of_nat (length (queued s')) = unprocessed s - of_nat (length (queued s)))
      \<or> (\<exists>c. current s = None \<and> current s' = Some c \<and> queued s = c # queued s'
         \<and> acked i s = [] \<and> submitted i s = [] \<and> unprocessed s' = unprocessed s)
      \<or> (\<exists>c. current s = Some c \<and> current s' = None \<and> queued s' = queued s
         \<and> submitted i s = [] \<and> (acked i s = [] \<or> acked i s = [c])
         \<and> unprocessed s' = unprocessed s - 1)"
begin

lemma ok_run: "ok s \<Longrightarrow> ok (run_steps step is s)"
  by (rule run_steps_invariant [where step = step and I = ok]) (auto intro: step_ok)

lemma step_order:
  assumes "ok s" and "step i s = Some s'"
  shows "subseq (acked i s @ held (current s') @ queued s')
    (held (current s) @ queued s @ submitted i s)"
  using step_cases [OF assms]
  by (elim disjE exE) (auto intro: list_emb_append_mono)

lemma step_unprocessed:
  assumes "ok s" and "step i s = Some s'"
    and "unprocessed s = of_nat (length (held (current s) @ queued s))"
  shows "unprocessed s' = of_nat (length (held (current s') @ queued s'))"
  using step_cases [OF assms(1,2)] assms(3)
  by (elim disjE exE) (auto simp: diff_eq_eq eq_diff_eq algebra_simps)

text \<open>Whatever the schedule and the answers, acknowledgements follow the order of submission.\<close>

lemma run_order:
  assumes "ok s"
  shows "subseq (run_log step acked is s @ held (current (run_steps step is s))
      @ queued (run_steps step is s))
    (held (current s) @ queued s @ run_log step submitted is s)"
  using assms
proof (induction "is" arbitrary: s)
  case (Cons i "is")
  show ?case
  proof (cases "step i s")
    case None
    with Cons show ?thesis by (simp add: step_or_stay_def)
  next
    case (Some s')
    let ?rest = "run_log step acked is s' @ held (current (run_steps step is s'))
      @ queued (run_steps step is s')"
    from Cons.IH [OF step_ok [OF Cons.prems Some]]
    have "subseq (acked i s @ ?rest)
        (acked i s @ held (current s') @ queued s' @ run_log step submitted is s')"
      by (simp add: subseq_append')
    also have "subseq (acked i s @ held (current s') @ queued s' @ run_log step submitted is s')
        ((held (current s) @ queued s @ submitted i s) @ run_log step submitted is s')"
      using list_emb_append_mono [OF step_order [OF Cons.prems Some]
          subseq_order.order_refl [of "run_log step submitted is s'"]] by simp
    finally show ?thesis using Some by (simp add: step_or_stay_def)
  qed
qed simp

lemma run_unprocessed:
  assumes "ok s" and "unprocessed s = of_nat (length (held (current s) @ queued s))"
  shows "unprocessed (run_steps step is s) =
    of_nat (length (held (current (run_steps step is s)) @ queued (run_steps step is s)))"
  by (rule conjunct2 [OF run_steps_invariant [where step = step
        and I = "\<lambda>s. ok s \<and> unprocessed s = of_nat (length (held (current s) @ queued s))"]])
    (use assms in \<open>auto intro: step_ok dest: step_unprocessed\<close>)

text \<open>From a fresh object: acknowledged commands are submitted ones, in order, each at most once.\<close>

lemma fresh_run:
  assumes "ok s" and "current s = None" and "queued s = []" and "unprocessed s = 0"
  shows "subseq (run_log step acked is s) (run_log step submitted is s)
    \<and> (unprocessed (run_steps step is s) = 0
        \<longrightarrow> current (run_steps step is s) = None \<and> queued (run_steps step is s) = [])"
proof -
  let ?t = "run_steps step is s"
  from run_order [OF assms(1), of "is"] assms(2,3)
  have "subseq (run_log step acked is s @ held (current ?t) @ queued ?t) (run_log step submitted is s)"
    by simp
  then have "subseq (run_log step acked is s) (run_log step submitted is s)"
    by (rule subseq_order.order_trans [rotated]) (simp add: subseq_rev_drop_many)
  moreover have "of_nat (length (held (current ?t) @ queued ?t)) = unprocessed ?t"
    using run_unprocessed [OF assms(1)] assms(2-4) by simp
  moreover have "length (held (current ?t) @ queued ?t) < 2 ^ 64"
    using queued_bound [OF ok_run [OF assms(1), of "is"]] by (cases "current ?t") simp_all
  ultimately show ?thesis
    by (auto dest!: u64_of_nat_eq_0 split: if_splits simp del: length_append)
qed

end

end
