(* ===== verification/Client_Commands.thy ===== *)
theory Client_Commands
  imports Client_Session Client_Args Client_Worker
begin

text \<open>
  The calls of \<^verbatim>\<open>GrpcSession\<close> (\<^verbatim>\<open>zenoh-grpc-client-rs/src/lib.rs\<close>): \<^verbatim>\<open>put\<close> and \<^verbatim>\<open>delete\<close>, which
  submit commands to the session worker, the worker itself, \<^verbatim>\<open>info\<close>, \<^verbatim>\<open>get\<close> with its reply stream, and
  \<^verbatim>\<open>cleanup\<close>. The state of a session with its three workers is \<open>session_sys\<close>; \<open>session_step\<close> lets one
  actor move. The calls that wait for an answer of the server take it as an argument.
\<close>

section \<open>Commands\<close>

datatype SessionCommand = CmdPut SessionPutArgs | CmdDelete SessionDeleteArgs

fun session_request :: "string \<Rightarrow> SessionCommand \<Rightarrow> request" where
  "session_request cid (CmdPut a) = Put (put_request cid a)"
| "session_request cid (CmdDelete a) = Delete (delete_request cid a)"

datatype 'ch session_pc =
    SwRecv
  | SwHead SessionCommand
  | SwWaiting SessionCommand wait_pc
  | SwCalling SessionCommand 'ch u64
  | SwDone

record ('ch, 'c) session_sys =
  ss_inner :: "'ch Inner"
  ss_queue :: "'c drop_oldest"
  ss_worker :: "'ch session_pc"
  ss_reconnect :: reconnect_worker
  ss_heartbeat :: "'ch heartbeat_pc"

definition session_start :: "('c, SessionCommand) flume \<Rightarrow> 'ch Inner \<Rightarrow> ('ch, 'c) session_sys" where
  "session_start F s =
     \<lparr>ss_inner = s, ss_queue = bounded_drop_oldest F SEND_QUEUE_CAPACITY, ss_worker = SwRecv,
      ss_reconnect = reconnect_start, ss_heartbeat = HbTick\<rparr>"

section \<open>The session worker\<close>

text \<open>The end of a command: \<^verbatim>\<open>rx.processed_one()\<close> and back to the queue.\<close>

definition session_processed :: "('ch, 'c) session_sys \<Rightarrow> ('ch, 'c) session_sys" where
  "session_processed S = S\<lparr>ss_queue := processed_one (ss_queue S), ss_worker := SwRecv\<rparr>"

text \<open>
  In the state \<open>SwCalling cmd c g\<close> the request \<open>session_request (client_id s) cmd\<close> is under way on
  channel \<open>c\<close>, read from the connection of generation \<open>g\<close>; \<open>answer\<close> is its result.
\<close>

definition session_worker_step ::
  "('c, SessionCommand) flume \<Rightarrow> unit rpc_result \<Rightarrow> ('ch, 'c) session_sys \<Rightarrow>
   ('ch, 'c) session_sys option" where
  "session_worker_step F answer S =
     (case ss_worker S of
        SwRecv \<Rightarrow>
          (case recv F (ss_queue S) of
             None \<Rightarrow> None
           | Some (Inl _, q) \<Rightarrow> Some (S\<lparr>ss_queue := q, ss_worker := SwDone\<rparr>)
           | Some (Inr cmd, q) \<Rightarrow> Some (S\<lparr>ss_queue := q, ss_worker := SwHead cmd\<rparr>))
      | SwHead cmd \<Rightarrow>
          Some (if is_closed (ss_inner S) then session_processed S
                else S\<lparr>ss_worker := SwWaiting cmd WaitClosed\<rparr>)
      | SwWaiting cmd w \<Rightarrow>
          (case session_wait_step (ss_inner S) w of
             None \<Rightarrow> None
           | Some (WaitMore w') \<Rightarrow> Some (S\<lparr>ss_worker := SwWaiting cmd w'\<rparr>)
           | Some (WaitReturn None) \<Rightarrow> Some (session_processed S)
           | Some (WaitReturn (Some (c, g))) \<Rightarrow> Some (S\<lparr>ss_worker := SwCalling cmd c g\<rparr>))
      | SwCalling cmd c g \<Rightarrow>
          (case answer of
             Inr _ \<Rightarrow> Some (session_processed S)
           | Inl st \<Rightarrow>
               if is_disconnect_status st
               then Some (S\<lparr>ss_inner := mark_disconnected g (ss_inner S), ss_worker := SwHead cmd\<rparr>)
               else Some (session_processed
                      (S\<lparr>ss_inner := log_operation_warning ''session request'' st (ss_inner S)\<rparr>)))
      | SwDone \<Rightarrow> None)"

section \<open>Submitting commands\<close>

text \<open>The result of pushing a command: \<open>None\<close> would be a push that never returns.\<close>

definition submit ::
  "('c, 't) flume \<Rightarrow> string \<Rightarrow> 't \<Rightarrow> 'c drop_oldest \<Rightarrow> (unit result \<times> 'c drop_oldest) option" where
  "submit F closed_message cmd q =
     (case push F cmd q of
        None \<Rightarrow> None
      | Some (Inr _, q') \<Rightarrow> Some (Inr (), q')
      | Some (Inl _, q') \<Rightarrow> Some (Inl (Status (mk_status Unavailable closed_message)), q'))"

context bounded_channel
begin

lemma newest_subseq: "subseq (newest n xs) xs"
  by (simp add: newest_def suffix_imp_subseq suffix_drop)

lemma submit_ok:
  assumes "queue_ok n q" and "submit F m cmd q = Some (r, q')"
  shows "r = Inr ()" and "queue_ok n q'" and "subseq (contents (chan q')) (contents (chan q) @ [cmd])"
    and "pending q' - of_nat (length (contents (chan q'))) = pending q - of_nat (length (contents (chan q)))"
proof -
  from push_queue_ok [OF assms(1), of cmd] obtain q1 where
    "push F cmd q = Some (Inr (), q1)" "queue_ok n q1"
    "contents (chan q1) = newest n (contents (chan q) @ [cmd])"
    "pending q1 - of_nat (length (contents (chan q1))) = pending q - of_nat (length (contents (chan q)))"
    by metis
  with assms(2) show "r = Inr ()" and "queue_ok n q'"
    and "subseq (contents (chan q')) (contents (chan q) @ [cmd])"
    and "pending q' - of_nat (length (contents (chan q'))) = pending q - of_nat (length (contents (chan q)))"
    by (auto simp: submit_def newest_subseq)
qed

end

definition GrpcSession_put ::
  "('c, SessionCommand) flume \<Rightarrow> SessionPutArgs \<Rightarrow> ('ch, 'c) session_sys \<Rightarrow>
   (unit result \<times> ('ch, 'c) session_sys) option" where
  "GrpcSession_put F req S =
     map_option (\<lambda>(r, q). (r, S\<lparr>ss_queue := q\<rparr>))
       (submit F ''session send queue closed'' (CmdPut req) (ss_queue S))"

definition GrpcSession_delete ::
  "('c, SessionCommand) flume \<Rightarrow> SessionDeleteArgs \<Rightarrow> ('ch, 'c) session_sys \<Rightarrow>
   (unit result \<times> ('ch, 'c) session_sys) option" where
  "GrpcSession_delete F req S =
     map_option (\<lambda>(r, q). (r, S\<lparr>ss_queue := q\<rparr>))
       (submit F ''session send queue closed'' (CmdDelete req) (ss_queue S))"

section \<open>The session as a machine\<close>

text \<open>
  The actors of a session: its three workers, the application that submits commands or closes the
  session, and the calls and workers of the session's objects, which report a failed connection
  (\<open>SiFail\<close>), a missing one (\<open>SiWarn\<close>), allocate local handles and print messages.
\<close>

datatype 'ch session_input =
    SiWorker "unit rpc_result"
  | SiReconnect "string + 'ch" bool
  | SiHeartbeat "unit rpc_result"
  | SiPut SessionPutArgs
  | SiDelete SessionDeleteArgs
  | SiFail u64
  | SiWarn
  | SiAlloc
  | SiLog string status
  | SiClose

fun session_step ::
  "('c, SessionCommand) flume \<Rightarrow> 'ch session_input \<Rightarrow> ('ch, 'c) session_sys \<Rightarrow>
   ('ch, 'c) session_sys option" where
  "session_step F (SiWorker answer) S = session_worker_step F answer S"
| "session_step F (SiReconnect answer timer) S =
     map_option (\<lambda>(w, s). S\<lparr>ss_reconnect := w, ss_inner := s\<rparr>)
       (reconnect_step answer timer (ss_reconnect S, ss_inner S))"
| "session_step F (SiHeartbeat answer) S =
     map_option (\<lambda>(w, s). S\<lparr>ss_heartbeat := w, ss_inner := s\<rparr>)
       (heartbeat_step answer (ss_heartbeat S, ss_inner S))"
| "session_step F (SiPut req) S = map_option snd (GrpcSession_put F req S)"
| "session_step F (SiDelete req) S = map_option snd (GrpcSession_delete F req S)"
| "session_step F (SiFail g) S = Some (S\<lparr>ss_inner := mark_disconnected g (ss_inner S)\<rparr>)"
| "session_step F SiWarn S = Some (S\<lparr>ss_inner := warn_disconnected_once (ss_inner S)\<rparr>)"
| "session_step F SiAlloc S = Some (S\<lparr>ss_inner := snd (alloc_local_handle (ss_inner S))\<rparr>)"
| "session_step F (SiLog context st) S =
     Some (S\<lparr>ss_inner := log_operation_warning context st (ss_inner S)\<rparr>)"
| "session_step F SiClose S = Some (S\<lparr>ss_inner := close_session (ss_inner S)\<rparr>)"

section \<open>Session information\<close>

datatype 'ch info_pc = InfoWaiting wait_pc | InfoCalling 'ch u64 | InfoReturned "string result"

definition info_step ::
  "string rpc_result \<Rightarrow> 'ch info_pc \<times> 'ch Inner \<Rightarrow> ('ch info_pc \<times> 'ch Inner) option" where
  "info_step answer ps =
     (let s = snd ps in
      case fst ps of
        InfoWaiting w \<Rightarrow>
          (case session_wait_step s w of
             None \<Rightarrow> None
           | Some (WaitMore w') \<Rightarrow> Some (InfoWaiting w', s)
           | Some (WaitReturn None) \<Rightarrow>
               Some (InfoReturned (Inl (Status (mk_status Unavailable ''session closed''))), s)
           | Some (WaitReturn (Some (c, g))) \<Rightarrow> Some (InfoCalling c g, s))
      | InfoCalling c g \<Rightarrow>
          (case answer of
             Inr zid \<Rightarrow> Some (InfoReturned (Inr zid), s)
           | Inl st \<Rightarrow>
               if is_disconnect_status st then Some (InfoWaiting WaitClosed, mark_disconnected g s)
               else Some (InfoReturned (Inl (Status st)), s))
      | InfoReturned _ \<Rightarrow> None)"

section \<open>Queries and their reply streams\<close>

definition empty_reply_stream :: "('c, pb_Reply) flume \<Rightarrow> 'c drop_oldest" where
  "empty_reply_stream F =
     (let q = bounded_drop_oldest F RECV_QUEUE_CAPACITY in q\<lparr>chan := drop_sender F (chan q)\<rparr>)"

text \<open>
  \<^verbatim>\<open>GrpcSession::get\<close> in two parts. \<open>get_start\<close> reads the connection: without one, the result is an
  empty stream; with one, the request \<open>Get (get_request cid req)\<close> is sent on it. \<open>get_answer\<close> is what
  follows the answer: an error, an empty stream, or a stream whose pump runs in the background.
\<close>

datatype ('ch, 'r) started = StartCall 'ch u64 | StartReturn 'r

definition get_start ::
  "('c, pb_Reply) flume \<Rightarrow> 'ch Inner \<Rightarrow> ('ch, 'c drop_oldest) started \<times> 'ch Inner" where
  "get_start F s =
     (case current_connection s of
        None \<Rightarrow> (StartReturn (empty_reply_stream F), warn_disconnected_once s)
      | Some (c, g) \<Rightarrow> (StartCall c g, s))"

datatype 'c reply_stream = ReplyStream "'c drop_oldest" bool

definition get_answer ::
  "('c, pb_Reply) flume \<Rightarrow> u64 \<Rightarrow> unit rpc_result \<Rightarrow> 'ch Inner \<Rightarrow> 'c reply_stream result \<times> 'ch Inner" where
  "get_answer F g answer s =
     (case answer of
        Inr _ \<Rightarrow> (Inr (ReplyStream (bounded_drop_oldest F RECV_QUEUE_CAPACITY) True), s)
      | Inl st \<Rightarrow>
          if is_disconnect_status st
          then (Inr (ReplyStream (empty_reply_stream F) False), mark_disconnected g s)
          else (Inl (Status st), s))"

text \<open>The messages of a response stream, and the task that moves replies into the queue.\<close>

datatype 't message = MsgItem 't | MsgEnd | MsgErr status

definition reply_pump_step ::
  "('c, pb_Reply) flume \<Rightarrow> u64 \<Rightarrow> pb_Reply message \<Rightarrow> 'c reply_stream \<times> 'ch Inner \<Rightarrow>
   ('c reply_stream \<times> 'ch Inner) option" where
  "reply_pump_step F g msg rs =
     (case rs of
        (ReplyStream q False, s) \<Rightarrow> None
      | (ReplyStream q True, s) \<Rightarrow>
          (case msg of
             MsgItem reply \<Rightarrow>
               (case push F reply q of None \<Rightarrow> None | Some (_, q') \<Rightarrow> Some (ReplyStream q' True, s))
           | MsgEnd \<Rightarrow> Some (ReplyStream (q\<lparr>chan := drop_sender F (chan q)\<rparr>) False, s)
           | MsgErr st \<Rightarrow>
               Some (ReplyStream (q\<lparr>chan := drop_sender F (chan q)\<rparr>) False,
                     if is_disconnect_status st then mark_disconnected g s else s)))"

definition reply_closed :: Error where
  "reply_closed = Status (mk_status Unavailable ''reply stream closed'')"

definition ReplyStream_recv ::
  "('c, pb_Reply) flume \<Rightarrow> 'c drop_oldest \<Rightarrow> (pb_Reply result \<times> 'c drop_oldest) option" where
  "ReplyStream_recv F q =
     map_option (\<lambda>(r, q'). (case r of Inr x \<Rightarrow> Inr x | Inl _ \<Rightarrow> Inl reply_closed, q')) (recv F q)"

definition ReplyStream_try_recv ::
  "('c, pb_Reply) flume \<Rightarrow> 'c drop_oldest \<Rightarrow> pb_Reply option result \<times> 'c drop_oldest" where
  "ReplyStream_try_recv F q =
     (case try_recv F q of
        (RecvOk reply, q') \<Rightarrow> (Inr (Some reply), q')
      | (RecvEmpty, q') \<Rightarrow> (Inr None, q')
      | (RecvDisconnected, q') \<Rightarrow> (Inl reply_closed, q'))"

definition ReplyStream_is_closed :: "('c, pb_Reply) flume \<Rightarrow> 'c drop_oldest \<Rightarrow> bool" where
  "ReplyStream_is_closed F q = is_disconnected F q"

section \<open>Closing a session\<close>

datatype 'ch cleanup_pc =
    ClStart | ClWaitEmpty | ClConnection | ClCalling 'ch u64 | ClReturned "unit result"

text \<open>
  \<^verbatim>\<open>wait_empty\<close> passes when it reads a pending counter of zero. The request of \<open>ClCalling c g\<close> is
  \<open>CleanupClient (client_id s)\<close>.
\<close>

definition cleanup_step ::
  "unit rpc_result \<Rightarrow> 'ch cleanup_pc \<times> ('ch, 'c) session_sys \<Rightarrow>
   ('ch cleanup_pc \<times> ('ch, 'c) session_sys) option" where
  "cleanup_step answer ps =
     (let S = snd ps in
      case fst ps of
        ClStart \<Rightarrow> Some (ClWaitEmpty, S\<lparr>ss_inner := close_session (ss_inner S)\<rparr>)
      | ClWaitEmpty \<Rightarrow> if pending (ss_queue S) = 0 then Some (ClConnection, S) else None
      | ClConnection \<Rightarrow>
          Some (case current_connection (ss_inner S) of
                  None \<Rightarrow> ClReturned (Inr ())
                | Some (c, g) \<Rightarrow> ClCalling c g, S)
      | ClCalling c g \<Rightarrow>
          (case answer of
             Inr _ \<Rightarrow> Some (ClReturned (Inr ()), S)
           | Inl st \<Rightarrow>
               if is_disconnect_status st
               then Some (ClReturned (Inr ()), S\<lparr>ss_inner := mark_disconnected g (ss_inner S)\<rparr>)
               else Some (ClReturned (Inl (Status st)), S))
      | ClReturned _ \<Rightarrow> None)"

text \<open>
  \<^verbatim>\<open>Drop for GrpcSession\<close>: only the last owner of the shared state closes the session; the second
  component is the cleanup request that is sent, if any, with its channel.
\<close>

definition GrpcSession_drop ::
  "nat \<Rightarrow> 'ch Inner \<Rightarrow> 'ch Inner \<times> ('ch \<times> request) option" where
  "GrpcSession_drop strong_count s =
     (if strong_count \<noteq> 1 then (s, None)
      else let s' = close_session s in
        (s', map_option (\<lambda>(c, _). (c, CleanupClient (client_id s'))) (current_connection s')))"

end
