(* ===== verification/Client_Binding.thy ===== *)
theory Client_Binding
  imports Client_Commands
begin

text \<open>
  The binding of a declared object of the client core to its remote handle, which publishers,
  subscribers, queryables and queriers share: \<^verbatim>\<open>ensure_remote_handle\<close>, \<^verbatim>\<open>invalidate_handle\<close>,
  \<^verbatim>\<open>take_handle\<close> and the last part of \<^verbatim>\<open>undeclare\<close> (\<^verbatim>\<open>zenoh-grpc-client-rs/src/lib.rs\<close>).

  The binding is behind a \<^verbatim>\<open>Mutex\<close> that \<^verbatim>\<open>ensure_remote_handle\<close> holds while it waits for the server:
  \<open>b_locked\<close>. An operation that needs the lock is blocked (\<open>None\<close>) while another one holds it.
\<close>

record RemoteBinding =
  b_handle :: "u64 option"
  b_generation :: u64
  b_locked :: bool

definition binding_new :: RemoteBinding where
  "binding_new = \<lparr>b_handle = None, b_generation = 0, b_locked = False\<rparr>"

text \<open>
  \<^verbatim>\<open>ensure_remote_handle\<close> up to its request, and from the answer on: a bound handle is returned as it
  is, otherwise the object is declared and the answer is stored with the generation of the
  connection.
\<close>

definition ensure_start :: "RemoteBinding \<Rightarrow> (u64 option \<times> RemoteBinding) option" where
  "ensure_start b =
     (if b_locked b then None
      else Some (b_handle b, case b_handle b of Some _ \<Rightarrow> b | None \<Rightarrow> b\<lparr>b_locked := True\<rparr>))"

definition ensure_answer :: "u64 \<Rightarrow> u64 rpc_result \<Rightarrow> RemoteBinding \<Rightarrow> RemoteBinding" where
  "ensure_answer g answer b =
     (case answer of
        Inr h \<Rightarrow> \<lparr>b_handle = Some h, b_generation = g, b_locked = False\<rparr>
      | Inl _ \<Rightarrow> b\<lparr>b_locked := False\<rparr>)"

definition invalidate_handle :: "u64 \<Rightarrow> RemoteBinding \<Rightarrow> RemoteBinding option" where
  "invalidate_handle h b =
     (if b_locked b then None
      else Some (if b_handle b = Some h then b\<lparr>b_handle := None\<rparr> else b))"

definition take_handle :: "RemoteBinding \<Rightarrow> (u64 option \<times> RemoteBinding) option" where
  "take_handle b = (if b_locked b then None else Some (b_handle b, b\<lparr>b_handle := None\<rparr>))"

section \<open>Undeclaring\<close>

datatype 'ch undeclare_pc =
    UnIdle
  | UnWaitEmpty
  | UnClose
  | UnTake
  | UnConnection "u64 option"
  | UnCalling 'ch u64 u64
  | UnReturned "unit result"

text \<open>
  The part of \<^verbatim>\<open>undeclare\<close> that all four objects share, from \<^verbatim>\<open>take_handle\<close> on. The request of the state
  \<open>UnCalling c g h\<close> is the undeclaration of \<open>h\<close> on channel \<open>c\<close>. A failure that means the server
  has lost the object, or the client the server, is not an error.
\<close>

definition undeclare_tail ::
  "unit rpc_result \<Rightarrow> 'ch undeclare_pc \<times> RemoteBinding \<times> 'ch Inner \<Rightarrow>
   ('ch undeclare_pc \<times> RemoteBinding \<times> 'ch Inner) option" where
  "undeclare_tail answer st =
     (case st of
        (UnTake, b, s) \<Rightarrow>
          (case take_handle b of None \<Rightarrow> None | Some (h, b') \<Rightarrow> Some (UnConnection h, b', s))
      | (UnConnection h, b, s) \<Rightarrow>
          (case (h, current_connection s) of
             (Some h', Some (c, g)) \<Rightarrow> Some (UnCalling c g h', b, s)
           | _ \<Rightarrow> Some (UnReturned (Inr ()), b, s))
      | (UnCalling c g h, b, s) \<Rightarrow>
          (case answer of
             Inr _ \<Rightarrow> Some (UnReturned (Inr ()), b, s)
           | Inl e \<Rightarrow>
               if is_disconnect_status e then Some (UnReturned (Inr ()), b, mark_disconnected g s)
               else if is_stale_status e then Some (UnReturned (Inr ()), b, s)
               else Some (UnReturned (Inl (Status e)), b, s))
      | _ \<Rightarrow> None)"

end
