(* ===== verification/Client_Publisher.thy ===== *)
theory Client_Publisher
  imports Client_Binding
begin

text \<open>
  The publisher of the client core (\<^verbatim>\<open>PublisherInner\<close> and \<^verbatim>\<open>GrpcPublisher\<close> of
  \<^verbatim>\<open>zenoh-grpc-client-rs/src/lib.rs\<close>): \<^verbatim>\<open>put\<close> and \<^verbatim>\<open>delete\<close> submit commands, the worker declares the
  publisher on the server when it has no handle and sends the commands one at a time, \<^verbatim>\<open>undeclare\<close>
  waits for the queue and gives the handle back. The session's state may be changed at any time by
  its other objects and workers: \<open>PiSession\<close> replaces it by any state.
\<close>

datatype PublisherCommand = PubPut PublisherPutArgs | PubDelete PublisherDeleteArgs

record PublisherInner =
  pub_local_handle :: u64
  pub_args :: DeclarePublisherArgs
  pub_binding :: RemoteBinding
  pub_closed :: bool
  pub_close_epoch :: nat

datatype 'ch publisher_pc =
    PwRecv
  | PwHead PublisherCommand
  | PwWaiting PublisherCommand wait_pc
  | PwEnsure PublisherCommand 'ch u64
  | PwDeclaring PublisherCommand 'ch u64
  | PwCalling PublisherCommand 'ch u64 u64
  | PwInvalidate PublisherCommand u64
  | PwDone

record ('ch, 'c) publisher_sys =
  ps_session :: "'ch Inner"
  ps_inner :: PublisherInner
  ps_queue :: "'c drop_oldest"
  ps_worker :: "'ch publisher_pc"
  ps_undeclare :: "'ch undeclare_pc"

fun publisher_request :: "string \<Rightarrow> u64 \<Rightarrow> PublisherCommand \<Rightarrow> request" where
  "publisher_request cid h (PubPut a) = PublisherPut (publisher_put_request cid h a)"
| "publisher_request cid h (PubDelete a) = PublisherDelete (publisher_delete_request cid h a)"

text \<open>\<^verbatim>\<open>GrpcSession::declare_publisher\<close>: nothing is sent yet.\<close>

definition GrpcSession_declare_publisher ::
  "('c, PublisherCommand) flume \<Rightarrow> DeclarePublisherArgs \<Rightarrow> 'ch Inner \<Rightarrow> ('ch, 'c) publisher_sys" where
  "GrpcSession_declare_publisher F req s =
     (let (h, s') = alloc_local_handle s in
      \<lparr>ps_session = s',
       ps_inner = \<lparr>pub_local_handle = h, pub_args = req, pub_binding = binding_new,
                   pub_closed = False, pub_close_epoch = 0\<rparr>,
       ps_queue = bounded_drop_oldest F SEND_QUEUE_CAPACITY,
       ps_worker = PwRecv,
       ps_undeclare = UnIdle\<rparr>)"

definition publisher_is_closed :: "('ch, 'c) publisher_sys \<Rightarrow> bool" where
  "publisher_is_closed S \<longleftrightarrow> pub_closed (ps_inner S) \<or> is_closed (ps_session S)"

definition set_pub_binding :: "RemoteBinding \<Rightarrow> ('ch, 'c) publisher_sys \<Rightarrow> ('ch, 'c) publisher_sys" where
  "set_pub_binding b S = S\<lparr>ps_inner := (ps_inner S)\<lparr>pub_binding := b\<rparr>\<rparr>"

definition publisher_processed :: "('ch, 'c) publisher_sys \<Rightarrow> ('ch, 'c) publisher_sys" where
  "publisher_processed S = S\<lparr>ps_queue := processed_one (ps_queue S), ps_worker := PwRecv\<rparr>"

section \<open>The worker\<close>

text \<open>
  The request that the worker waits for: the declaration in \<open>PwDeclaring\<close>, the command in
  \<open>PwCalling\<close>.
\<close>

definition publisher_call :: "('ch, 'c) publisher_sys \<Rightarrow> ('ch \<times> request) option" where
  "publisher_call S =
     (let cid = client_id (ps_session S) in
      case ps_worker S of
        PwDeclaring cmd c g \<Rightarrow>
          Some (c, DeclarePublisher (declare_publisher_request cid (pub_args (ps_inner S))))
      | PwCalling cmd c g h \<Rightarrow> Some (c, publisher_request cid h cmd)
      | _ \<Rightarrow> None)"

text \<open>
  \<open>handle_answer\<close> and \<open>answer\<close> are the results of these requests, \<open>pick\<close> is the choice of \<^verbatim>\<open>select!\<close> in
  the waiting loop.
\<close>

definition publisher_worker_step ::
  "('c, PublisherCommand) flume \<Rightarrow> bool \<Rightarrow> u64 rpc_result \<Rightarrow> unit rpc_result \<Rightarrow>
   ('ch, 'c) publisher_sys \<Rightarrow> ('ch, 'c) publisher_sys option" where
  "publisher_worker_step F pick handle_answer answer S =
     (case ps_worker S of
        PwRecv \<Rightarrow>
          (case recv F (ps_queue S) of
             None \<Rightarrow> None
           | Some (Inl _, q) \<Rightarrow> Some (S\<lparr>ps_queue := q, ps_worker := PwDone\<rparr>)
           | Some (Inr cmd, q) \<Rightarrow> Some (S\<lparr>ps_queue := q, ps_worker := PwHead cmd\<rparr>))
      | PwHead cmd \<Rightarrow>
          Some (if publisher_is_closed S then publisher_processed S
                else S\<lparr>ps_worker := PwWaiting cmd WaitClosed\<rparr>)
      | PwWaiting cmd w \<Rightarrow>
          (case wait_step (publisher_is_closed S) (pub_close_epoch (ps_inner S)) pick (ps_session S) w of
             None \<Rightarrow> None
           | Some (WaitMore w') \<Rightarrow> Some (S\<lparr>ps_worker := PwWaiting cmd w'\<rparr>)
           | Some (WaitReturn None) \<Rightarrow> Some (publisher_processed S)
           | Some (WaitReturn (Some (c, g))) \<Rightarrow> Some (S\<lparr>ps_worker := PwEnsure cmd c g\<rparr>))
      | PwEnsure cmd c g \<Rightarrow>
          (case ensure_start (pub_binding (ps_inner S)) of
             None \<Rightarrow> None
           | Some (Some h, b) \<Rightarrow> Some (S\<lparr>ps_worker := PwCalling cmd c g h\<rparr>)
           | Some (None, b) \<Rightarrow> Some (set_pub_binding b S\<lparr>ps_worker := PwDeclaring cmd c g\<rparr>))
      | PwDeclaring cmd c g \<Rightarrow>
          (let S1 = set_pub_binding (ensure_answer g handle_answer (pub_binding (ps_inner S))) S in
           case handle_answer of
             Inr h \<Rightarrow> Some (S1\<lparr>ps_worker := PwCalling cmd c g h\<rparr>)
           | Inl st \<Rightarrow>
               if is_disconnect_status st
               then Some (S1\<lparr>ps_session := mark_disconnected g (ps_session S1), ps_worker := PwHead cmd\<rparr>)
               else Some (publisher_processed
                      (S1\<lparr>ps_session := log_operation_warning ''publisher declare'' st (ps_session S1)\<rparr>)))
      | PwCalling cmd c g h \<Rightarrow>
          (case answer of
             Inr _ \<Rightarrow> Some (publisher_processed S)
           | Inl st \<Rightarrow>
               if is_disconnect_status st
               then Some (S\<lparr>ps_session := mark_disconnected g (ps_session S), ps_worker := PwHead cmd\<rparr>)
               else if is_stale_status st then Some (S\<lparr>ps_worker := PwInvalidate cmd h\<rparr>)
               else Some (publisher_processed
                      (S\<lparr>ps_session := log_operation_warning ''publisher request'' st (ps_session S)\<rparr>)))
      | PwInvalidate cmd h \<Rightarrow>
          (case invalidate_handle h (pub_binding (ps_inner S)) of
             None \<Rightarrow> None
           | Some b \<Rightarrow> Some (set_pub_binding b S\<lparr>ps_worker := PwHead cmd\<rparr>))
      | PwDone \<Rightarrow> None)"

section \<open>The calls of the application\<close>

definition GrpcPublisher_put ::
  "('c, PublisherCommand) flume \<Rightarrow> PublisherPutArgs \<Rightarrow> ('ch, 'c) publisher_sys \<Rightarrow>
   (unit result \<times> ('ch, 'c) publisher_sys) option" where
  "GrpcPublisher_put F req S =
     map_option (\<lambda>(r, q). (r, S\<lparr>ps_queue := q\<rparr>))
       (submit F ''publisher send queue closed'' (PubPut req) (ps_queue S))"

definition GrpcPublisher_delete ::
  "('c, PublisherCommand) flume \<Rightarrow> PublisherDeleteArgs \<Rightarrow> ('ch, 'c) publisher_sys \<Rightarrow>
   (unit result \<times> ('ch, 'c) publisher_sys) option" where
  "GrpcPublisher_delete F req S =
     map_option (\<lambda>(r, q). (r, S\<lparr>ps_queue := q\<rparr>))
       (submit F ''publisher send queue closed'' (PubDelete req) (ps_queue S))"

text \<open>The steps of \<^verbatim>\<open>undeclare\<close>: it waits for the queue first and closes the publisher then.\<close>

definition publisher_undeclare_step ::
  "unit rpc_result \<Rightarrow> ('ch, 'c) publisher_sys \<Rightarrow> ('ch, 'c) publisher_sys option" where
  "publisher_undeclare_step answer S =
     (case ps_undeclare S of
        UnIdle \<Rightarrow> Some (S\<lparr>ps_undeclare := UnWaitEmpty\<rparr>)
      | UnWaitEmpty \<Rightarrow>
          if pending (ps_queue S) = 0 then Some (S\<lparr>ps_undeclare := UnClose\<rparr>) else None
      | UnClose \<Rightarrow>
          Some (S\<lparr>ps_inner := (ps_inner S)\<lparr>pub_closed := True,
                   pub_close_epoch := Suc (pub_close_epoch (ps_inner S))\<rparr>,
                  ps_undeclare := UnTake\<rparr>)
      | pc \<Rightarrow>
          map_option (\<lambda>(pc', b, s). set_pub_binding b S\<lparr>ps_session := s, ps_undeclare := pc'\<rparr>)
            (undeclare_tail answer (pc, pub_binding (ps_inner S), ps_session S)))"

section \<open>The publisher as a machine\<close>

datatype 'ch publisher_input =
    PiWorker bool "u64 rpc_result" "unit rpc_result"
  | PiPut PublisherPutArgs
  | PiDelete PublisherDeleteArgs
  | PiUndeclare "unit rpc_result"
  | PiSession "'ch Inner"

fun publisher_step ::
  "('c, PublisherCommand) flume \<Rightarrow> 'ch publisher_input \<Rightarrow> ('ch, 'c) publisher_sys \<Rightarrow>
   ('ch, 'c) publisher_sys option" where
  "publisher_step F (PiWorker pick ha a) S = publisher_worker_step F pick ha a S"
| "publisher_step F (PiPut req) S = map_option snd (GrpcPublisher_put F req S)"
| "publisher_step F (PiDelete req) S = map_option snd (GrpcPublisher_delete F req S)"
| "publisher_step F (PiUndeclare a) S = publisher_undeclare_step a S"
| "publisher_step F (PiSession s) S = Some (S\<lparr>ps_session := s\<rparr>)"

section \<open>The publisher is a command worker\<close>

fun publisher_current :: "'ch publisher_pc \<Rightarrow> PublisherCommand option" where
  "publisher_current PwRecv = None"
| "publisher_current PwDone = None"
| "publisher_current (PwHead cmd) = Some cmd"
| "publisher_current (PwWaiting cmd _) = Some cmd"
| "publisher_current (PwEnsure cmd _ _) = Some cmd"
| "publisher_current (PwDeclaring cmd _ _) = Some cmd"
| "publisher_current (PwCalling cmd _ _ _) = Some cmd"
| "publisher_current (PwInvalidate cmd _) = Some cmd"

fun publisher_submitted :: "'ch publisher_input \<Rightarrow> ('ch, 'c) publisher_sys \<Rightarrow> PublisherCommand list" where
  "publisher_submitted (PiPut req) S = [PubPut req]"
| "publisher_submitted (PiDelete req) S = [PubDelete req]"
| "publisher_submitted _ S = []"

fun publisher_acked :: "'ch publisher_input \<Rightarrow> ('ch, 'c) publisher_sys \<Rightarrow> PublisherCommand list" where
  "publisher_acked (PiWorker pick ha (Inr u)) S = (case ps_worker S of PwCalling cmd _ _ _ \<Rightarrow> [cmd] | _ \<Rightarrow> [])"
| "publisher_acked _ S = []"

lemmas publisher_steps = publisher_worker_step_def publisher_processed_def set_pub_binding_def
  GrpcPublisher_put_def GrpcPublisher_delete_def publisher_undeclare_step_def

locale publisher_channel = bounded_channel F contents capacity receivers senders
  for F :: "('c, PublisherCommand) flume" and contents capacity receivers senders

sublocale publisher_channel \<subseteq> pw: command_worker "publisher_step F"
  "\<lambda>S. queue_ok SEND_QUEUE_CAPACITY (ps_queue S)" "\<lambda>S. publisher_current (ps_worker S)"
  "\<lambda>S. contents (chan (ps_queue S))" "\<lambda>S. pending (ps_queue S)" publisher_submitted publisher_acked
proof
  fix S :: "('b, 'c) publisher_sys"
  assume "queue_ok SEND_QUEUE_CAPACITY (ps_queue S)"
  then show "length (contents (chan (ps_queue S))) < 2 ^ 64 - 1"
    by (simp add: queue_ok_def SEND_QUEUE_CAPACITY_def)
next
  fix i and S S' :: "('b, 'c) publisher_sys"
  assume ok: "queue_ok SEND_QUEUE_CAPACITY (ps_queue S)" and step: "publisher_step F i S = Some S'"
  show "queue_ok SEND_QUEUE_CAPACITY (ps_queue S')"
    using ok step
    by (cases i) (auto simp: publisher_steps Let_def dest: submit_ok(2) [OF ok]
      split: publisher_pc.splits undeclare_pc.splits sum.splits if_splits option.splits
        wait_result.splits,
      (blast intro: queue_ok_recv [OF ok])+)
  show "(publisher_current (ps_worker S') = publisher_current (ps_worker S) \<and> publisher_acked i S = []
       \<and> subseq (contents (chan (ps_queue S'))) (contents (chan (ps_queue S)) @ publisher_submitted i S)
       \<and> pending (ps_queue S') - of_nat (length (contents (chan (ps_queue S')))) =
           pending (ps_queue S) - of_nat (length (contents (chan (ps_queue S)))))
    \<or> (\<exists>c. publisher_current (ps_worker S) = None \<and> publisher_current (ps_worker S') = Some c
       \<and> contents (chan (ps_queue S)) = c # contents (chan (ps_queue S')) \<and> publisher_acked i S = []
       \<and> publisher_submitted i S = [] \<and> pending (ps_queue S') = pending (ps_queue S))
    \<or> (\<exists>c. publisher_current (ps_worker S) = Some c \<and> publisher_current (ps_worker S') = None
       \<and> contents (chan (ps_queue S')) = contents (chan (ps_queue S)) \<and> publisher_submitted i S = []
       \<and> (publisher_acked i S = [] \<or> publisher_acked i S = [c])
       \<and> pending (ps_queue S') = pending (ps_queue S) - 1)"
  proof (cases i)
    case (PiPut req)
    with step submit_ok [OF ok] show ?thesis by (auto simp: publisher_steps)
  next
    case (PiDelete req)
    with step submit_ok [OF ok] show ?thesis by (auto simp: publisher_steps)
  next
    case (PiWorker pick ha answer)
    with step show ?thesis
      by (cases answer) (auto simp: publisher_steps processed_one_def Let_def dest!: recv_Inr recv_Inl
        split: publisher_pc.splits if_splits option.splits wait_result.splits sum.splits)
  next
    case (PiUndeclare a)
    with step show ?thesis by (auto simp: publisher_steps split: undeclare_pc.splits if_splits)
  qed (use step in auto)
qed

context publisher_channel
begin

lemma publisher_order:
  assumes "S0 = GrpcSession_declare_publisher F req s0" and "S = run_steps (publisher_step F) is S0"
  shows "subseq (run_log (publisher_step F) publisher_acked is S0)
      (run_log (publisher_step F) publisher_submitted is S0)
    \<and> (pending (ps_queue S) = 0 \<longrightarrow>
        publisher_current (ps_worker S) = None \<and> contents (chan (ps_queue S)) = [])"
proof -
  have "queue_ok SEND_QUEUE_CAPACITY (ps_queue S0)" "contents (chan (ps_queue S0)) = []"
    "pending (ps_queue S0) = 0" "publisher_current (ps_worker S0) = None"
    using bounded_new queue_ok_new [of SEND_QUEUE_CAPACITY]
    by (simp_all add: assms(1) GrpcSession_declare_publisher_def Let_def case_prod_beta
        bounded_drop_oldest_def SEND_QUEUE_CAPACITY_def)
  then show ?thesis unfolding assms(2) by (intro pw.fresh_run) simp_all
qed

end

interpretation publisher_fifo: publisher_channel fifo_flume items fifo_cap "\<lambda>c. n_receivers c \<noteq> 0" n_senders
  by (rule publisher_channel.intro) (rule fifo.bounded_channel_axioms)

text \<open>
  C8: whatever happens to the connection, the server and the session, the server acknowledges the
  commands of a publisher in the order in which the application submitted them, each at most once;
  when the pending counter is zero (what \<^verbatim>\<open>undeclare\<close> waits for) no command is left.
\<close>

theorem publisher_commands_in_order:
  assumes "bounded_channel F contents capacity receivers senders"
    and "S0 = GrpcSession_declare_publisher F req s0" and "S = run_steps (publisher_step F) is S0"
  shows "subseq (run_log (publisher_step F) publisher_acked is S0)
      (run_log (publisher_step F) publisher_submitted is S0)
    \<and> (pending (ps_queue S) = 0 \<longrightarrow>
        publisher_current (ps_worker S) = None \<and> contents (chan (ps_queue S)) = [])"
  by (rule publisher_channel.publisher_order [OF publisher_channel.intro [OF assms(1)] assms(2,3)])

section \<open>Remote handles\<close>

fun publisher_declared :: "'ch publisher_input \<Rightarrow> ('ch, 'c) publisher_sys \<Rightarrow> u64 list" where
  "publisher_declared (PiWorker pick (Inr h) a) S = (case ps_worker S of PwDeclaring _ _ _ \<Rightarrow> [h] | _ \<Rightarrow> [])"
| "publisher_declared _ S = []"

fun worker_handles :: "'ch publisher_pc \<Rightarrow> u64 set" where
  "worker_handles (PwCalling _ _ _ h) = {h}"
| "worker_handles (PwInvalidate _ h) = {h}"
| "worker_handles _ = {}"

fun undeclare_handles :: "'ch undeclare_pc \<Rightarrow> u64 set" where
  "undeclare_handles (UnConnection h) = set_option h"
| "undeclare_handles (UnCalling _ _ h) = {h}"
| "undeclare_handles _ = {}"

definition publisher_handles :: "('ch, 'c) publisher_sys \<Rightarrow> u64 set" where
  "publisher_handles S =
     set_option (b_handle (pub_binding (ps_inner S))) \<union> worker_handles (ps_worker S)
     \<union> undeclare_handles (ps_undeclare S)"

lemma worker_handles_step:
  assumes "publisher_worker_step F pick ha a S = Some S'"
  shows "ps_undeclare S' = ps_undeclare S"
    and "set_option (b_handle (pub_binding (ps_inner S'))) \<union> worker_handles (ps_worker S') \<subseteq>
      set_option (b_handle (pub_binding (ps_inner S))) \<union> worker_handles (ps_worker S)
      \<union> set (publisher_declared (PiWorker pick ha a) S)"
proof -
  show "ps_undeclare S' = ps_undeclare S"
    using assms by (auto simp: publisher_steps Let_def split: publisher_pc.splits option.splits
        sum.splits if_splits wait_result.splits)
  show "set_option (b_handle (pub_binding (ps_inner S'))) \<union> worker_handles (ps_worker S') \<subseteq>
      set_option (b_handle (pub_binding (ps_inner S))) \<union> worker_handles (ps_worker S)
      \<union> set (publisher_declared (PiWorker pick ha a) S)"
    using assms
    by (cases "ps_worker S"; cases ha)
      (auto simp: publisher_steps Let_def ensure_start_def ensure_answer_def invalidate_handle_def
        split: option.splits sum.splits if_splits wait_result.splits)
qed

lemma publisher_handles_step:
  assumes "publisher_step F i S = Some S'"
  shows "publisher_handles S' \<subseteq> publisher_handles S \<union> set (publisher_declared i S)"
proof (cases i)
  case (PiWorker pick ha a)
  with assms worker_handles_step [of F pick ha a S S'] show ?thesis
    by (auto simp: publisher_handles_def)
next
  case (PiUndeclare a)
  with assms show ?thesis
    by (auto simp: publisher_steps publisher_handles_def undeclare_tail_def take_handle_def
        split: undeclare_pc.splits option.splits sum.splits if_splits prod.splits)
qed (use assms in \<open>auto simp: publisher_steps publisher_handles_def\<close>)

lemma publisher_handles_run:
  "publisher_handles (run_steps (publisher_step F) is S) \<subseteq>
     publisher_handles S \<union> set (run_log (publisher_step F) publisher_declared is S)"
proof (induction "is" arbitrary: S)
  case (Cons i "is")
  show ?case
  proof (cases "publisher_step F i S")
    case (Some S')
    with Cons.IH [of S'] publisher_handles_step [OF Some] show ?thesis
      by (auto simp: step_or_stay_def)
  qed (use Cons in \<open>simp add: step_or_stay_def\<close>)
qed simp

text \<open>
  A publisher uses only handles that are its own. In every run, the handle of each command it
  sends and of the undeclaration it sends was the answer to an earlier declaration by this publisher.
\<close>

theorem publisher_uses_declared_handles:
  assumes "S0 = GrpcSession_declare_publisher F req s0" and "S = run_steps (publisher_step F) is S0"
  shows "(\<forall>cmd c g h. ps_worker S = PwCalling cmd c g h \<longrightarrow>
        h \<in> set (run_log (publisher_step F) publisher_declared is S0))
    \<and> (\<forall>c g h. ps_undeclare S = UnCalling c g h \<longrightarrow>
        h \<in> set (run_log (publisher_step F) publisher_declared is S0))"
proof -
  have "publisher_handles S0 = {}"
    by (simp add: assms(1) GrpcSession_declare_publisher_def publisher_handles_def binding_new_def
        Let_def case_prod_beta)
  with publisher_handles_run [of F "is" S0] show ?thesis
    by (auto simp: assms(2) publisher_handles_def)
qed

definition no_loss :: "'ch publisher_input \<Rightarrow> bool" where
  "no_loss i = (case i of
     PiWorker _ _ (Inl st) \<Rightarrow> \<not> is_stale_status st | PiUndeclare _ \<Rightarrow> False | _ \<Rightarrow> True)"

fun pc_keeps :: "u64 option \<Rightarrow> 'ch publisher_pc \<Rightarrow> bool" where
  "pc_keeps h (PwDeclaring _ _ _) = (h = None)"
| "pc_keeps h (PwInvalidate _ _) = False"
| "pc_keeps h _ = True"

definition keeps_handle :: "('ch, 'c) publisher_sys \<Rightarrow> bool" where
  "keeps_handle S \<longleftrightarrow> pc_keeps (b_handle (pub_binding (ps_inner S))) (ps_worker S)"

definition declares_left :: "('ch, 'c) publisher_sys \<Rightarrow> nat" where
  "declares_left S = (if b_handle (pub_binding (ps_inner S)) = None then 1 else 0)"

lemma declares_worker:
  assumes "publisher_worker_step F pick ha a S = Some S'" and "no_loss (PiWorker pick ha a)"
    and "keeps_handle S"
  shows "keeps_handle S'
    \<and> length (publisher_declared (PiWorker pick ha a) S) + declares_left S' \<le> declares_left S"
  using assms
  by (cases "ps_worker S"; cases ha)
    (auto simp: publisher_steps no_loss_def keeps_handle_def declares_left_def ensure_start_def
      ensure_answer_def Let_def split: option.splits if_splits wait_result.splits sum.splits)

lemma other_inputs_keep:
  assumes "publisher_step F i S = Some S'" and "\<forall>pick ha a. i \<noteq> PiWorker pick ha a" and "no_loss i"
  shows "ps_worker S' = ps_worker S \<and> ps_inner S' = ps_inner S \<and> publisher_declared i S = []"
  using assms by (cases i) (auto simp: publisher_steps no_loss_def)

lemma declares_step:
  assumes "publisher_step F i S = Some S'" and "no_loss i" and "keeps_handle S"
  shows "keeps_handle S' \<and> length (publisher_declared i S) + declares_left S' \<le> declares_left S"
proof (cases "\<exists>pick ha a. i = PiWorker pick ha a")
  case True
  with assms declares_worker show ?thesis by fastforce
next
  case False
  with other_inputs_keep [OF assms(1)] assms(2,3) show ?thesis
    by (simp add: keeps_handle_def declares_left_def)
qed

lemma declares_run:
  assumes "\<forall>i \<in> set is. no_loss i" and "keeps_handle S"
  shows "length (run_log (publisher_step F) publisher_declared is S) \<le> declares_left S"
  using assms
proof (induction "is" arbitrary: S)
  case (Cons i "is")
  show ?case
  proof (cases "publisher_step F i S")
    case (Some S')
    with declares_step [OF Some] Cons show ?thesis
      by (fastforce simp: step_or_stay_def)
  qed (use Cons in \<open>simp add: step_or_stay_def\<close>)
qed simp

text \<open>
  A publisher is declared once. As long as the server does not report its handle as lost and it
  is not undeclared, any number of commands, failures and reconnections makes at most one successful
  declaration, so no object is left behind on the server.
\<close>

theorem publisher_declared_once:
  assumes "S0 = GrpcSession_declare_publisher F req s0" and "\<forall>i \<in> set is. no_loss i"
  shows "length (run_log (publisher_step F) publisher_declared is S0) \<le> 1"
proof -
  have "keeps_handle S0" "declares_left S0 = 1"
    by (simp_all add: assms(1) GrpcSession_declare_publisher_def keeps_handle_def declares_left_def
        binding_new_def Let_def case_prod_beta)
  with declares_run [OF assms(2), of S0 F] show ?thesis by simp
qed

section \<open>Witnesses\<close>

definition connected_session :: "nat Inner" where
  "connected_session = set_connected 0 (Inner_new (ConnectTcp ''h:1'') ''id'')"

definition demo_publisher :: "(nat, PublisherCommand fifo) publisher_sys" where
  "demo_publisher = GrpcSession_declare_publisher fifo_flume DeclarePublisherArgs_default connected_session"

definition publish_twice :: "nat publisher_input list" where
  "publish_twice =
     [PiPut PublisherPutArgs_default, PiDelete PublisherDeleteArgs_default]
     @ replicate 7 (PiWorker False (Inr 5) (Inr ())) @ replicate 6 (PiWorker False (Inr 6) (Inr ()))"

lemmas demo_publisher_simps = demo_publisher_def GrpcSession_declare_publisher_def connected_session_def
  set_connected_def Inner_new_def notify_connection_def alloc_local_handle_def fifo_new
  SEND_QUEUE_CAPACITY_def binding_new_def Let_def step_or_stay_def publisher_steps submit_def
  fifo_push_room fifo_recv_Cons publisher_is_closed_def is_closed_def wait_step_def
  current_connection_def ensure_start_def ensure_answer_def processed_one_def

lemma publish_twice_logs:
  "run_log (publisher_step fifo_flume) publisher_acked publish_twice demo_publisher =
     [PubPut PublisherPutArgs_default, PubDelete PublisherDeleteArgs_default]"
  "run_log (publisher_step fifo_flume) publisher_declared publish_twice demo_publisher = [5]"
  by (simp_all add: publish_twice_def demo_publisher_simps replicate_small)

theorem publisher_commands_in_order_witness:
  "subseq [PubPut PublisherPutArgs_default, PubDelete PublisherDeleteArgs_default]
     (run_log (publisher_step fifo_flume) publisher_submitted publish_twice demo_publisher)"
  using publisher_commands_in_order [OF fifo.bounded_channel_axioms demo_publisher_def refl,
      of publish_twice] by (simp add: publish_twice_logs)

definition publish_and_wait :: "nat publisher_input list" where
  "publish_and_wait = PiPut PublisherPutArgs_default # replicate 6 (PiWorker False (Inr 5) (Inr ()))"

theorem publisher_uses_declared_handles_witness:
  "ps_worker (run_steps (publisher_step fifo_flume) publish_and_wait demo_publisher) =
     PwCalling (PubPut PublisherPutArgs_default) 0 1 5
   \<and> 5 \<in> set (run_log (publisher_step fifo_flume) publisher_declared publish_and_wait demo_publisher)"
proof -
  have "ps_worker (run_steps (publisher_step fifo_flume) publish_and_wait demo_publisher) =
      PwCalling (PubPut PublisherPutArgs_default) 0 1 5"
    by (simp add: publish_and_wait_def demo_publisher_simps replicate_small)
  with publisher_uses_declared_handles [OF demo_publisher_def refl, of publish_and_wait]
  show ?thesis by blast
qed

theorem publisher_declared_once_witness:
  "list_all no_loss publish_twice
   \<and> length (run_log (publisher_step fifo_flume) publisher_declared publish_twice demo_publisher) \<le> 1"
proof -
  have "\<forall>i \<in> set publish_twice. no_loss i"
    by (simp add: publish_twice_def no_loss_def)
  with publisher_declared_once [OF demo_publisher_def this] show ?thesis by (simp add: list_all_iff)
qed

end
