(* ===== verification/Client_Events.thy ===== *)
theory Client_Events
  imports Client_Binding
begin

text \<open>
  The event side of subscribers and queryables of the client core
  (\<^verbatim>\<open>zenoh-grpc-client-rs/src/lib.rs\<close>). \<^verbatim>\<open>GrpcSubscriber::spawn_event_worker\<close> and
  \<^verbatim>\<open>GrpcQueryable::spawn_event_worker\<close> are the same loop, up to the name in their messages and the way
  an event is stored: declare the object, open its stream of events, move the events into the queue,
  and start again when the stream ends. \<open>event_worker_step\<close> is that loop with these two as
  parameters, on the part \<open>event_sys\<close> of the state that both objects have.

  The locale \<open>event_pipe\<close> is the contract of an object that receives events: what its consumer
  receives comes, in order, from what the server streamed.
\<close>

section \<open>State\<close>

datatype 'ch event_pc =
    EwHead
  | EwWaiting wait_pc
  | EwEnsure 'ch u64
  | EwDeclaring 'ch u64
  | EwOpening 'ch u64 u64
  | EwSleeping
  | EwInvalidate u64
  | EwSelect u64 u64
  | EwReading u64 u64 nat
  | EwDone

record ('ch, 'c) event_sys =
  ev_session :: "'ch Inner"
  ev_binding :: RemoteBinding
  ev_sender :: bool
  ev_queue :: "'c drop_oldest"
  ev_stream_ready :: bool
  ev_ready_epoch :: nat
  ev_closed :: bool
  ev_close_epoch :: nat
  ev_worker :: "'ch event_pc"

definition event_is_closed :: "('ch, 'c, 'z) event_sys_scheme \<Rightarrow> bool" where
  "event_is_closed S \<longleftrightarrow> ev_closed S \<or> is_closed (ev_session S)"

text \<open>\<^verbatim>\<open>close_queue\<close> drops the sender: \<^verbatim>\<open>event_tx.take()\<close>.\<close>

definition close_queue ::
  "('c, 't) flume \<Rightarrow> ('ch, 'c, 'z) event_sys_scheme \<Rightarrow> ('ch, 'c, 'z) event_sys_scheme" where
  "close_queue F S =
     (if ev_sender S
      then S\<lparr>ev_sender := False, ev_stream_ready := False,
             ev_queue := (ev_queue S)\<lparr>chan := drop_sender F (chan (ev_queue S))\<rparr>\<rparr>
      else S\<lparr>ev_stream_ready := False\<rparr>)"

definition mark_stream_ready :: "('ch, 'c, 'z) event_sys_scheme \<Rightarrow> ('ch, 'c, 'z) event_sys_scheme" where
  "mark_stream_ready S = S\<lparr>ev_stream_ready := True, ev_ready_epoch := Suc (ev_ready_epoch S)\<rparr>"

definition mark_stream_not_ready ::
  "('ch, 'c, 'z) event_sys_scheme \<Rightarrow> ('ch, 'c, 'z) event_sys_scheme" where
  "mark_stream_not_ready S = S\<lparr>ev_stream_ready := False\<rparr>"

definition ev_mark_disconnected ::
  "u64 \<Rightarrow> ('ch, 'c, 'z) event_sys_scheme \<Rightarrow> ('ch, 'c, 'z) event_sys_scheme" where
  "ev_mark_disconnected g S = S\<lparr>ev_session := mark_disconnected g (ev_session S)\<rparr>"

definition ev_log ::
  "string \<Rightarrow> status \<Rightarrow> ('ch, 'c, 'z) event_sys_scheme \<Rightarrow> ('ch, 'c, 'z) event_sys_scheme" where
  "ev_log context st S = S\<lparr>ev_session := log_operation_warning context st (ev_session S)\<rparr>"

section \<open>The event worker\<close>

text \<open>
  \<open>kind\<close> is \<open>''subscriber''\<close> or \<open>''queryable''\<close>, \<open>wrap h ev\<close> the queue item for the event \<open>ev\<close> of the
  remote object \<open>h\<close>. \<open>handle_answer\<close> answers the declaration in \<open>EwDeclaring\<close>, \<open>open_answer\<close> the
  request for the stream in \<open>EwOpening\<close>, and \<open>msg\<close> is the next message of the stream in \<open>EwReading\<close>.
  The \<^verbatim>\<open>select!\<close> of that state prefers \<^verbatim>\<open>close_notify\<close>, whose epoch was read in \<open>EwSelect\<close>.
\<close>

definition read_message ::
  "('c, 't) flume \<Rightarrow> string \<Rightarrow> (u64 \<Rightarrow> 'ev \<Rightarrow> 't) \<Rightarrow> u64 \<Rightarrow> u64 \<Rightarrow> 'ev message \<Rightarrow>
   ('ch, 'c, 'z) event_sys_scheme \<Rightarrow> ('ch, 'c, 'z) event_sys_scheme option" where
  "read_message F kind wrap g h msg S =
     (case msg of
        MsgItem ev \<Rightarrow>
          if ev_sender S
          then (case push F (wrap h ev) (ev_queue S) of
                  None \<Rightarrow> None
                | Some (_, q) \<Rightarrow> Some (S\<lparr>ev_queue := q, ev_worker := EwSelect g h\<rparr>))
          else Some (S\<lparr>ev_worker := EwHead\<rparr>)
      | MsgEnd \<Rightarrow> Some (ev_mark_disconnected g (mark_stream_not_ready S)\<lparr>ev_worker := EwHead\<rparr>)
      | MsgErr st \<Rightarrow>
          if is_disconnect_status st
          then Some (ev_mark_disconnected g (mark_stream_not_ready S)\<lparr>ev_worker := EwHead\<rparr>)
          else if is_stale_status st
          then Some (mark_stream_not_ready S\<lparr>ev_worker := EwInvalidate h\<rparr>)
          else Some (ev_log (kind @ '' stream'') st (mark_stream_not_ready S)\<lparr>ev_worker := EwHead\<rparr>))"

definition event_worker_step ::
  "('c, 't) flume \<Rightarrow> string \<Rightarrow> (u64 \<Rightarrow> 'ev \<Rightarrow> 't) \<Rightarrow> bool \<Rightarrow> u64 rpc_result \<Rightarrow> unit rpc_result \<Rightarrow>
   'ev message \<Rightarrow> ('ch, 'c, 'z) event_sys_scheme \<Rightarrow> ('ch, 'c, 'z) event_sys_scheme option" where
  "event_worker_step F kind wrap pick handle_answer open_answer msg S =
     (case ev_worker S of
        EwHead \<Rightarrow> Some (S\<lparr>ev_worker := (if event_is_closed S then EwDone else EwWaiting WaitClosed)\<rparr>)
      | EwWaiting w \<Rightarrow>
          (case wait_step (event_is_closed S) (ev_close_epoch S) pick (ev_session S) w of
             None \<Rightarrow> None
           | Some (WaitMore w') \<Rightarrow> Some (S\<lparr>ev_worker := EwWaiting w'\<rparr>)
           | Some (WaitReturn None) \<Rightarrow> Some (S\<lparr>ev_worker := EwDone\<rparr>)
           | Some (WaitReturn (Some (c, g))) \<Rightarrow> Some (S\<lparr>ev_worker := EwEnsure c g\<rparr>))
      | EwEnsure c g \<Rightarrow>
          (case ensure_start (ev_binding S) of
             None \<Rightarrow> None
           | Some (Some h, b) \<Rightarrow> Some (S\<lparr>ev_worker := EwOpening c g h\<rparr>)
           | Some (None, b) \<Rightarrow> Some (S\<lparr>ev_binding := b, ev_worker := EwDeclaring c g\<rparr>))
      | EwDeclaring c g \<Rightarrow>
          (let S1 = S\<lparr>ev_binding := ensure_answer g handle_answer (ev_binding S)\<rparr> in
           case handle_answer of
             Inr h \<Rightarrow> Some (S1\<lparr>ev_worker := EwOpening c g h\<rparr>)
           | Inl st \<Rightarrow>
               if is_disconnect_status st
               then Some (ev_mark_disconnected g S1\<lparr>ev_worker := EwHead\<rparr>)
               else Some (ev_log (kind @ '' declare'') st S1\<lparr>ev_worker := EwSleeping\<rparr>))
      | EwOpening c g h \<Rightarrow>
          (case open_answer of
             Inr _ \<Rightarrow> Some (mark_stream_ready S\<lparr>ev_worker := EwSelect g h\<rparr>)
           | Inl st \<Rightarrow>
               if is_disconnect_status st
               then Some (ev_mark_disconnected g S\<lparr>ev_worker := EwHead\<rparr>)
               else if is_stale_status st then Some (S\<lparr>ev_worker := EwInvalidate h\<rparr>)
               else Some (ev_log (kind @ '' events'') st S\<lparr>ev_worker := EwSleeping\<rparr>))
      | EwSleeping \<Rightarrow> Some (S\<lparr>ev_worker := EwHead\<rparr>)
      | EwInvalidate h \<Rightarrow>
          (case invalidate_handle h (ev_binding S) of
             None \<Rightarrow> None
           | Some b \<Rightarrow> Some (S\<lparr>ev_binding := b, ev_worker := EwHead\<rparr>))
      | EwSelect g h \<Rightarrow> Some (S\<lparr>ev_worker := EwReading g h (ev_close_epoch S)\<rparr>)
      | EwReading g h e \<Rightarrow>
          if e < ev_close_epoch S then Some (S\<lparr>ev_worker := EwHead\<rparr>)
          else read_message F kind wrap g h msg S
      | EwDone \<Rightarrow> None)"

section \<open>Waiting for the first stream\<close>

text \<open>
  \<^verbatim>\<open>wait_initial_stream_ready\<close>: declaring an object waits up to 500 ms for its stream if there is a
  connection; \<open>timeout\<close> says whether that time is over.
\<close>

datatype ready_pc = ReadyStart | ReadyCheck | ReadyRegister | ReadyNotified nat | ReadyReturned

definition ready_step :: "bool \<Rightarrow> ('ch, 'c, 'z) event_sys_scheme \<Rightarrow> ready_pc \<Rightarrow> ready_pc option" where
  "ready_step timeout S pc =
     (case pc of
        ReadyStart \<Rightarrow>
          Some (if current_connection (ev_session S) = None \<or> ev_stream_ready S then ReadyReturned
                else ReadyCheck)
      | ReadyReturned \<Rightarrow> None
      | ReadyCheck \<Rightarrow>
          Some (if timeout \<or> ev_stream_ready S \<or> event_is_closed S then ReadyReturned else ReadyRegister)
      | ReadyRegister \<Rightarrow> Some (if timeout then ReadyReturned else ReadyNotified (ev_ready_epoch S))
      | ReadyNotified e \<Rightarrow>
          if timeout then Some ReadyReturned
          else if e < ev_ready_epoch S then Some ReadyCheck
          else None)"

text \<open>What a step of the event worker does to the queue: nothing, or one push of a streamed event.\<close>

definition streams :: "(u64 \<Rightarrow> 'ev \<Rightarrow> 't) \<Rightarrow> 'ev message \<Rightarrow> ('ch, 'c, 'z) event_sys_scheme \<Rightarrow> 't list" where
  "streams wrap msg S =
     (case (ev_worker S, msg) of
        (EwReading g h e, MsgItem ev) \<Rightarrow>
          if \<not> e < ev_close_epoch S \<and> ev_sender S then [wrap h ev] else []
      | _ \<Rightarrow> [])"

lemma event_worker_queue:
  assumes "event_worker_step F kind wrap pick ha oa msg S = Some S'"
  shows "ev_sender S' = ev_sender S
    \<and> (streams wrap msg S = [] \<and> ev_queue S' = ev_queue S
        \<or> ev_sender S \<and> (\<exists>x r. streams wrap msg S = [x] \<and> push F x (ev_queue S) = Some (r, ev_queue S')))"
  using assms
  by (auto simp: event_worker_step_def read_message_def streams_def Let_def ev_mark_disconnected_def
      mark_stream_not_ready_def mark_stream_ready_def ev_log_def split: event_pc.splits option.splits
      sum.splits if_splits wait_result.splits message.splits)

text \<open>The queue of an object that still has its sender has one sender, otherwise none.\<close>

context bounded_channel
begin

definition events_ok :: "'c drop_oldest \<Rightarrow> bool \<Rightarrow> bool" where
  "events_ok q has_sender \<longleftrightarrow> queue_ok RECV_QUEUE_CAPACITY q
     \<and> senders (chan q) = (if has_sender then 1 else 0)"

lemma events_ok_new: "events_ok (bounded_drop_oldest F RECV_QUEUE_CAPACITY) True"
  using bounded_new queue_ok_new [of RECV_QUEUE_CAPACITY]
  by (simp add: events_ok_def bounded_drop_oldest_def RECV_QUEUE_CAPACITY_def)

lemma worker_pipe:
  assumes "events_ok (ev_queue S) (ev_sender S)" and "event_worker_step F kind wrap pick ha oa msg S = Some S'"
  shows "events_ok (ev_queue S') (ev_sender S')"
    and "subseq (contents (chan (ev_queue S'))) (contents (chan (ev_queue S)) @ streams wrap msg S)"
    and "\<not> ev_sender S \<Longrightarrow> contents (chan (ev_queue S')) = contents (chan (ev_queue S)) \<and> \<not> ev_sender S'"
proof -
  have ok: "queue_ok RECV_QUEUE_CAPACITY (ev_queue S)" using assms(1) by (simp add: events_ok_def)
  note q = event_worker_queue [OF assms(2)]
  have pushed: "queue_ok RECV_QUEUE_CAPACITY q' \<and> senders (chan q') = senders (chan (ev_queue S))
      \<and> subseq (contents (chan q')) (contents (chan (ev_queue S)) @ [x])"
    if "push F x (ev_queue S) = Some (r, q')" for x r q'
    using push_queue_ok [OF ok, of x] that by (metis newest_subseq option.inject prod.inject)
  from q assms(1) pushed show "events_ok (ev_queue S') (ev_sender S')"
    by (elim conjE disjE exE) (auto simp: events_ok_def)
  from q pushed show "subseq (contents (chan (ev_queue S'))) (contents (chan (ev_queue S)) @ streams wrap msg S)"
    by (elim conjE disjE exE) auto
  from q show "\<not> ev_sender S \<Longrightarrow> contents (chan (ev_queue S')) = contents (chan (ev_queue S)) \<and> \<not> ev_sender S'"
    by auto
qed

lemma recv_events:
  assumes "events_ok q b" and "recv F q = Some (r, q')"
  obtains (item) x where "r = Inr x" "events_ok q' b" "contents (chan q) = x # contents (chan q')"
  | (closed) "r = Inl ()" "events_ok q' b" "contents (chan q') = contents (chan q)"
proof (cases r)
  case (Inr x)
  with recv_Inr [of q x q'] queue_ok_recv [OF _ assms(2)] assms show ?thesis
    by (intro item) (simp_all add: events_ok_def)
next
  case (Inl u)
  with recv_Inl [of q u q'] assms show ?thesis by (intro closed) simp_all
qed

lemma try_recv_events:
  assumes "events_ok q b"
  obtains (item) x q' where "try_recv F q = (RecvOk x, q')" "events_ok q' b"
    "contents (chan q) = x # contents (chan q')"
  | (none) r where "try_recv F q = (r, q)" "r = RecvEmpty \<or> r = RecvDisconnected"
proof (cases rule: try_recv_cases [of q])
  case (1 x q')
  with recv_events [OF assms 1(2)] show ?thesis by (metis item Inl_Inr_False sum.inject(2))
qed (use none in blast)+

lemma close_queue_ok:
  assumes "events_ok (ev_queue S) (ev_sender S)"
  shows "events_ok (ev_queue (close_queue F S)) (ev_sender (close_queue F S))" and "\<not> ev_sender (close_queue F S)"
    and "contents (chan (ev_queue (close_queue F S))) = contents (chan (ev_queue S))"
  using assms by (auto simp: close_queue_def events_ok_def queue_ok_def drop_sender_law)

end

section \<open>The contract of an object that receives events\<close>

locale event_pipe =
  fixes step :: "'i \<Rightarrow> 's \<Rightarrow> 's option"
    and ok :: "'s \<Rightarrow> bool"
    and buffered :: "'s \<Rightarrow> 't list"
    and streamed received :: "'i \<Rightarrow> 's \<Rightarrow> 't list"
    and finished :: "'s \<Rightarrow> bool"
  assumes step_ok: "ok s \<Longrightarrow> step i s = Some s' \<Longrightarrow> ok s'"
    and step_pipe: "ok s \<Longrightarrow> step i s = Some s' \<Longrightarrow>
      subseq (received i s @ buffered s') (buffered s @ streamed i s)"
    and step_finished: "ok s \<Longrightarrow> step i s = Some s' \<Longrightarrow> finished s \<Longrightarrow>
      finished s' \<and> received i s @ buffered s' = buffered s"
begin

lemma ok_run: "ok s \<Longrightarrow> ok (run_steps step is s)"
  by (rule run_steps_invariant [where step = step and I = ok]) (auto intro: step_ok)

lemma run_pipe:
  assumes "ok s"
  shows "subseq (run_log step received is s @ buffered (run_steps step is s))
    (buffered s @ run_log step streamed is s)"
  using assms
proof (induction "is" arbitrary: s)
  case (Cons i "is")
  show ?case
  proof (cases "step i s")
    case None
    with Cons show ?thesis by (simp add: step_or_stay_def)
  next
    case (Some s')
    from Cons.IH [OF step_ok [OF Cons.prems Some]]
    have "subseq (received i s @ run_log step received is s' @ buffered (run_steps step is s'))
        ((received i s @ buffered s') @ run_log step streamed is s')"
      by (simp add: subseq_append')
    also have "subseq ((received i s @ buffered s') @ run_log step streamed is s')
        ((buffered s @ streamed i s) @ run_log step streamed is s')"
      by (rule list_emb_append_mono [OF step_pipe [OF Cons.prems Some] subseq_order.order_refl])
    finally show ?thesis using Some by (simp add: step_or_stay_def)
  qed
qed simp

lemma run_finished:
  assumes "ok s" and "finished s"
  shows "finished (run_steps step is s)
    \<and> run_log step received is s @ buffered (run_steps step is s) = buffered s"
  using assms
proof (induction "is" arbitrary: s)
  case (Cons i "is")
  show ?case
  proof (cases "step i s")
    case (Some s')
    from step_finished [OF Cons.prems(1) Some Cons.prems(2)]
      Cons.IH [OF step_ok [OF Cons.prems(1) Some]] Some show ?thesis
      by (auto simp: step_or_stay_def)
  qed (use Cons in \<open>simp add: step_or_stay_def\<close>)
qed simp

end

end
