(* ===== verification/Client_Subscriber.thy ===== *)
theory Client_Subscriber
  imports Client_Events
begin

text \<open>
  The subscriber of the client core (\<^verbatim>\<open>SubscriberInner\<close> and \<^verbatim>\<open>GrpcSubscriber\<close> of
  \<^verbatim>\<open>zenoh-grpc-client-rs/src/lib.rs\<close>): the event worker fills a queue that the application reads with
  \<^verbatim>\<open>recv\<close> and \<^verbatim>\<open>try_recv\<close>, or that a dispatcher thread empties into a callback; \<^verbatim>\<open>undeclare\<close> closes the
  queue and gives the handle back.
\<close>

datatype ConsumerMode = Pull | Callback

record ('ch, 'c) subscriber_sys = "('ch, 'c) event_sys" +
  sub_local_handle :: u64
  sub_args :: DeclareSubscriberArgs
  sub_mode :: ConsumerMode
  sub_undeclare :: "'ch undeclare_pc"

definition GrpcSession_declare_subscriber ::
  "('c, pb_SubscriberEvent) flume \<Rightarrow> DeclareSubscriberArgs \<Rightarrow> bool \<Rightarrow> 'ch Inner \<Rightarrow>
   ('ch, 'c) subscriber_sys" where
  "GrpcSession_declare_subscriber F req has_callback s =
     (let (h, s') = alloc_local_handle s in
      \<lparr>ev_session = s', ev_binding = binding_new, ev_sender = True,
       ev_queue = bounded_drop_oldest F RECV_QUEUE_CAPACITY, ev_stream_ready = False,
       ev_ready_epoch = 0, ev_closed = False, ev_close_epoch = 0, ev_worker = EwHead,
       sub_local_handle = h, sub_args = req,
       sub_mode = (if has_callback then Callback else Pull), sub_undeclare = UnIdle\<rparr>)"

text \<open>The requests of the event worker: the declaration and the opening of the stream.\<close>

definition subscriber_call :: "('ch, 'c) subscriber_sys \<Rightarrow> ('ch \<times> request) option" where
  "subscriber_call S =
     (let cid = client_id (ev_session S) in
      case ev_worker S of
        EwDeclaring c g \<Rightarrow> Some (c, DeclareSubscriber (declare_subscriber_request cid (sub_args S)))
      | EwOpening c g h \<Rightarrow> Some (c, SubscriberEvents \<lparr>hreq_client_id = cid, hreq_handle = h\<rparr>)
      | _ \<Rightarrow> None)"

definition subscriber_event_step ::
  "('c, pb_SubscriberEvent) flume \<Rightarrow> bool \<Rightarrow> u64 rpc_result \<Rightarrow> unit rpc_result \<Rightarrow>
   pb_SubscriberEvent message \<Rightarrow> ('ch, 'c) subscriber_sys \<Rightarrow> ('ch, 'c) subscriber_sys option" where
  "subscriber_event_step F = event_worker_step F ''subscriber'' (\<lambda>_ ev. ev)"

section \<open>Receiving events\<close>

definition ensure_pull_mode :: "string \<Rightarrow> ConsumerMode \<Rightarrow> unit result" where
  "ensure_pull_mode kind mode = (if mode = Callback then Inl (CallbackDriven kind) else Inr ())"

definition subscriber_queue_closed :: Error where
  "subscriber_queue_closed = Status (mk_status Unavailable ''subscriber event queue closed'')"

text \<open>\<open>None\<close> while \<^verbatim>\<open>recv\<close> waits for an event.\<close>

definition GrpcSubscriber_recv ::
  "('c, pb_SubscriberEvent) flume \<Rightarrow> ('ch, 'c) subscriber_sys \<Rightarrow>
   (pb_SubscriberEvent result \<times> ('ch, 'c) subscriber_sys) option" where
  "GrpcSubscriber_recv F S =
     (case ensure_pull_mode ''subscriber'' (sub_mode S) of
        Inl e \<Rightarrow> Some (Inl e, S)
      | Inr _ \<Rightarrow>
          map_option (\<lambda>(r, q). (case r of Inr ev \<Rightarrow> Inr ev | Inl _ \<Rightarrow> Inl subscriber_queue_closed,
                                S\<lparr>ev_queue := q\<rparr>)) (recv F (ev_queue S)))"

definition GrpcSubscriber_try_recv ::
  "('c, pb_SubscriberEvent) flume \<Rightarrow> ('ch, 'c) subscriber_sys \<Rightarrow>
   pb_SubscriberEvent option result \<times> ('ch, 'c) subscriber_sys" where
  "GrpcSubscriber_try_recv F S =
     (case ensure_pull_mode ''subscriber'' (sub_mode S) of
        Inl e \<Rightarrow> (Inl e, S)
      | Inr _ \<Rightarrow>
          (case try_recv F (ev_queue S) of
             (RecvOk ev, q) \<Rightarrow> (Inr (Some ev), S\<lparr>ev_queue := q\<rparr>)
           | (RecvEmpty, q) \<Rightarrow> (Inr None, S\<lparr>ev_queue := q\<rparr>)
           | (RecvDisconnected, q) \<Rightarrow> (Inl subscriber_queue_closed, S\<lparr>ev_queue := q\<rparr>)))"

definition GrpcSubscriber_dropped_count :: "('ch, 'c) subscriber_sys \<Rightarrow> u64" where
  "GrpcSubscriber_dropped_count S = dropped_count (ev_queue S)"

text \<open>
  One round of the dispatcher thread: the event it hands to the callback; \<open>panics\<close> says whether the
  callback panics, which is caught and reported. The dispatcher ends when the queue is closed.
\<close>

definition subscriber_dispatch ::
  "('c, pb_SubscriberEvent) flume \<Rightarrow> bool \<Rightarrow> ('ch, 'c) subscriber_sys \<Rightarrow>
   (pb_SubscriberEvent option \<times> ('ch, 'c) subscriber_sys) option" where
  "subscriber_dispatch F panics S =
     (case recv F (ev_queue S) of
        None \<Rightarrow> None
      | Some (Inl _, q) \<Rightarrow> Some (None, S\<lparr>ev_queue := q\<rparr>)
      | Some (Inr ev, q) \<Rightarrow>
          Some (Some ev, S\<lparr>ev_queue := q, ev_session :=
             (if panics then log_line (LogCallbackPanicked ''subscriber'') (ev_session S)
              else ev_session S)\<rparr>))"

section \<open>Undeclaring\<close>

text \<open>The subscriber is closed and its queue is closed at once, before the handle is taken.\<close>

definition subscriber_undeclare_step ::
  "('c, pb_SubscriberEvent) flume \<Rightarrow> unit rpc_result \<Rightarrow> ('ch, 'c) subscriber_sys \<Rightarrow>
   ('ch, 'c) subscriber_sys option" where
  "subscriber_undeclare_step F answer S =
     (case sub_undeclare S of
        UnIdle \<Rightarrow>
          Some (S\<lparr>ev_closed := True, ev_close_epoch := Suc (ev_close_epoch S),
                  sub_undeclare := UnWaitEmpty\<rparr>)
      | UnWaitEmpty \<Rightarrow> Some (close_queue F S\<lparr>sub_undeclare := UnTake\<rparr>)
      | pc \<Rightarrow>
          map_option (\<lambda>(pc', b, s). S\<lparr>ev_binding := b, ev_session := s, sub_undeclare := pc'\<rparr>)
            (undeclare_tail answer (pc, ev_binding S, ev_session S)))"

section \<open>The subscriber as a machine\<close>

datatype 'ch subscriber_input =
    UiWorker bool "u64 rpc_result" "unit rpc_result" "pb_SubscriberEvent message"
  | UiRecv
  | UiTryRecv
  | UiDispatch bool
  | UiUndeclare "unit rpc_result"
  | UiSession "'ch Inner"

fun subscriber_step ::
  "('c, pb_SubscriberEvent) flume \<Rightarrow> 'ch subscriber_input \<Rightarrow> ('ch, 'c) subscriber_sys \<Rightarrow>
   ('ch, 'c) subscriber_sys option" where
  "subscriber_step F (UiWorker pick ha oa msg) S = subscriber_event_step F pick ha oa msg S"
| "subscriber_step F UiRecv S = map_option snd (GrpcSubscriber_recv F S)"
| "subscriber_step F UiTryRecv S = Some (snd (GrpcSubscriber_try_recv F S))"
| "subscriber_step F (UiDispatch panics) S =
     (if sub_mode S = Callback then map_option snd (subscriber_dispatch F panics S) else None)"
| "subscriber_step F (UiUndeclare a) S = subscriber_undeclare_step F a S"
| "subscriber_step F (UiSession s) S = Some (S\<lparr>ev_session := s\<rparr>)"

text \<open>The event an input streams into the queue, and the event it delivers to the application.\<close>

fun subscriber_streamed ::
  "'ch subscriber_input \<Rightarrow> ('ch, 'c) subscriber_sys \<Rightarrow> pb_SubscriberEvent list" where
  "subscriber_streamed (UiWorker pick ha oa (MsgItem ev)) S =
     (case ev_worker S of
        EwReading g h e \<Rightarrow> if \<not> e < ev_close_epoch S \<and> ev_sender S then [ev] else []
      | _ \<Rightarrow> [])"
| "subscriber_streamed _ S = []"

definition received_item :: "'a result option \<Rightarrow> 'a list" where
  "received_item r = (case r of Some (Inr x) \<Rightarrow> [x] | _ \<Rightarrow> [])"

fun subscriber_received ::
  "('c, pb_SubscriberEvent) flume \<Rightarrow> 'ch subscriber_input \<Rightarrow> ('ch, 'c) subscriber_sys \<Rightarrow>
   pb_SubscriberEvent list" where
  "subscriber_received F UiRecv S = received_item (map_option fst (GrpcSubscriber_recv F S))"
| "subscriber_received F UiTryRecv S =
     (case fst (GrpcSubscriber_try_recv F S) of Inr (Some ev) \<Rightarrow> [ev] | _ \<Rightarrow> [])"
| "subscriber_received F (UiDispatch panics) S =
     (case subscriber_dispatch F panics S of Some (Some ev, _) \<Rightarrow> [ev] | _ \<Rightarrow> [])"
| "subscriber_received F _ S = []"

section \<open>The subscriber receives what is streamed\<close>

locale subscriber_channel = bounded_channel F contents capacity receivers senders
  for F :: "('c, pb_SubscriberEvent) flume" and contents capacity receivers senders

lemma subscriber_streamed_streams:
  "subscriber_streamed (UiWorker pick ha oa msg) S = streams (\<lambda>_ ev. ev) msg S"
  by (cases msg) (simp_all add: streams_def split: event_pc.splits)

lemmas subscriber_steps = subscriber_event_step_def GrpcSubscriber_recv_def GrpcSubscriber_try_recv_def
  subscriber_dispatch_def subscriber_undeclare_step_def ensure_pull_mode_def

sublocale subscriber_channel \<subseteq> sub: event_pipe "subscriber_step F"
  "\<lambda>S. events_ok (ev_queue S) (ev_sender S)" "\<lambda>S. contents (chan (ev_queue S))"
  subscriber_streamed "subscriber_received F" "\<lambda>S. \<not> ev_sender S"
proof -
  have all: "events_ok (ev_queue S') (ev_sender S')
      \<and> subseq (subscriber_received F i S @ contents (chan (ev_queue S')))
          (contents (chan (ev_queue S)) @ subscriber_streamed i S)
      \<and> (\<not> ev_sender S \<longrightarrow> \<not> ev_sender S'
          \<and> subscriber_received F i S @ contents (chan (ev_queue S')) = contents (chan (ev_queue S)))"
    if ok: "events_ok (ev_queue S) (ev_sender S)" and step: "subscriber_step F i S = Some S'"
    for i and S S' :: "('b, 'c) subscriber_sys"
  proof (cases i)
    case (UiWorker pick ha oa msg)
    with step worker_pipe [OF ok, of "''subscriber''" "\<lambda>_ ev. ev" pick ha oa msg S'] show ?thesis
      by (simp add: subscriber_event_step_def subscriber_streamed_streams del: subscriber_streamed.simps)
  next
    case UiRecv
    show ?thesis
    proof (cases "sub_mode S")
      case Pull
      with step UiRecv obtain r q where r: "recv F (ev_queue S) = Some (r, q)" "S' = S\<lparr>ev_queue := q\<rparr>"
        by (auto simp: subscriber_steps)
      from ok r(1) show ?thesis
        by (cases rule: recv_events) (use Pull UiRecv r in \<open>auto simp: subscriber_steps received_item_def\<close>)
    qed (use step ok UiRecv in \<open>auto simp: subscriber_steps received_item_def\<close>)
  next
    case UiTryRecv
    from ok show ?thesis
      by (cases rule: try_recv_events; cases "sub_mode S")
        (use step ok UiTryRecv in \<open>auto simp: subscriber_steps\<close>)
  next
    case (UiDispatch panics)
    with step obtain r q where r: "recv F (ev_queue S) = Some (r, q)"
      by (auto simp: subscriber_steps split: if_splits option.splits)
    from ok r show ?thesis
      by (cases rule: recv_events) (use step r UiDispatch in \<open>auto simp: subscriber_steps split: if_splits\<close>)
  next
    case (UiUndeclare a)
    with step ok close_queue_ok [OF ok] show ?thesis
      by (auto simp: subscriber_steps split: undeclare_pc.splits)
  qed (use step ok in auto)
  show "event_pipe (subscriber_step F) (\<lambda>S. events_ok (ev_queue S) (ev_sender S))
      (\<lambda>S. contents (chan (ev_queue S))) subscriber_streamed (subscriber_received F)
      (\<lambda>S :: ('b, 'c) subscriber_sys. \<not> ev_sender S)"
    by unfold_locales (use all in blast)+
qed

lemma event_worker_more:
  "event_worker_step F kind wrap pick ha oa msg (S :: ('ch, 'c) subscriber_sys) = Some S' \<Longrightarrow>
   sub_mode S' = sub_mode S"
  by (auto simp: event_worker_step_def read_message_def Let_def ev_mark_disconnected_def
      mark_stream_not_ready_def mark_stream_ready_def ev_log_def split: event_pc.splits option.splits
      sum.splits if_splits wait_result.splits message.splits)

lemma subscriber_mode_step: "subscriber_step F i S = Some S' \<Longrightarrow> sub_mode S' = sub_mode S"
  by (cases i) (auto simp: subscriber_steps close_queue_def dest: event_worker_more
      split: if_splits option.splits sum.splits undeclare_pc.splits recv_outcome.splits prod.splits)

lemma subscriber_mode_run: "sub_mode (run_steps (subscriber_step F) is S) = sub_mode S"
  by (rule run_steps_invariant [where step = "subscriber_step F" and I = "\<lambda>T. sub_mode T = sub_mode S"])
    (auto dest: subscriber_mode_step)

context subscriber_channel
begin

lemma fresh_subscriber:
  assumes "S0 = GrpcSession_declare_subscriber F req cb s0"
  shows "events_ok (ev_queue S0) (ev_sender S0)" "contents (chan (ev_queue S0)) = []"
  using events_ok_new bounded_new
  by (simp_all add: assms GrpcSession_declare_subscriber_def Let_def case_prod_beta bounded_drop_oldest_def)

lemma subscriber_order:
  assumes "S0 = GrpcSession_declare_subscriber F req cb s0"
  shows "subseq (run_log (subscriber_step F) (subscriber_received F) is S0)
    (run_log (subscriber_step F) subscriber_streamed is S0)"
  using sub.run_pipe [OF fresh_subscriber(1) [OF assms], of "is"] fresh_subscriber(2) [OF assms]
  by (auto elim: subseq_order.order_trans [rotated] simp: subseq_rev_drop_many)

lemma subscriber_ends:
  assumes "S0 = GrpcSession_declare_subscriber F req cb s0" and "S = run_steps (subscriber_step F) is S0"
    and "\<not> ev_sender S" and "T = run_steps (subscriber_step F) js S"
  shows "run_log (subscriber_step F) (subscriber_received F) js S @ contents (chan (ev_queue T)) =
      contents (chan (ev_queue S))"
    and "contents (chan (ev_queue T)) = [] \<Longrightarrow> \<not> cb \<Longrightarrow>
      GrpcSubscriber_recv F T = Some (Inl subscriber_queue_closed, T)"
proof -
  have ok: "events_ok (ev_queue S) (ev_sender S)"
    unfolding assms(2) by (rule sub.ok_run [OF fresh_subscriber(1) [OF assms(1)]])
  note fin = sub.run_finished [OF ok assms(3), of js, folded assms(4)]
  then show "run_log (subscriber_step F) (subscriber_received F) js S @ contents (chan (ev_queue T)) =
      contents (chan (ev_queue S))" by blast
  assume empty: "contents (chan (ev_queue T)) = []" and "\<not> cb"
  have "sub_mode T = Pull"
    using \<open>\<not> cb\<close> unfolding assms(4,2,1) subscriber_mode_run
    by (simp add: GrpcSession_declare_subscriber_def case_prod_beta)
  moreover have "senders (chan (ev_queue T)) = 0"
    using sub.ok_run [OF ok, of js, folded assms(4)] fin by (simp add: events_ok_def)
  ultimately show "GrpcSubscriber_recv F T = Some (Inl subscriber_queue_closed, T)"
    using empty by (simp add: subscriber_steps recv_disconnected_Inl)
qed

end

interpretation subscriber_fifo: subscriber_channel fifo_flume items fifo_cap "\<lambda>c. n_receivers c \<noteq> 0" n_senders
  by (rule subscriber_channel.intro) (rule fifo.bounded_channel_axioms)

text \<open>
  C28: a subscriber delivers events in order. Whatever happens to the connection and the stream, and
  whether the application calls \<^verbatim>\<open>recv\<close> and \<^verbatim>\<open>try_recv\<close> or a callback (which may panic) is driven by the
  dispatcher, what it gets is a subsequence of what the server streamed: nothing twice, nothing made
  up, nothing out of order.
\<close>

theorem subscriber_events_in_order:
  assumes "bounded_channel F contents capacity receivers senders"
    and "S0 = GrpcSession_declare_subscriber F req has_callback s0"
  shows "subseq (run_log (subscriber_step F) (subscriber_received F) is S0)
    (run_log (subscriber_step F) subscriber_streamed is S0)"
  by (rule subscriber_channel.subscriber_order [OF subscriber_channel.intro [OF assms(1)] assms(2)])

text \<open>
  Undeclaring ends the stream of a subscriber. Once \<^verbatim>\<open>undeclare\<close> has closed the queue, in every
  continuation the application receives exactly the events that were still buffered, in order, and
  then \<^verbatim>\<open>recv\<close> returns the error that says the queue is closed instead of waiting.
\<close>

theorem subscriber_undeclare_ends:
  assumes "bounded_channel F contents capacity receivers senders"
    and "S0 = GrpcSession_declare_subscriber F req has_callback s0"
    and "S = run_steps (subscriber_step F) is S0" and "\<not> ev_sender S"
    and "T = run_steps (subscriber_step F) js S"
  shows "run_log (subscriber_step F) (subscriber_received F) js S @ contents (chan (ev_queue T)) =
      contents (chan (ev_queue S))
    \<and> (contents (chan (ev_queue T)) = [] \<and> \<not> has_callback \<longrightarrow>
        GrpcSubscriber_recv F T = Some (Inl subscriber_queue_closed, T))"
  using subscriber_channel.subscriber_ends [OF subscriber_channel.intro [OF assms(1)] assms(2-5)]
  by blast

section \<open>Witnesses\<close>

definition online :: "nat Inner" where
  "online = set_connected 0 (Inner_new (ConnectTcp ''h:1'') ''id'')"

definition demo_subscriber :: "(nat, pb_SubscriberEvent fifo) subscriber_sys" where
  "demo_subscriber = GrpcSession_declare_subscriber fifo_flume DeclareSubscriberArgs_default False online"

definition no_event :: pb_SubscriberEvent where
  "no_event = \<lparr>sevt_sample = None\<rparr>"

definition stream_one :: "nat subscriber_input list" where
  "stream_one = replicate 8 (UiWorker False (Inr 4) (Inr ()) (MsgItem no_event))"

lemmas demo_subscriber_simps = demo_subscriber_def GrpcSession_declare_subscriber_def online_def
  set_connected_def Inner_new_def notify_connection_def alloc_local_handle_def fifo_new
  RECV_QUEUE_CAPACITY_def binding_new_def Let_def step_or_stay_def subscriber_steps
  event_worker_step_def read_message_def streams_def fifo_push_room fifo_recv_Cons
  event_is_closed_def is_closed_def wait_step_def current_connection_def ensure_start_def
  ensure_answer_def mark_stream_ready_def received_item_def

lemma stream_one_runs:
  "run_log (subscriber_step fifo_flume) (subscriber_received fifo_flume) (stream_one @ [UiRecv])
     demo_subscriber = [no_event]"
  "\<not> ev_sender (run_steps (subscriber_step fifo_flume)
     (stream_one @ [UiUndeclare (Inr ()), UiUndeclare (Inr ())]) demo_subscriber)"
  "items (chan (ev_queue (run_steps (subscriber_step fifo_flume)
     (stream_one @ [UiUndeclare (Inr ()), UiUndeclare (Inr ())]) demo_subscriber))) = [no_event]"
  by (simp_all add: stream_one_def demo_subscriber_simps replicate_small close_queue_def
      fifo_drop_sender)

theorem subscriber_events_in_order_witness:
  "subseq [no_event]
     (run_log (subscriber_step fifo_flume) subscriber_streamed (stream_one @ [UiRecv]) demo_subscriber)"
  using subscriber_events_in_order [OF fifo.bounded_channel_axioms demo_subscriber_def,
      of "stream_one @ [UiRecv]"] by (simp only: stream_one_runs)

theorem subscriber_undeclare_ends_witness:
  "\<exists>S. \<not> ev_sender S \<and> items (chan (ev_queue S)) = [no_event]
     \<and> run_log (subscriber_step fifo_flume) (subscriber_received fifo_flume) [UiRecv] S
        @ items (chan (ev_queue (run_steps (subscriber_step fifo_flume) [UiRecv] S))) = [no_event]
     \<and> S = run_steps (subscriber_step fifo_flume)
         (stream_one @ [UiUndeclare (Inr ()), UiUndeclare (Inr ())]) demo_subscriber"
  using subscriber_undeclare_ends [OF fifo.bounded_channel_axioms demo_subscriber_def refl
      stream_one_runs(2) refl, of "[UiRecv]"] stream_one_runs(2,3) by metis

end
