(* ===== verification/Client_Queryable.thy ===== *)
theory Client_Queryable
  imports Client_Subscriber
begin

text \<open>
  The queryable of the client core (\<^verbatim>\<open>QueryableInner\<close>, \<^verbatim>\<open>GrpcQueryable\<close> and \<^verbatim>\<open>GrpcQuery\<close> of
  \<^verbatim>\<open>zenoh-grpc-client-rs/src/lib.rs\<close>): the event worker receives queries, the application answers
  them through \<^verbatim>\<open>GrpcQuery\<close> or by id, and the reply worker sends the answers. A query is identified by
  the remote handle it came from and its id; queries the server no longer knows are remembered as
  stale and their answers are not sent.
\<close>

section \<open>State\<close>

record QueryIdentity =
  qi_remote_handle :: u64
  qi_query_id :: u64

datatype QueryableCommand =
    QcReply QueryIdentity QueryReplyArgs
  | QcReplyErr QueryIdentity QueryReplyErrArgs
  | QcReplyDelete QueryIdentity QueryReplyDeleteArgs
  | QcFinish QueryIdentity

fun command_identity :: "QueryableCommand \<Rightarrow> QueryIdentity" where
  "command_identity (QcReply i _) = i"
| "command_identity (QcReplyErr i _) = i"
| "command_identity (QcReplyDelete i _) = i"
| "command_identity (QcFinish i) = i"

record QueryableEventEnvelope =
  env_remote_handle :: u64
  env_event :: pb_QueryableEvent

datatype 'ch reply_pc =
    QwRecv
  | QwStale QueryableCommand
  | QwHead QueryableCommand
  | QwWaiting QueryableCommand wait_pc
  | QwCalling QueryableCommand 'ch u64
  | QwDone

record ('ch, 'c, 'd) queryable_sys = "('ch, 'c) event_sys" +
  qb_local_handle :: u64
  qb_args :: DeclareQueryableArgs
  qb_mode :: ConsumerMode
  qb_write :: "'d drop_oldest"
  qb_stale :: "QueryIdentity set"
  qb_active :: "(u64, QueryIdentity) hashmap"
  qb_worker :: "'ch reply_pc"
  qb_undeclare :: "'ch undeclare_pc"

definition GrpcSession_declare_queryable ::
  "('c, QueryableEventEnvelope) flume \<Rightarrow> ('d, QueryableCommand) flume \<Rightarrow> DeclareQueryableArgs \<Rightarrow> bool \<Rightarrow>
   'ch Inner \<Rightarrow> ('ch, 'c, 'd) queryable_sys" where
  "GrpcSession_declare_queryable F G req has_callback s =
     (let (h, s') = alloc_local_handle s in
      \<lparr>ev_session = s', ev_binding = binding_new, ev_sender = True,
       ev_queue = bounded_drop_oldest F RECV_QUEUE_CAPACITY, ev_stream_ready = False,
       ev_ready_epoch = 0, ev_closed = False, ev_close_epoch = 0, ev_worker = EwHead,
       qb_local_handle = h, qb_args = req, qb_mode = (if has_callback then Callback else Pull),
       qb_write = bounded_drop_oldest G SEND_QUEUE_CAPACITY, qb_stale = {}, qb_active = [],
       qb_worker = QwRecv, qb_undeclare = UnIdle\<rparr>)"

section \<open>Identities\<close>

definition is_query_stale :: "QueryIdentity \<Rightarrow> ('ch, 'c, 'd) queryable_sys \<Rightarrow> bool" where
  "is_query_stale i S \<longleftrightarrow> i \<in> qb_stale S"

definition mark_query_stale ::
  "QueryIdentity \<Rightarrow> ('ch, 'c, 'd) queryable_sys \<Rightarrow> ('ch, 'c, 'd) queryable_sys" where
  "mark_query_stale i S =
     S\<lparr>qb_active := hm_remove (qi_query_id i) (qb_active S),
       qb_stale := insert i (qb_stale S),
       ev_session := (if i \<in> qb_stale S then ev_session S
                      else log_line (LogStaleQuery (qi_query_id i)) (ev_session S))\<rparr>"

definition remember_query ::
  "QueryIdentity \<Rightarrow> ('ch, 'c, 'd) queryable_sys \<Rightarrow> ('ch, 'c, 'd) queryable_sys" where
  "remember_query i S = S\<lparr>qb_active := hm_insert (qi_query_id i) i (qb_active S)\<rparr>"

definition forget_query :: "u64 \<Rightarrow> ('ch, 'c, 'd) queryable_sys \<Rightarrow> ('ch, 'c, 'd) queryable_sys" where
  "forget_query q S = S\<lparr>qb_active := hm_remove q (qb_active S)\<rparr>"

definition query_identity :: "u64 \<Rightarrow> ('ch, 'c, 'd) queryable_sys \<Rightarrow> QueryIdentity option" where
  "query_identity q S = hm_get (qb_active S) q"

section \<open>The event worker\<close>

definition envelope :: "u64 \<Rightarrow> pb_QueryableEvent \<Rightarrow> QueryableEventEnvelope" where
  "envelope h ev = \<lparr>env_remote_handle = h, env_event = ev\<rparr>"

definition queryable_call :: "('ch, 'c, 'd) queryable_sys \<Rightarrow> ('ch \<times> request) option" where
  "queryable_call S =
     (let cid = client_id (ev_session S) in
      case ev_worker S of
        EwDeclaring c g \<Rightarrow> Some (c, DeclareQueryable (declare_queryable_request cid (qb_args S)))
      | EwOpening c g h \<Rightarrow> Some (c, QueryableEvents \<lparr>hreq_client_id = cid, hreq_handle = h\<rparr>)
      | _ \<Rightarrow> None)"

definition queryable_event_step ::
  "('c, QueryableEventEnvelope) flume \<Rightarrow> bool \<Rightarrow> u64 rpc_result \<Rightarrow> unit rpc_result \<Rightarrow>
   pb_QueryableEvent message \<Rightarrow> ('ch, 'c, 'd) queryable_sys \<Rightarrow> ('ch, 'c, 'd) queryable_sys option" where
  "queryable_event_step F = event_worker_step F ''queryable'' envelope"

section \<open>The reply worker\<close>

fun reply_command_request :: "string \<Rightarrow> QueryableCommand \<Rightarrow> request" where
  "reply_command_request cid (QcReply i a) = Reply (reply_request cid (qi_remote_handle i) (qi_query_id i) a)"
| "reply_command_request cid (QcReplyErr i a) =
     ReplyErr (reply_err_request cid (qi_remote_handle i) (qi_query_id i) a)"
| "reply_command_request cid (QcReplyDelete i a) =
     ReplyDelete (reply_delete_request cid (qi_remote_handle i) (qi_query_id i) a)"
| "reply_command_request cid (QcFinish i) =
     Finish \<lparr>qfin_client_id = cid, qfin_handle = qi_remote_handle i, qfin_query_id = qi_query_id i\<rparr>"

definition reply_call :: "('ch, 'c, 'd) queryable_sys \<Rightarrow> ('ch \<times> request) option" where
  "reply_call S =
     (case qb_worker S of
        QwCalling cmd c g \<Rightarrow> Some (c, reply_command_request (client_id (ev_session S)) cmd)
      | _ \<Rightarrow> None)"

definition reply_processed :: "('ch, 'c, 'd) queryable_sys \<Rightarrow> ('ch, 'c, 'd) queryable_sys" where
  "reply_processed S = S\<lparr>qb_write := processed_one (qb_write S), qb_worker := QwRecv\<rparr>"

definition reply_worker_step ::
  "('d, QueryableCommand) flume \<Rightarrow> bool \<Rightarrow> unit rpc_result \<Rightarrow> ('ch, 'c, 'd) queryable_sys \<Rightarrow>
   ('ch, 'c, 'd) queryable_sys option" where
  "reply_worker_step G pick answer S =
     (case qb_worker S of
        QwRecv \<Rightarrow>
          (case recv G (qb_write S) of
             None \<Rightarrow> None
           | Some (Inl _, q) \<Rightarrow> Some (S\<lparr>qb_write := q, qb_worker := QwDone\<rparr>)
           | Some (Inr cmd, q) \<Rightarrow> Some (S\<lparr>qb_write := q, qb_worker := QwStale cmd\<rparr>))
      | QwStale cmd \<Rightarrow>
          Some (if is_query_stale (command_identity cmd) S then reply_processed S
                else S\<lparr>qb_worker := QwHead cmd\<rparr>)
      | QwHead cmd \<Rightarrow>
          Some (if event_is_closed S then reply_processed S else S\<lparr>qb_worker := QwWaiting cmd WaitClosed\<rparr>)
      | QwWaiting cmd w \<Rightarrow>
          (case wait_step (event_is_closed S) (ev_close_epoch S) pick (ev_session S) w of
             None \<Rightarrow> None
           | Some (WaitMore w') \<Rightarrow> Some (S\<lparr>qb_worker := QwWaiting cmd w'\<rparr>)
           | Some (WaitReturn None) \<Rightarrow> Some (reply_processed S)
           | Some (WaitReturn (Some (c, g))) \<Rightarrow> Some (S\<lparr>qb_worker := QwCalling cmd c g\<rparr>))
      | QwCalling cmd c g \<Rightarrow>
          (case answer of
             Inr _ \<Rightarrow>
               Some (reply_processed
                 (case cmd of QcFinish i \<Rightarrow> forget_query (qi_query_id i) S | _ \<Rightarrow> S))
           | Inl st \<Rightarrow>
               if is_disconnect_status st
               then Some (ev_mark_disconnected g S\<lparr>qb_worker := QwHead cmd\<rparr>)
               else if is_stale_status st
               then Some (reply_processed (mark_query_stale (command_identity cmd) S))
               else Some (reply_processed (ev_log ''query reply'' st S)))
      | QwDone \<Rightarrow> None)"

section \<open>Answering queries\<close>

text \<open>The result of submitting a command to the reply worker.\<close>

definition enqueue_command ::
  "('d, QueryableCommand) flume \<Rightarrow> QueryableCommand \<Rightarrow> ('ch, 'c, 'd) queryable_sys \<Rightarrow>
   (unit result \<times> ('ch, 'c, 'd) queryable_sys) option" where
  "enqueue_command G cmd S =
     map_option (\<lambda>(r, q). (r, S\<lparr>qb_write := q\<rparr>))
       (submit G ''queryable send queue closed'' cmd (qb_write S))"

definition query_not_found :: Error where
  "query_not_found = Status (mk_status NotFound ''query not found'')"

definition GrpcQueryable_reply ::
  "('d, QueryableCommand) flume \<Rightarrow> QueryReplyArgs \<Rightarrow> ('ch, 'c, 'd) queryable_sys \<Rightarrow>
   (unit result \<times> ('ch, 'c, 'd) queryable_sys) option" where
  "GrpcQueryable_reply G args S =
     (case query_identity (ra_query_id args) S of
        None \<Rightarrow> Some (Inl query_not_found, S)
      | Some i \<Rightarrow> enqueue_command G (QcReply i args) S)"

definition GrpcQueryable_reply_err ::
  "('d, QueryableCommand) flume \<Rightarrow> QueryReplyErrArgs \<Rightarrow> ('ch, 'c, 'd) queryable_sys \<Rightarrow>
   (unit result \<times> ('ch, 'c, 'd) queryable_sys) option" where
  "GrpcQueryable_reply_err G args S =
     (case query_identity (rea_query_id args) S of
        None \<Rightarrow> Some (Inl query_not_found, S)
      | Some i \<Rightarrow> enqueue_command G (QcReplyErr i args) S)"

definition GrpcQueryable_reply_delete ::
  "('d, QueryableCommand) flume \<Rightarrow> QueryReplyDeleteArgs \<Rightarrow> ('ch, 'c, 'd) queryable_sys \<Rightarrow>
   (unit result \<times> ('ch, 'c, 'd) queryable_sys) option" where
  "GrpcQueryable_reply_delete G args S =
     (case query_identity (rda_query_id args) S of
        None \<Rightarrow> Some (Inl query_not_found, S)
      | Some i \<Rightarrow> enqueue_command G (QcReplyDelete i args) S)"

section \<open>Queries\<close>

record GrpcQuery =
  gq_inner :: pb_Query
  gq_remote_handle :: u64
  gq_finished :: bool

definition GrpcQuery_identity :: "GrpcQuery \<Rightarrow> QueryIdentity" where
  "GrpcQuery_identity q =
     \<lparr>qi_remote_handle = gq_remote_handle q, qi_query_id = qry_query_id (gq_inner q)\<rparr>"

definition mark_finished :: "GrpcQuery \<Rightarrow> bool \<times> GrpcQuery" where
  "mark_finished q = (\<not> gq_finished q, q\<lparr>gq_finished := True\<rparr>)"

definition GrpcQuery_reply ::
  "('d, QueryableCommand) flume \<Rightarrow> GrpcQuery \<Rightarrow> string \<Rightarrow> bytes \<Rightarrow> string \<Rightarrow> bytes \<Rightarrow> string \<Rightarrow>
   ('ch, 'c, 'd) queryable_sys \<Rightarrow> (unit result \<times> ('ch, 'c, 'd) queryable_sys) option" where
  "GrpcQuery_reply G q key_expr payload encoding attachment timestamp S =
     enqueue_command G (QcReply (GrpcQuery_identity q)
       \<lparr>ra_query_id = qry_query_id (gq_inner q), ra_key_expr = key_expr, ra_payload = payload,
        ra_encoding = encoding, ra_attachment = attachment, ra_timestamp = timestamp\<rparr>) S"

definition GrpcQuery_reply_err ::
  "('d, QueryableCommand) flume \<Rightarrow> GrpcQuery \<Rightarrow> bytes \<Rightarrow> string \<Rightarrow>
   ('ch, 'c, 'd) queryable_sys \<Rightarrow> (unit result \<times> ('ch, 'c, 'd) queryable_sys) option" where
  "GrpcQuery_reply_err G q payload encoding S =
     enqueue_command G (QcReplyErr (GrpcQuery_identity q)
       \<lparr>rea_query_id = qry_query_id (gq_inner q), rea_payload = payload, rea_encoding = encoding\<rparr>) S"

definition GrpcQuery_reply_delete ::
  "('d, QueryableCommand) flume \<Rightarrow> GrpcQuery \<Rightarrow> string \<Rightarrow> bytes \<Rightarrow> string \<Rightarrow>
   ('ch, 'c, 'd) queryable_sys \<Rightarrow> (unit result \<times> ('ch, 'c, 'd) queryable_sys) option" where
  "GrpcQuery_reply_delete G q key_expr attachment timestamp S =
     enqueue_command G (QcReplyDelete (GrpcQuery_identity q)
       \<lparr>rda_query_id = qry_query_id (gq_inner q), rda_key_expr = key_expr,
        rda_attachment = attachment, rda_timestamp = timestamp\<rparr>) S"

text \<open>\<^verbatim>\<open>Drop for GrpcQuery\<close>, and \<^verbatim>\<open>finish\<close>, which consumes the query and so drops it at its end.\<close>

definition GrpcQuery_drop ::
  "('d, QueryableCommand) flume \<Rightarrow> GrpcQuery \<Rightarrow> ('ch, 'c, 'd) queryable_sys \<Rightarrow>
   ('ch, 'c, 'd) queryable_sys option" where
  "GrpcQuery_drop G q S =
     (case mark_finished q of
        (True, q') \<Rightarrow> map_option snd (enqueue_command G (QcFinish (GrpcQuery_identity q')) S)
      | (False, q') \<Rightarrow> Some S)"

definition GrpcQuery_finish ::
  "('d, QueryableCommand) flume \<Rightarrow> GrpcQuery \<Rightarrow> ('ch, 'c, 'd) queryable_sys \<Rightarrow>
   (unit result \<times> ('ch, 'c, 'd) queryable_sys) option" where
  "GrpcQuery_finish G q S =
     (case mark_finished q of
        (True, q') \<Rightarrow>
          (case enqueue_command G (QcFinish (GrpcQuery_identity q')) S of
             None \<Rightarrow> None
           | Some (r, S') \<Rightarrow> map_option (\<lambda>S''. (r, S'')) (GrpcQuery_drop G q' S'))
      | (False, q') \<Rightarrow> map_option (\<lambda>S''. (Inr (), S'')) (GrpcQuery_drop G q' S))"

section \<open>Receiving queries\<close>

definition query_from_event ::
  "QueryableEventEnvelope \<Rightarrow> ('ch, 'c, 'd) queryable_sys \<Rightarrow> GrpcQuery result \<times> ('ch, 'c, 'd) queryable_sys" where
  "query_from_event ev S =
     (case qevt_query (env_event ev) of
        None \<Rightarrow> (Inl (Status (mk_status Unavailable ''queryable event missing query'')), S)
      | Some inner \<Rightarrow>
          (let i = \<lparr>qi_remote_handle = env_remote_handle ev, qi_query_id = qry_query_id inner\<rparr> in
           (Inr \<lparr>gq_inner = inner, gq_remote_handle = qi_remote_handle i, gq_finished = False\<rparr>,
            remember_query i S)))"

definition query_stream_closed :: Error where
  "query_stream_closed = Status (mk_status Unavailable ''query stream closed'')"

definition GrpcQueryable_recv ::
  "('c, QueryableEventEnvelope) flume \<Rightarrow> ('ch, 'c, 'd) queryable_sys \<Rightarrow>
   (GrpcQuery result \<times> ('ch, 'c, 'd) queryable_sys) option" where
  "GrpcQueryable_recv F S =
     (case ensure_pull_mode ''queryable'' (qb_mode S) of
        Inl e \<Rightarrow> Some (Inl e, S)
      | Inr _ \<Rightarrow>
          (case recv F (ev_queue S) of
             None \<Rightarrow> None
           | Some (Inl _, q) \<Rightarrow> Some (Inl query_stream_closed, S\<lparr>ev_queue := q\<rparr>)
           | Some (Inr ev, q) \<Rightarrow> Some (query_from_event ev (S\<lparr>ev_queue := q\<rparr>))))"

definition GrpcQueryable_try_recv ::
  "('c, QueryableEventEnvelope) flume \<Rightarrow> ('ch, 'c, 'd) queryable_sys \<Rightarrow>
   GrpcQuery option result \<times> ('ch, 'c, 'd) queryable_sys" where
  "GrpcQueryable_try_recv F S =
     (case ensure_pull_mode ''queryable'' (qb_mode S) of
        Inl e \<Rightarrow> (Inl e, S)
      | Inr _ \<Rightarrow>
          (case try_recv F (ev_queue S) of
             (RecvOk ev, q) \<Rightarrow> apfst (map_sum id Some) (query_from_event ev (S\<lparr>ev_queue := q\<rparr>))
           | (RecvEmpty, q) \<Rightarrow> (Inr None, S\<lparr>ev_queue := q\<rparr>)
           | (RecvDisconnected, q) \<Rightarrow> (Inl query_stream_closed, S\<lparr>ev_queue := q\<rparr>)))"

definition GrpcQueryable_is_closed ::
  "('c, QueryableEventEnvelope) flume \<Rightarrow> ('ch, 'c, 'd) queryable_sys \<Rightarrow> bool result" where
  "GrpcQueryable_is_closed F S =
     (case ensure_pull_mode ''queryable'' (qb_mode S) of
        Inl e \<Rightarrow> Inl e
      | Inr _ \<Rightarrow> Inr (event_is_closed S \<and> is_disconnected F (ev_queue S)))"

text \<open>
  One round of the dispatcher thread: the query it hands to the callback, if the event has one.
\<close>

definition queryable_dispatch_event ::
  "('c, QueryableEventEnvelope) flume \<Rightarrow> bool \<Rightarrow> ('ch, 'c, 'd) queryable_sys \<Rightarrow>
   (GrpcQuery option \<times> ('ch, 'c, 'd) queryable_sys) option" where
  "queryable_dispatch_event F panics S =
     (case recv F (ev_queue S) of
        None \<Rightarrow> None
      | Some (Inl _, q) \<Rightarrow> Some (None, S\<lparr>ev_queue := q\<rparr>)
      | Some (Inr ev, q) \<Rightarrow>
          (case query_from_event ev (S\<lparr>ev_queue := q\<rparr>) of
             (Inl _, S') \<Rightarrow> Some (None, S')
           | (Inr query, S') \<Rightarrow>
               Some (Some query,
                 if panics
                 then S'\<lparr>ev_session := log_line (LogCallbackPanicked ''queryable'') (ev_session S')\<rparr>
                 else S')))"

section \<open>Undeclaring\<close>

text \<open>The event queue is closed first; the pending answers are sent before the queryable is closed.\<close>

definition queryable_undeclare_step ::
  "('c, QueryableEventEnvelope) flume \<Rightarrow> unit rpc_result \<Rightarrow> ('ch, 'c, 'd) queryable_sys \<Rightarrow>
   ('ch, 'c, 'd) queryable_sys option" where
  "queryable_undeclare_step F answer S =
     (case qb_undeclare S of
        UnIdle \<Rightarrow> Some (close_queue F S\<lparr>qb_undeclare := UnWaitEmpty\<rparr>)
      | UnWaitEmpty \<Rightarrow>
          if pending (qb_write S) = 0 then Some (S\<lparr>qb_undeclare := UnClose\<rparr>) else None
      | UnClose \<Rightarrow>
          Some (S\<lparr>ev_closed := True, ev_close_epoch := Suc (ev_close_epoch S),
                  qb_undeclare := UnTake\<rparr>)
      | pc \<Rightarrow>
          map_option (\<lambda>(pc', b, s). S\<lparr>ev_binding := b, ev_session := s, qb_undeclare := pc'\<rparr>)
            (undeclare_tail answer (pc, ev_binding S, ev_session S)))"

end
