(* ===== verification/Client_Replies.thy ===== *)
theory Client_Replies
  imports Client_Queryable
begin

text \<open>
  Properties of queryables and queries of the client core: what the application receives comes in
  order from the server, answers go out in the order they were given, a query is finished exactly
  once, and nothing is sent for a query that is known to be stale. The machine \<open>queryable_step\<close> lets
  one of the actors of a queryable move: the event worker, the reply worker, the application with
  the calls of \<^verbatim>\<open>GrpcQueryable\<close> and \<^verbatim>\<open>GrpcQuery\<close>, the dispatcher, and \<^verbatim>\<open>undeclare\<close>.
\<close>

section \<open>The queryable as a machine\<close>

datatype 'ch queryable_input =
    QiEvents bool "u64 rpc_result" "unit rpc_result" "pb_QueryableEvent message"
  | QiWorker bool "unit rpc_result"
  | QiReply QueryReplyArgs
  | QiReplyErr QueryReplyErrArgs
  | QiReplyDelete QueryReplyDeleteArgs
  | QiQueryReply GrpcQuery string bytes string bytes string
  | QiQueryReplyErr GrpcQuery bytes string
  | QiQueryReplyDelete GrpcQuery string bytes string
  | QiFinish GrpcQuery
  | QiDrop GrpcQuery
  | QiRecv
  | QiTryRecv
  | QiDispatch bool
  | QiUndeclare "unit rpc_result"
  | QiSession "'ch Inner"

fun queryable_step ::
  "('c, QueryableEventEnvelope) flume \<Rightarrow> ('d, QueryableCommand) flume \<Rightarrow> 'ch queryable_input \<Rightarrow>
   ('ch, 'c, 'd) queryable_sys \<Rightarrow> ('ch, 'c, 'd) queryable_sys option" where
  "queryable_step F G (QiEvents pick ha oa msg) S = queryable_event_step F pick ha oa msg S"
| "queryable_step F G (QiWorker pick a) S = reply_worker_step G pick a S"
| "queryable_step F G (QiReply a) S = map_option snd (GrpcQueryable_reply G a S)"
| "queryable_step F G (QiReplyErr a) S = map_option snd (GrpcQueryable_reply_err G a S)"
| "queryable_step F G (QiReplyDelete a) S = map_option snd (GrpcQueryable_reply_delete G a S)"
| "queryable_step F G (QiQueryReply q k p e at ts) S = map_option snd (GrpcQuery_reply G q k p e at ts S)"
| "queryable_step F G (QiQueryReplyErr q p e) S = map_option snd (GrpcQuery_reply_err G q p e S)"
| "queryable_step F G (QiQueryReplyDelete q k at ts) S = map_option snd (GrpcQuery_reply_delete G q k at ts S)"
| "queryable_step F G (QiFinish q) S = map_option snd (GrpcQuery_finish G q S)"
| "queryable_step F G (QiDrop q) S = GrpcQuery_drop G q S"
| "queryable_step F G QiRecv S = map_option snd (GrpcQueryable_recv F S)"
| "queryable_step F G QiTryRecv S = Some (snd (GrpcQueryable_try_recv F S))"
| "queryable_step F G (QiDispatch panics) S =
     (if qb_mode S = Callback then map_option snd (queryable_dispatch_event F panics S) else None)"
| "queryable_step F G (QiUndeclare a) S = queryable_undeclare_step F a S"
| "queryable_step F G (QiSession s) S = Some (S\<lparr>ev_session := s\<rparr>)"

section \<open>What an input submits, and what it reports as sent\<close>

fun reply_current :: "'ch reply_pc \<Rightarrow> QueryableCommand option" where
  "reply_current (QwStale cmd) = Some cmd"
| "reply_current (QwHead cmd) = Some cmd"
| "reply_current (QwWaiting cmd _) = Some cmd"
| "reply_current (QwCalling cmd _ _) = Some cmd"
| "reply_current _ = None"

definition by_id :: "(QueryIdentity \<Rightarrow> QueryableCommand) \<Rightarrow> u64 \<Rightarrow> ('ch, 'c, 'd) queryable_sys \<Rightarrow> QueryableCommand list" where
  "by_id f q S = map f (held (query_identity q S))"

definition finish_commands :: "GrpcQuery \<Rightarrow> QueryableCommand list" where
  "finish_commands q = (if gq_finished q then [] else [QcFinish (GrpcQuery_identity q)])"

fun reply_submitted :: "'ch queryable_input \<Rightarrow> ('ch, 'c, 'd) queryable_sys \<Rightarrow> QueryableCommand list" where
  "reply_submitted (QiReply a) S = by_id (\<lambda>i. QcReply i a) (ra_query_id a) S"
| "reply_submitted (QiReplyErr a) S = by_id (\<lambda>i. QcReplyErr i a) (rea_query_id a) S"
| "reply_submitted (QiReplyDelete a) S = by_id (\<lambda>i. QcReplyDelete i a) (rda_query_id a) S"
| "reply_submitted (QiQueryReply q k p e at ts) S =
     [QcReply (GrpcQuery_identity q)
       \<lparr>ra_query_id = qry_query_id (gq_inner q), ra_key_expr = k, ra_payload = p, ra_encoding = e,
        ra_attachment = at, ra_timestamp = ts\<rparr>]"
| "reply_submitted (QiQueryReplyErr q p e) S =
     [QcReplyErr (GrpcQuery_identity q)
       \<lparr>rea_query_id = qry_query_id (gq_inner q), rea_payload = p, rea_encoding = e\<rparr>]"
| "reply_submitted (QiQueryReplyDelete q k at ts) S =
     [QcReplyDelete (GrpcQuery_identity q)
       \<lparr>rda_query_id = qry_query_id (gq_inner q), rda_key_expr = k, rda_attachment = at,
        rda_timestamp = ts\<rparr>]"
| "reply_submitted (QiFinish q) S = finish_commands q"
| "reply_submitted (QiDrop q) S = finish_commands q"
| "reply_submitted _ S = []"

fun reply_acked :: "'ch queryable_input \<Rightarrow> ('ch, 'c, 'd) queryable_sys \<Rightarrow> QueryableCommand list" where
  "reply_acked (QiWorker pick (Inr u)) S = (case qb_worker S of QwCalling cmd _ _ \<Rightarrow> [cmd] | _ \<Rightarrow> [])"
| "reply_acked _ S = []"

text \<open>The event that an input takes out of the queue of events.\<close>

definition taken_event :: "('c, 't) flume \<Rightarrow> 'c drop_oldest \<Rightarrow> 't list" where
  "taken_event F q = (case try_recv F q of (RecvOk x, _) \<Rightarrow> [x] | _ \<Rightarrow> [])"

fun query_received ::
  "('c, QueryableEventEnvelope) flume \<Rightarrow> 'ch queryable_input \<Rightarrow> ('ch, 'c, 'd) queryable_sys \<Rightarrow>
   QueryableEventEnvelope list" where
  "query_received F QiRecv S = (if qb_mode S = Pull then taken_event F (ev_queue S) else [])"
| "query_received F QiTryRecv S = (if qb_mode S = Pull then taken_event F (ev_queue S) else [])"
| "query_received F (QiDispatch panics) S = (if qb_mode S = Callback then taken_event F (ev_queue S) else [])"
| "query_received F _ S = []"

fun query_streamed :: "'ch queryable_input \<Rightarrow> ('ch, 'c, 'd) queryable_sys \<Rightarrow> QueryableEventEnvelope list" where
  "query_streamed (QiEvents pick ha oa msg) S = streams envelope msg S"
| "query_streamed _ S = []"

section \<open>The effects of a step\<close>

lemmas answer_defs = GrpcQueryable_reply_def GrpcQueryable_reply_err_def GrpcQueryable_reply_delete_def
  GrpcQuery_reply_def GrpcQuery_reply_err_def GrpcQuery_reply_delete_def GrpcQuery_finish_def
  GrpcQuery_drop_def mark_finished_def

lemmas receive_defs = GrpcQueryable_recv_def GrpcQueryable_try_recv_def queryable_dispatch_event_def
  ensure_pull_mode_def query_from_event_def remember_query_def

lemmas reply_worker_defs = reply_worker_step_def reply_processed_def forget_query_def
  mark_query_stale_def ev_mark_disconnected_def ev_log_def

text \<open>Submitting touches only the queue of answers.\<close>

lemma enqueue_Some:
  assumes "enqueue_command G cmd S = Some (r, S')"
  obtains q where "submit G ''queryable send queue closed'' cmd (qb_write S) = Some (r, q)"
    "S' = S\<lparr>qb_write := q\<rparr>"
  using assms by (auto simp: enqueue_command_def)

lemma query_event_write_side:
  "queryable_event_step F pick ha oa msg S = Some S' \<Longrightarrow>
   qb_write S' = qb_write S \<and> qb_worker S' = qb_worker S \<and> qb_stale S' = qb_stale S
   \<and> qb_active S' = qb_active S \<and> qb_mode S' = qb_mode S"
  by (auto simp: queryable_event_step_def event_worker_step_def read_message_def Let_def
      ev_mark_disconnected_def mark_stream_not_ready_def mark_stream_ready_def ev_log_def
      split: event_pc.splits option.splits sum.splits if_splits wait_result.splits message.splits)

lemma reply_worker_event_side:
  "reply_worker_step G pick a S = Some S' \<Longrightarrow> ev_queue S' = ev_queue S \<and> ev_sender S' = ev_sender S"
  by (auto simp: reply_worker_defs split: reply_pc.splits option.splits sum.splits if_splits
      wait_result.splits QueryableCommand.splits)

lemma query_from_event_sides:
  "query_from_event ev S = (r, S') \<Longrightarrow>
   ev_queue S' = ev_queue S \<and> ev_sender S' = ev_sender S \<and> qb_write S' = qb_write S
   \<and> qb_worker S' = qb_worker S \<and> qb_stale S' = qb_stale S \<and> qb_mode S' = qb_mode S"
  by (auto simp: query_from_event_def remember_query_def Let_def split: option.splits)

text \<open>The inputs of the application that answer queries make at most one submission each.\<close>

lemma answer_step:
  assumes "queryable_step F G i S = Some S'"
    and "case i of QiEvents _ _ _ _ \<Rightarrow> False | QiWorker _ _ \<Rightarrow> False | QiRecv \<Rightarrow> False | QiTryRecv \<Rightarrow> False
      | QiDispatch _ \<Rightarrow> False | QiUndeclare _ \<Rightarrow> False | QiSession _ \<Rightarrow> False | _ \<Rightarrow> True"
  shows "reply_submitted i S = [] \<and> S' = S
    \<or> (\<exists>cmd r q. reply_submitted i S = [cmd] \<and> S' = S\<lparr>qb_write := q\<rparr>
        \<and> submit G ''queryable send queue closed'' cmd (qb_write S) = Some (r, q))"
  using assms
  by (cases i) (auto simp: answer_defs by_id_def finish_commands_def GrpcQuery_identity_def
      split: option.splits if_splits elim!: enqueue_Some)

section \<open>The reply worker is a command worker\<close>

locale queryable_channels =
  evs: bounded_channel F ev_contents ev_capacity ev_receivers ev_senders +
  cmds: bounded_channel G contents capacity receivers senders
  for F :: "('c, QueryableEventEnvelope) flume" and ev_contents ev_capacity ev_receivers ev_senders
    and G :: "('d, QueryableCommand) flume" and contents capacity receivers senders

lemma receiving_write_side:
  assumes "queryable_step F G i S = Some S'"
    and "i = QiRecv \<or> i = QiTryRecv \<or> i = QiDispatch p \<or> i = QiUndeclare a \<or> i = QiSession s"
  shows "qb_write S' = qb_write S \<and> qb_worker S' = qb_worker S \<and> qb_stale S' = qb_stale S"
  using assms
  by (auto simp: receive_defs queryable_undeclare_step_def close_queue_def
      split: option.splits sum.splits if_splits recv_outcome.splits prod.splits undeclare_pc.splits)

sublocale queryable_channels \<subseteq> rw: command_worker "queryable_step F G"
  "\<lambda>S. cmds.queue_ok SEND_QUEUE_CAPACITY (qb_write S)" "\<lambda>S. reply_current (qb_worker S)"
  "\<lambda>S. contents (chan (qb_write S))" "\<lambda>S. pending (qb_write S)" reply_submitted reply_acked
proof -
  have all: "cmds.queue_ok SEND_QUEUE_CAPACITY (qb_write S')
    \<and> ((reply_current (qb_worker S') = reply_current (qb_worker S) \<and> reply_acked i S = []
       \<and> subseq (contents (chan (qb_write S'))) (contents (chan (qb_write S)) @ reply_submitted i S)
       \<and> pending (qb_write S') - of_nat (length (contents (chan (qb_write S')))) =
           pending (qb_write S) - of_nat (length (contents (chan (qb_write S)))))
    \<or> (\<exists>c. reply_current (qb_worker S) = None \<and> reply_current (qb_worker S') = Some c
       \<and> contents (chan (qb_write S)) = c # contents (chan (qb_write S')) \<and> reply_acked i S = []
       \<and> reply_submitted i S = [] \<and> pending (qb_write S') = pending (qb_write S))
    \<or> (\<exists>c. reply_current (qb_worker S) = Some c \<and> reply_current (qb_worker S') = None
       \<and> contents (chan (qb_write S')) = contents (chan (qb_write S)) \<and> reply_submitted i S = []
       \<and> (reply_acked i S = [] \<or> reply_acked i S = [c])
       \<and> pending (qb_write S') = pending (qb_write S) - 1))"
    if ok: "cmds.queue_ok SEND_QUEUE_CAPACITY (qb_write S)" and step: "queryable_step F G i S = Some S'"
    for i and S S' :: "('b, 'c, 'd) queryable_sys"
  proof (cases i)
    case (QiEvents pick ha oa msg)
    with step ok query_event_write_side [of F pick ha oa msg S S'] show ?thesis by simp
  next
    case (QiWorker pick answer)
    have "cmds.queue_ok SEND_QUEUE_CAPACITY (qb_write S')"
      using ok step QiWorker cmds.queue_ok_recv [OF ok]
      by (auto simp: reply_worker_defs split: reply_pc.splits option.splits sum.splits if_splits
          wait_result.splits QueryableCommand.splits)
    with QiWorker step show ?thesis
      by (cases answer) (auto simp: reply_worker_defs processed_one_def dest!: cmds.recv_Inr cmds.recv_Inl
        split: reply_pc.splits if_splits option.splits wait_result.splits sum.splits
          QueryableCommand.splits)
  next
    case QiRecv
    with step ok receiving_write_side [OF step] show ?thesis by simp
  next
    case QiTryRecv
    with step ok receiving_write_side [OF step] show ?thesis by simp
  next
    case (QiDispatch p)
    with step ok receiving_write_side [OF step] show ?thesis by simp
  next
    case (QiUndeclare a)
    with step ok receiving_write_side [OF step] show ?thesis by simp
  next
    case (QiSession s)
    with step ok receiving_write_side [OF step] show ?thesis by simp
  qed (use answer_step [OF step] ok in \<open>auto dest: cmds.submit_ok [OF ok]\<close>)
  have bound: "length (contents (chan (qb_write S))) < 2 ^ 64 - 1"
    if "cmds.queue_ok SEND_QUEUE_CAPACITY (qb_write S)" for S :: "('b, 'c, 'd) queryable_sys"
    using that by (simp add: cmds.queue_ok_def SEND_QUEUE_CAPACITY_def)
  show "command_worker (queryable_step F G)
      (\<lambda>S :: ('b, 'c, 'd) queryable_sys. cmds.queue_ok SEND_QUEUE_CAPACITY (qb_write S))
      (\<lambda>S. reply_current (qb_worker S)) (\<lambda>S. contents (chan (qb_write S)))
      (\<lambda>S. pending (qb_write S)) reply_submitted reply_acked"
  proof
    fix i and S S' :: "('b, 'c, 'd) queryable_sys"
    assume "cmds.queue_ok SEND_QUEUE_CAPACITY (qb_write S)" "queryable_step F G i S = Some S'"
    from all [OF this] show "cmds.queue_ok SEND_QUEUE_CAPACITY (qb_write S')" by blast
  qed (use all bound in blast)+
qed

section \<open>The queryable receives what is streamed\<close>

lemma answer_event_side:
  assumes "queryable_step F G i S = Some S'"
    and "case i of QiEvents _ _ _ _ \<Rightarrow> False | QiRecv \<Rightarrow> False | QiTryRecv \<Rightarrow> False
      | QiDispatch _ \<Rightarrow> False | QiUndeclare _ \<Rightarrow> False | _ \<Rightarrow> True"
  shows "ev_queue S' = ev_queue S \<and> ev_sender S' = ev_sender S"
proof (cases i)
  case (QiWorker pick a)
  with assms(1) reply_worker_event_side [of G pick a S S'] show ?thesis by simp
next
  case (QiSession s)
  with assms(1) show ?thesis by auto
qed (use assms answer_step [OF assms(1)] in auto)

context queryable_channels
begin

lemma taken_event_recv:
  assumes "evs.events_ok (ev_queue S) b" and "recv F (ev_queue S) = Some (r, q)"
  shows "evs.events_ok q b \<and> taken_event F (ev_queue S) @ ev_contents (chan q) = ev_contents (chan (ev_queue S))"
  using assms
proof (cases rule: evs.recv_events)
  case (item x)
  from assms(1) show ?thesis
  proof (cases rule: evs.try_recv_events)
    case (item y q')
    then show ?thesis using assms \<open>r = Inr x\<close> \<open>evs.events_ok q b\<close>
      by (auto simp: taken_event_def try_recv_def recv_def split: prod.splits recv_outcome.splits)
  next
    case (none r')
    then show ?thesis using assms \<open>r = Inr x\<close>
      by (auto simp: try_recv_def recv_def split: prod.splits recv_outcome.splits)
  qed
next
  case closed
  with assms(2) show ?thesis
    by (auto simp: taken_event_def try_recv_def recv_def split: prod.splits recv_outcome.splits)
qed

lemma taken_event_try_recv:
  assumes "evs.events_ok (ev_queue S) b" and "try_recv F (ev_queue S) = (r, q)"
  shows "evs.events_ok q b \<and> taken_event F (ev_queue S) @ ev_contents (chan q) = ev_contents (chan (ev_queue S))"
  using assms(1)
  by (cases rule: evs.try_recv_events) (use assms in \<open>auto simp: taken_event_def\<close>)

end

sublocale queryable_channels \<subseteq> qe: event_pipe "queryable_step F G"
  "\<lambda>S. evs.events_ok (ev_queue S) (ev_sender S)" "\<lambda>S. ev_contents (chan (ev_queue S))"
  query_streamed "query_received F" "\<lambda>S. \<not> ev_sender S"
proof -
  have all: "evs.events_ok (ev_queue S') (ev_sender S')
      \<and> subseq (query_received F i S @ ev_contents (chan (ev_queue S')))
          (ev_contents (chan (ev_queue S)) @ query_streamed i S)
      \<and> (\<not> ev_sender S \<longrightarrow> \<not> ev_sender S'
          \<and> query_received F i S @ ev_contents (chan (ev_queue S')) = ev_contents (chan (ev_queue S)))"
    if ok: "evs.events_ok (ev_queue S) (ev_sender S)" and step: "queryable_step F G i S = Some S'"
    for i and S S' :: "('b, 'c, 'd) queryable_sys"
  proof (cases i)
    case (QiEvents pick ha oa msg)
    with step evs.worker_pipe [OF ok, of "''queryable''" envelope pick ha oa msg S'] show ?thesis
      by (simp add: queryable_event_step_def)
  next
    case QiRecv
    show ?thesis
    proof (cases "qb_mode S")
      case Pull
      with step QiRecv obtain r q where r: "recv F (ev_queue S) = Some (r, q)"
        and q: "ev_queue S' = q" "ev_sender S' = ev_sender S"
        by (auto simp: receive_defs Let_def split: option.splits sum.splits)
      from taken_event_recv [OF ok r] q QiRecv Pull show ?thesis by simp
    qed (use step ok QiRecv in \<open>simp add: receive_defs\<close>)
  next
    case QiTryRecv
    show ?thesis
    proof (cases "qb_mode S")
      case Pull
      with step QiTryRecv obtain r q where r: "try_recv F (ev_queue S) = (r, q)"
        and q: "ev_queue S' = q" "ev_sender S' = ev_sender S"
        by (auto simp: receive_defs Let_def split: option.splits recv_outcome.splits prod.splits)
      from taken_event_try_recv [OF ok r] q QiTryRecv Pull show ?thesis by simp
    qed (use step ok QiTryRecv in \<open>simp add: receive_defs\<close>)
  next
    case (QiDispatch panics)
    with step obtain r q where r: "recv F (ev_queue S) = Some (r, q)" and m: "qb_mode S = Callback"
      and q: "ev_queue S' = q" "ev_sender S' = ev_sender S"
      by (auto simp: receive_defs Let_def split: option.splits sum.splits if_splits prod.splits)
    from taken_event_recv [OF ok r] q QiDispatch m show ?thesis by simp
  next
    case (QiUndeclare a)
    with step ok evs.close_queue_ok [OF ok] show ?thesis
      by (auto simp: queryable_undeclare_step_def split: undeclare_pc.splits if_splits)
  qed (use ok answer_event_side [OF step] in auto)
  show "event_pipe (queryable_step F G)
      (\<lambda>S :: ('b, 'c, 'd) queryable_sys. evs.events_ok (ev_queue S) (ev_sender S))
      (\<lambda>S. ev_contents (chan (ev_queue S))) query_streamed (query_received F) (\<lambda>S. \<not> ev_sender S)"
    by unfold_locales (use all in blast)+
qed

section \<open>Order of events and answers\<close>

context queryable_channels
begin

lemma fresh_queryable:
  assumes "S0 = GrpcSession_declare_queryable F G req cb s0"
  shows "evs.events_ok (ev_queue S0) (ev_sender S0)" "ev_contents (chan (ev_queue S0)) = []"
    "cmds.queue_ok SEND_QUEUE_CAPACITY (qb_write S0)" "contents (chan (qb_write S0)) = []"
    "pending (qb_write S0) = 0" "reply_current (qb_worker S0) = None"
  using evs.events_ok_new evs.bounded_new cmds.bounded_new cmds.queue_ok_new [of SEND_QUEUE_CAPACITY]
  by (simp_all add: assms GrpcSession_declare_queryable_def Let_def case_prod_beta
      bounded_drop_oldest_def SEND_QUEUE_CAPACITY_def)

lemma query_order:
  assumes "S0 = GrpcSession_declare_queryable F G req cb s0"
  shows "subseq (run_log (queryable_step F G) (query_received F) is S0)
    (run_log (queryable_step F G) query_streamed is S0)"
  using qe.run_pipe [OF fresh_queryable(1) [OF assms], of "is"] fresh_queryable(2) [OF assms]
  by (auto elim: subseq_order.order_trans [rotated] simp: subseq_rev_drop_many)

lemma reply_order:
  assumes "S0 = GrpcSession_declare_queryable F G req cb s0" and "S = run_steps (queryable_step F G) is S0"
  shows "subseq (run_log (queryable_step F G) reply_acked is S0)
      (run_log (queryable_step F G) reply_submitted is S0)
    \<and> (pending (qb_write S) = 0 \<longrightarrow>
        reply_current (qb_worker S) = None \<and> contents (chan (qb_write S)) = [])"
  unfolding assms(2) by (rule rw.fresh_run [OF fresh_queryable(3,6,4,5) [OF assms(1)]])

end

interpretation queryable_fifo: queryable_channels
  fifo_flume items fifo_cap "\<lambda>c. n_receivers c \<noteq> 0" n_senders
  fifo_flume items fifo_cap "\<lambda>c. n_receivers c \<noteq> 0" n_senders
  by (intro queryable_channels.intro fifo.bounded_channel_axioms)

text \<open>
  A queryable receives queries in order. Whatever happens to the connection and the stream, the
  events that the application or the dispatcher takes are a subsequence of what the server
  streamed, each with the remote handle it came from.
\<close>

theorem queryable_events_in_order:
  assumes "bounded_channel F ec ecap er es" and "bounded_channel G contents capacity receivers senders"
    and "S0 = GrpcSession_declare_queryable F G req has_callback s0"
  shows "subseq (run_log (queryable_step F G) (query_received F) is S0)
    (run_log (queryable_step F G) query_streamed is S0)"
  by (rule queryable_channels.query_order [OF queryable_channels.intro [OF assms(1,2)] assms(3)])

text \<open>
  Answers go out in order. The server acknowledges the replies, errors, deletions and finishes of
  a queryable in the order in which the application gave them, each at most once; a pending counter
  of zero, which \<^verbatim>\<open>undeclare\<close> waits for, means that none is left.
\<close>

theorem replies_in_order:
  assumes "bounded_channel F ec ecap er es" and "bounded_channel G contents capacity receivers senders"
    and "S0 = GrpcSession_declare_queryable F G req has_callback s0"
    and "S = run_steps (queryable_step F G) is S0"
  shows "subseq (run_log (queryable_step F G) reply_acked is S0)
      (run_log (queryable_step F G) reply_submitted is S0)
    \<and> (pending (qb_write S) = 0 \<longrightarrow>
        reply_current (qb_worker S) = None \<and> contents (chan (qb_write S)) = [])"
  by (rule queryable_channels.reply_order [OF queryable_channels.intro [OF assms(1,2)] assms(3,4)])

section \<open>Stale queries\<close>

fun reply_checked :: "'ch reply_pc \<Rightarrow> QueryableCommand option" where
  "reply_checked (QwHead cmd) = Some cmd"
| "reply_checked (QwWaiting cmd _) = Some cmd"
| "reply_checked (QwCalling cmd _ _) = Some cmd"
| "reply_checked _ = None"

definition stale_inv :: "('ch, 'c, 'd) queryable_sys \<Rightarrow> bool" where
  "stale_inv S \<longleftrightarrow>
     (\<forall>cmd. reply_checked (qb_worker S) = Some cmd \<longrightarrow> command_identity cmd \<notin> qb_stale S)"

lemma stale_step:
  assumes "queryable_step F G i S = Some S'"
  shows "qb_stale S \<subseteq> qb_stale S' \<and> (stale_inv S \<longrightarrow> stale_inv S')"
proof (cases i)
  case (QiEvents pick ha oa msg)
  with assms query_event_write_side [of F pick ha oa msg S S'] show ?thesis by (simp add: stale_inv_def)
next
  case (QiWorker pick a)
  with assms show ?thesis
    by (auto simp: reply_worker_defs stale_inv_def is_query_stale_def
        split: reply_pc.splits option.splits sum.splits if_splits wait_result.splits
          QueryableCommand.splits)
next
  case QiRecv
  with receiving_write_side [OF assms] show ?thesis by (simp add: stale_inv_def)
next
  case QiTryRecv
  with receiving_write_side [OF assms] show ?thesis by (simp add: stale_inv_def)
next
  case (QiDispatch p)
  with receiving_write_side [OF assms] show ?thesis by (simp add: stale_inv_def)
next
  case (QiUndeclare a)
  with receiving_write_side [OF assms] show ?thesis by (simp add: stale_inv_def)
next
  case (QiSession s)
  with receiving_write_side [OF assms] show ?thesis by (simp add: stale_inv_def)
qed (use answer_step [OF assms] in \<open>auto simp: stale_inv_def\<close>)

lemma stale_acked:
  "stale_inv S \<Longrightarrow> cmd \<in> set (reply_acked i S) \<Longrightarrow> command_identity cmd \<notin> qb_stale S"
  by (cases "(i, S)" rule: reply_acked.cases; cases "qb_worker S") (auto simp: stale_inv_def)

lemma stale_run:
  assumes "stale_inv S"
  shows "stale_inv (run_steps (queryable_step F G) is S)
    \<and> qb_stale S \<subseteq> qb_stale (run_steps (queryable_step F G) is S)
    \<and> (\<forall>cmd \<in> set (run_log (queryable_step F G) reply_acked is S). command_identity cmd \<notin> qb_stale S)"
  using assms
proof (induction "is" arbitrary: S)
  case (Cons i "is")
  show ?case
  proof (cases "queryable_step F G i S")
    case (Some S')
    from stale_step [OF this] Cons.prems have "stale_inv S'" and sub: "qb_stale S \<subseteq> qb_stale S'"
      by blast+
    from Cons.IH [OF this(1)] sub stale_acked [OF Cons.prems] Some show ?thesis
      by (auto simp: step_or_stay_def)
  qed (use Cons in \<open>simp add: step_or_stay_def\<close>)
qed simp

text \<open>
  A stale query is silent for ever. Once the server has told a queryable that it does not know a
  query, in every continuation no request with the identity of this query is under way and none is
  acknowledged, whatever the application still submits for it.
\<close>

theorem stale_query_silent:
  assumes "S0 = GrpcSession_declare_queryable F G req has_callback s0"
    and "S = run_steps (queryable_step F G) is S0" and "i \<in> qb_stale S"
    and "T = run_steps (queryable_step F G) js S"
  shows "(\<forall>cmd c g. qb_worker T = QwCalling cmd c g \<longrightarrow> command_identity cmd \<noteq> i)
    \<and> i \<notin> command_identity ` set (run_log (queryable_step F G) reply_acked js S)
    \<and> i \<in> qb_stale T"
proof -
  have "stale_inv S0"
    by (simp add: assms(1) GrpcSession_declare_queryable_def stale_inv_def Let_def case_prod_beta)
  then have "stale_inv S" unfolding assms(2) using stale_run by blast
  from stale_run [OF this, of F G js, folded assms(4)] assms(3) show ?thesis
    by (auto simp: stale_inv_def)
qed

section \<open>The life of a query\<close>

datatype query_op =
    OpReply string bytes string bytes string
  | OpReplyErr bytes string
  | OpReplyDelete string bytes string

fun op_input :: "GrpcQuery \<Rightarrow> query_op \<Rightarrow> 'ch queryable_input" where
  "op_input q (OpReply k p e at ts) = QiQueryReply q k p e at ts"
| "op_input q (OpReplyErr p e) = QiQueryReplyErr q p e"
| "op_input q (OpReplyDelete k at ts) = QiQueryReplyDelete q k at ts"

fun op_command :: "GrpcQuery \<Rightarrow> query_op \<Rightarrow> QueryableCommand" where
  "op_command q (OpReply k p e at ts) =
     QcReply (GrpcQuery_identity q)
       \<lparr>ra_query_id = qry_query_id (gq_inner q), ra_key_expr = k, ra_payload = p, ra_encoding = e,
        ra_attachment = at, ra_timestamp = ts\<rparr>"
| "op_command q (OpReplyErr p e) =
     QcReplyErr (GrpcQuery_identity q)
       \<lparr>rea_query_id = qry_query_id (gq_inner q), rea_payload = p, rea_encoding = e\<rparr>"
| "op_command q (OpReplyDelete k at ts) =
     QcReplyDelete (GrpcQuery_identity q)
       \<lparr>rda_query_id = qry_query_id (gq_inner q), rda_key_expr = k, rda_attachment = at,
        rda_timestamp = ts\<rparr>"

fun is_finish :: "QueryableCommand \<Rightarrow> bool" where
  "is_finish (QcFinish _) = True"
| "is_finish _ = False"

lemma op_command_simps [simp]: "\<not> is_finish (op_command q op)"
  "command_identity (op_command q op) = GrpcQuery_identity q"
  by (cases op; simp)+

context queryable_channels
begin

lemma submit_total:
  assumes "cmds.queue_ok n q"
  obtains q' where "submit G m cmd q = Some (Inr (), q')" "push G cmd q = Some (Inr (), q')"
    "cmds.queue_ok n q'"
  using cmds.push_queue_ok [OF assms, of cmd] by (auto simp: submit_def)

lemma op_step:
  assumes "cmds.queue_ok n (qb_write S)"
  obtains q' where "queryable_step F G (op_input q op) S = Some (S\<lparr>qb_write := q'\<rparr>)"
    "push G (op_command q op) (qb_write S) = Some (Inr (), q')" "cmds.queue_ok n q'"
proof -
  from submit_total [OF assms, of "''queryable send queue closed''" "op_command q op"] obtain q' where
    "submit G ''queryable send queue closed'' (op_command q op) (qb_write S) = Some (Inr (), q')"
    "push G (op_command q op) (qb_write S) = Some (Inr (), q')" "cmds.queue_ok n q'" .
  then show ?thesis
    by (intro that) (cases op; simp add: answer_defs enqueue_command_def)+
qed

lemma end_step:
  assumes "cmds.queue_ok n (qb_write S)" and "\<not> gq_finished q" and "e = QiFinish q \<or> e = QiDrop q"
  obtains q' where "queryable_step F G e S = Some (S\<lparr>qb_write := q'\<rparr>)"
    "push G (QcFinish (GrpcQuery_identity q)) (qb_write S) = Some (Inr (), q')"
proof -
  from submit_total [OF assms(1), of "''queryable send queue closed''" "QcFinish (GrpcQuery_identity q)"]
  obtain q' where
    "submit G ''queryable send queue closed'' (QcFinish (GrpcQuery_identity q)) (qb_write S) = Some (Inr (), q')"
    "push G (QcFinish (GrpcQuery_identity q)) (qb_write S) = Some (Inr (), q')" .
  with assms(2,3) show ?thesis
    by (intro that) (auto simp: answer_defs enqueue_command_def GrpcQuery_identity_def)
qed

lemma query_life:
  assumes "cmds.queue_ok n (qb_write S)" and "\<not> gq_finished q" and "e = QiFinish q \<or> e = QiDrop q"
  shows "push_all G (map (op_command q) ops @ [QcFinish (GrpcQuery_identity q)]) (qb_write S) =
    Some (qb_write (run_steps (queryable_step F G) (map (op_input q) ops @ [e]) S))"
  using assms(1)
proof (induction ops arbitrary: S)
  case Nil
  from end_step [OF Nil assms(2,3)] obtain q' where
    "queryable_step F G e S = Some (S\<lparr>qb_write := q'\<rparr>)"
    "push G (QcFinish (GrpcQuery_identity q)) (qb_write S) = Some (Inr (), q')" .
  then show ?case by (simp add: step_or_stay_def)
next
  case (Cons op ops)
  from op_step [OF Cons.prems, of q op] obtain q' where
    "queryable_step F G (op_input q op) S = Some (S\<lparr>qb_write := q'\<rparr>)"
    "push G (op_command q op) (qb_write S) = Some (Inr (), q')" "cmds.queue_ok n q'" .
  with Cons.IH [of "S\<lparr>qb_write := q'\<rparr>"] show ?case by (simp add: step_or_stay_def)
qed

lemma received_query_life:
  assumes "S0 = GrpcSession_declare_queryable F G req cb s0"
    and "S = run_steps (queryable_step F G) is S0" and "GrpcQueryable_recv F S = Some (Inr q, S1)"
    and "e = QiFinish q \<or> e = QiDrop q"
  shows "push_all G (map (op_command q) ops @ [QcFinish (GrpcQuery_identity q)]) (qb_write S1) =
    Some (qb_write (run_steps (queryable_step F G) (map (op_input q) ops @ [e]) S1))"
proof -
  have "\<not> gq_finished q"
    using assms(3) by (auto simp: receive_defs Let_def split: option.splits sum.splits if_splits)
  moreover have "cmds.queue_ok SEND_QUEUE_CAPACITY (qb_write S)"
    unfolding assms(2) by (rule rw.ok_run [OF fresh_queryable(3) [OF assms(1)]])
  then have "cmds.queue_ok SEND_QUEUE_CAPACITY (qb_write S1)"
    using rw.step_ok [of S QiRecv S1] assms(3) by simp
  ultimately show ?thesis using query_life [OF _ _ assms(4)] by blast
qed

end

text \<open>
  C10: a query is finished exactly once. However the application answers a query it has received, and
  whether it ends with \<^verbatim>\<open>finish\<close> or just drops it, every call returns and what is submitted to the
  server are its answers in order, followed by one \<^verbatim>\<open>Finish\<close>, all with the identity of the query.
\<close>

theorem query_finished_once:
  assumes "bounded_channel F ec ecap er es" and "bounded_channel G contents capacity receivers senders"
    and "S0 = GrpcSession_declare_queryable F G req has_callback s0"
    and "S = run_steps (queryable_step F G) is S0" and "GrpcQueryable_recv F S = Some (Inr q, S1)"
    and "e = QiFinish q \<or> e = QiDrop q"
    and "cmds = map (op_command q) ops @ [QcFinish (GrpcQuery_identity q)]"
  shows "push_all G cmds (qb_write S1) =
      Some (qb_write (run_steps (queryable_step F G) (map (op_input q) ops @ [e]) S1))
    \<and> filter is_finish cmds = [QcFinish (GrpcQuery_identity q)]
    \<and> (\<forall>cmd \<in> set cmds. command_identity cmd = GrpcQuery_identity q)"
  using queryable_channels.received_query_life [OF queryable_channels.intro [OF assms(1,2)] assms(3-6), of ops]
  by (auto simp: assms(7) filter_empty_conv)

section \<open>Witnesses\<close>

definition demo_queryable :: "(nat, QueryableEventEnvelope fifo, QueryableCommand fifo) queryable_sys" where
  "demo_queryable =
     GrpcSession_declare_queryable fifo_flume fifo_flume DeclareQueryableArgs_default False online"

definition demo_query :: pb_Query where
  "demo_query = \<lparr>qry_query_id = 1, qry_selector = ''k'', qry_key_expr = ''k'', qry_parameters = [],
     qry_payload = [], qry_encoding = [], qry_attachment = []\<rparr>"

definition demo_grpc_query :: GrpcQuery where
  "demo_grpc_query = \<lparr>gq_inner = demo_query, gq_remote_handle = 4, gq_finished = False\<rparr>"

definition stream_query :: "nat queryable_input list" where
  "stream_query = replicate 8 (QiEvents False (Inr 4) (Inr ()) (MsgItem \<lparr>qevt_query = Some demo_query\<rparr>))"

lemmas demo_queryable_simps = demo_queryable_def GrpcSession_declare_queryable_def online_def
  set_connected_def Inner_new_def notify_connection_def alloc_local_handle_def fifo_new
  RECV_QUEUE_CAPACITY_def SEND_QUEUE_CAPACITY_def binding_new_def Let_def step_or_stay_def
  queryable_event_step_def event_worker_step_def read_message_def fifo_push_room fifo_recv_Cons
  event_is_closed_def is_closed_def wait_step_def current_connection_def ensure_start_def
  ensure_answer_def mark_stream_ready_def receive_defs envelope_def

lemma stream_query_state:
  "ev_queue (run_steps (queryable_step fifo_flume fifo_flume) stream_query demo_queryable) =
     \<lparr>chan = \<lparr>items = [envelope 4 \<lparr>qevt_query = Some demo_query\<rparr>], fifo_cap = 256, n_senders = 1,
        n_receivers = 2\<rparr>, dropped = 0, pending = 1, notifications = 0\<rparr>"
  "qb_mode (run_steps (queryable_step fifo_flume fifo_flume) stream_query demo_queryable) = Pull"
  "qb_write (run_steps (queryable_step fifo_flume fifo_flume) stream_query demo_queryable) =
     bounded_drop_oldest fifo_flume 256"
  by (simp_all add: stream_query_def demo_queryable_simps replicate_small)

lemma stream_query_recv:
  "\<exists>S1. GrpcQueryable_recv fifo_flume
     (run_steps (queryable_step fifo_flume fifo_flume) stream_query demo_queryable) = Some (Inr demo_grpc_query, S1)"
  by (simp add: receive_defs stream_query_state fifo_recv_Cons Let_def envelope_def demo_grpc_query_def)

theorem queryable_events_in_order_witness:
  "subseq [envelope 4 \<lparr>qevt_query = Some demo_query\<rparr>]
     (run_log (queryable_step fifo_flume fifo_flume) query_streamed (stream_query @ [QiRecv]) demo_queryable)"
proof -
  have "run_log (queryable_step fifo_flume fifo_flume) (query_received fifo_flume)
      (stream_query @ [QiRecv]) demo_queryable = [envelope 4 \<lparr>qevt_query = Some demo_query\<rparr>]"
    by (simp add: stream_query_def demo_queryable_simps replicate_small taken_event_def try_recv_def
        fifo_chan_try_recv)
  with queryable_events_in_order [OF fifo.bounded_channel_axioms fifo.bounded_channel_axioms
      demo_queryable_def, of "stream_query @ [QiRecv]"] show ?thesis by simp
qed

definition answer_query :: "nat queryable_input list" where
  "answer_query = [QiFinish demo_grpc_query] @ replicate 6 (QiWorker False (Inr ()))"

theorem replies_in_order_witness:
  "subseq [QcFinish (GrpcQuery_identity demo_grpc_query)]
     (run_log (queryable_step fifo_flume fifo_flume) reply_submitted answer_query demo_queryable)"
proof -
  have "run_log (queryable_step fifo_flume fifo_flume) reply_acked answer_query demo_queryable =
      [QcFinish (GrpcQuery_identity demo_grpc_query)]"
    by (simp add: answer_query_def demo_queryable_simps replicate_small answer_defs
        enqueue_command_def submit_def demo_grpc_query_def reply_worker_step_def is_query_stale_def
        GrpcQuery_identity_def)
  with replies_in_order [OF fifo.bounded_channel_axioms fifo.bounded_channel_axioms
      demo_queryable_def refl, of answer_query] show ?thesis by simp
qed

definition finish_unknown :: "nat queryable_input list" where
  "finish_unknown = [QiFinish demo_grpc_query]
     @ replicate 6 (QiWorker False (Inl (mk_status NotFound ''query not found'')))"

theorem stale_query_silent_witness:
  "GrpcQuery_identity demo_grpc_query \<in>
     qb_stale (run_steps (queryable_step fifo_flume fifo_flume) finish_unknown demo_queryable)
   \<and> GrpcQuery_identity demo_grpc_query \<notin> command_identity `
     set (run_log (queryable_step fifo_flume fifo_flume) reply_acked answer_query
       (run_steps (queryable_step fifo_flume fifo_flume) finish_unknown demo_queryable))"
proof -
  let ?S = "run_steps (queryable_step fifo_flume fifo_flume) finish_unknown demo_queryable"
  have "GrpcQuery_identity demo_grpc_query \<in> qb_stale ?S"
    by (simp add: finish_unknown_def demo_queryable_simps replicate_small answer_defs
        enqueue_command_def submit_def demo_grpc_query_def reply_worker_step_def is_query_stale_def
        GrpcQuery_identity_def is_disconnect_status_def is_stale_status_def mark_query_stale_def
        reply_processed_def)
  with stale_query_silent [OF demo_queryable_def refl this refl, of answer_query] show ?thesis by blast
qed

theorem query_finished_once_witness:
  "\<exists>S1. GrpcQueryable_recv fifo_flume
      (run_steps (queryable_step fifo_flume fifo_flume) stream_query demo_queryable) = Some (Inr demo_grpc_query, S1)
    \<and> push_all fifo_flume
        [QcReplyErr (GrpcQuery_identity demo_grpc_query) \<lparr>rea_query_id = 1, rea_payload = [], rea_encoding = []\<rparr>,
         QcFinish (GrpcQuery_identity demo_grpc_query)] (qb_write S1) =
      Some (qb_write (run_steps (queryable_step fifo_flume fifo_flume)
        [QiQueryReplyErr demo_grpc_query [] [], QiDrop demo_grpc_query] S1))"
proof -
  from stream_query_recv obtain S1 where r: "GrpcQueryable_recv fifo_flume
      (run_steps (queryable_step fifo_flume fifo_flume) stream_query demo_queryable) =
      Some (Inr demo_grpc_query, S1)" ..
  from query_finished_once [OF fifo.bounded_channel_axioms fifo.bounded_channel_axioms
      demo_queryable_def refl r disjI2 [OF refl] refl, of "[OpReplyErr [] []]"] r
  show ?thesis by (auto simp: demo_grpc_query_def demo_query_def)
qed

end
