(* ===== verification/Client_Connection.thy ===== *)
theory Client_Connection
  imports Client_Commands
begin

text \<open>
  Properties of the connection of a session: which failures may take a connection away, what is
  printed about it, how long the reconnect worker waits, and when it no longer wakes up. All of them
  hold for every run of \<open>session_step\<close>, that is, for every interleaving of the actors and every answer.
\<close>

section \<open>Invariants of the operations\<close>

definition gen :: "('ch, 'c) session_sys \<Rightarrow> u64" where
  "gen S = generation (connection (ss_inner S))"

definition chan_now :: "('ch, 'c) session_sys \<Rightarrow> 'ch option" where
  "chan_now S = channel (connection (ss_inner S))"

text \<open>A connection that was read earlier: it is the current one, or has been replaced or lost.\<close>

definition was_connection :: "'ch Inner \<Rightarrow> 'ch \<Rightarrow> u64 \<Rightarrow> bool" where
  "was_connection s c g \<longleftrightarrow>
     g \<le> generation (connection s)
     \<and> (g = generation (connection s) \<longrightarrow> channel (connection s) = None \<or> channel (connection s) = Some c)"

lemma connection_simps [simp]:
  "connection (log_line l s) = connection s"
  "connection (log_operation_warning ctx st s) = connection s"
  "connection (notify_connection s) = connection s"
  "connection (warn_disconnected_once s) = connection s"
  "connection (snd (alloc_local_handle s)) = connection s"
  "connection (close_session s) = connection s"
  "connection (set_connected c s) = \<lparr>channel = Some c, generation = generation (connection s) + 1\<rparr>"
  "generation (connection (mark_disconnected g s)) = generation (connection s)"
  by (simp_all add: log_line_def log_operation_warning_def notify_connection_def
      warn_disconnected_once_def alloc_local_handle_def close_session_def set_connected_def
      mark_disconnected_def Let_def)

lemma channel_mark_disconnected:
  "channel (connection (mark_disconnected g s)) =
     (if generation (connection s) = g then None else channel (connection s))"
  by (simp add: mark_disconnected_def)

lemma was_connection_cong: "connection s = connection t \<Longrightarrow> was_connection s = was_connection t"
  by (simp add: fun_eq_iff was_connection_def)

lemma was_connection_read: "current_connection s = Some (c, g) \<Longrightarrow> was_connection s c g"
  by (auto simp: current_connection_def was_connection_def)

lemma was_connection_mark: "was_connection s c g \<Longrightarrow> was_connection (mark_disconnected g' s) c g"
  by (auto simp: was_connection_def channel_mark_disconnected)

lemma was_connection_set:
  "was_connection s c g \<Longrightarrow> generation (connection s) \<noteq> -1 \<Longrightarrow> was_connection (set_connected c' s) c g"
  by (auto simp: was_connection_def u64_less_Suc dest: u64_self_less_Suc leD
      intro: order_trans order.strict_implies_order)

lemma wait_step_return:
  "wait_step b ce p s w = Some (WaitReturn (Some cg)) \<Longrightarrow> current_connection s = Some cg"
  by (auto simp: wait_step_def split: wait_pc.splits option.splits if_splits)

definition conn_inv :: "('ch, 'c) session_sys \<Rightarrow> bool" where
  "conn_inv S \<longleftrightarrow>
     (case ss_worker S of SwCalling _ c g \<Rightarrow> was_connection (ss_inner S) c g | _ \<Rightarrow> True)
     \<and> (case ss_heartbeat S of HbCalling c g \<Rightarrow> was_connection (ss_inner S) c g | _ \<Rightarrow> True)"

lemmas session_steps = session_worker_step_def session_processed_def reconnect_step_def
  heartbeat_step_def GrpcSession_put_def GrpcSession_delete_def

lemma submit_Some:
  "submit F m cmd q = Some (r, q') \<Longrightarrow> \<exists>x. push F cmd q = Some (x, q')"
  by (auto simp: submit_def split: option.splits sum.splits)

text \<open>A step leaves the connection alone, loses it for some generation, or replaces it.\<close>

lemma session_step_connection:
  assumes "session_step F i S = Some S'"
  shows "connection (ss_inner S') = connection (ss_inner S)
    \<or> (\<exists>g. connection (ss_inner S') = connection (mark_disconnected g (ss_inner S)))
    \<or> (\<exists>c. connection (ss_inner S') = connection (set_connected c (ss_inner S)))"
proof (cases i)
  case (SiReconnect a t)
  with assms show ?thesis
    by (auto simp: session_steps Let_def split: reconnect_pc.splits sum.splits if_splits)
next
  case (SiHeartbeat a)
  with assms show ?thesis
    by (auto simp: session_steps Let_def split: heartbeat_pc.splits sum.splits if_splits)
next
  case (SiWorker a)
  with assms show ?thesis
    by (auto simp: session_steps split: session_pc.splits sum.splits if_splits option.splits
        wait_result.splits)
qed (use assms in \<open>auto simp: session_steps\<close>)

lemma gen_step:
  "session_step F i S = Some S' \<Longrightarrow> gen S' = gen S \<or> gen S' = gen S + 1"
  by (drule session_step_connection) (auto simp: gen_def)

lemma was_connection_step:
  assumes "session_step F i S = Some S'" and "gen S \<noteq> -1" and "was_connection (ss_inner S) c g"
  shows "was_connection (ss_inner S') c g"
  using session_step_connection [OF assms(1)] assms(2,3) was_connection_mark was_connection_set
  unfolding gen_def by (metis was_connection_cong)

lemma conn_inv_step:
  assumes step: "session_step F i S = Some S'" and "gen S \<noteq> -1" and inv: "conn_inv S"
  shows "conn_inv S'"
proof -
  have worker: "was_connection (ss_inner S') c g" if "ss_worker S' = SwCalling cmd c g" for cmd c g
  proof (cases "ss_worker S = ss_worker S'")
    case True
    with that inv have "was_connection (ss_inner S) c g" by (simp add: conn_inv_def)
    then show ?thesis by (rule was_connection_step [OF step assms(2)])
  next
    case False
    with that step have "current_connection (ss_inner S) = Some (c, g)"
      by (cases i) (auto simp: session_steps session_wait_step_def Let_def dest!: wait_step_return
        split: session_pc.splits sum.splits if_splits option.splits wait_result.splits)
    then show ?thesis by (intro was_connection_step [OF step assms(2)] was_connection_read)
  qed
  have "was_connection (ss_inner S') c g" if "ss_heartbeat S' = HbCalling c g" for c g
  proof (cases "ss_heartbeat S = ss_heartbeat S'")
    case True
    with that inv have "was_connection (ss_inner S) c g" by (simp add: conn_inv_def)
    then show ?thesis by (rule was_connection_step [OF step assms(2)])
  next
    case False
    with that step have "current_connection (ss_inner S) = Some (c, g)"
      by (cases i) (auto simp: session_steps Let_def split: session_pc.splits heartbeat_pc.splits
        sum.splits if_splits option.splits wait_result.splits)
    then show ?thesis by (intro was_connection_step [OF step assms(2)] was_connection_read)
  qed
  with worker show ?thesis
    by (auto simp: conn_inv_def split: session_pc.splits heartbeat_pc.splits)
qed

lemma conn_inv_run:
  assumes "conn_inv S" and "unat (gen S) + length is < 2 ^ 64 - 1"
  shows "conn_inv (run_steps (session_step F) is S)"
  using assms
proof (induction "is" arbitrary: S)
  case (Cons i "is")
  from Cons.prems(2) have n: "gen S \<noteq> -1"
    by (intro not_exhausted [where k = "Suc (length is)"]) simp
  show ?case
  proof (cases "session_step F i S")
    case (Some S')
    from gen_step [OF this] Cons.prems(2) n have "unat (gen S') + length is < 2 ^ 64 - 1"
      by (auto simp: unat_Suc_u64)
    with Some Cons.IH [OF conn_inv_step [OF Some n Cons.prems(1)]] show ?thesis
      by (simp add: step_or_stay_def)
  qed (use Cons in \<open>simp add: step_or_stay_def\<close>)
qed simp

text \<open>
  C29: a failed call takes away only the connection it used. In every run of a session, whenever the
  answer of the session worker's or the heartbeat's call makes the session lose the connection
  \<open>c'\<close>, that call was made on \<open>c'\<close>: a late failure of an old connection never disconnects a newer one.
\<close>

theorem failed_call_own_channel:
  assumes "session_connect T uuid in_time a = Inr s0" and "length is < 2 ^ 64 - 2"
    and "S = run_steps (session_step F) is (session_start F s0)" and "chan_now S = Some c'"
  shows "(\<forall>cmd c g answer S'. ss_worker S = SwCalling cmd c g
        \<and> session_step F (SiWorker answer) S = Some S' \<and> chan_now S' = None \<longrightarrow> c = c')
    \<and> (\<forall>c g answer S'. ss_heartbeat S = HbCalling c g
        \<and> session_step F (SiHeartbeat answer) S = Some S' \<and> chan_now S' = None \<longrightarrow> c = c')"
proof -
  have "unat (gen (session_start F s0)) \<le> 1" and "conn_inv (session_start F s0)"
    using assms(1)
    by (auto simp: session_connect_def session_start_def gen_def conn_inv_def Inner_new_def
        split: sum.splits if_splits)
  then have "conn_inv S" unfolding assms(3) by (intro conn_inv_run) (use assms(2) in simp_all)
  then show ?thesis using assms(4)
    by (auto simp: conn_inv_def was_connection_def chan_now_def session_steps session_processed_def
        Let_def channel_mark_disconnected split: sum.splits if_splits)
qed

definition demo_transport :: "(string, nat) transport" where
  "demo_transport = \<lparr>from_shared = Inr, connect_tcp = (\<lambda>n _. Inr n), connect_unix = (\<lambda>n _ _. Inr n)\<rparr>"

definition demo_session :: "nat Inner" where
  "demo_session = set_connected 0 (Inner_new (ConnectTcp ''h:1'') ''id'')"

lemma demo_session_connect:
  "session_connect demo_transport ''id'' True (ConnectTcp ''h:1'') = Inr demo_session"
  by (simp add: session_connect_def demo_transport_def validate_connect_addr_def
      connect_channel_def demo_session_def)

definition beat :: "nat session_input" where
  "beat = SiHeartbeat (Inl (mk_status Unavailable ''gone''))"

lemmas demo_simps = session_start_def demo_session_def set_connected_def Inner_new_def Let_def
  notify_connection_def current_connection_def is_closed_def step_or_stay_def
  heartbeat_step_def reconnect_step_def reconnect_start_def mark_disconnected_def
  warn_disconnected_once_def log_line_def is_disconnect_status_def

theorem failed_call_own_channel_witness:
  "\<exists>S S'. S = run_steps (session_step fifo_flume) [beat, beat, beat] (session_start fifo_flume demo_session)
     \<and> ss_heartbeat S = HbCalling 0 1 \<and> chan_now S = Some 0
     \<and> session_step fifo_flume beat S = Some S' \<and> chan_now S' = None \<and> 0 = the (chan_now S)"
proof -
  let ?S = "run_steps (session_step fifo_flume) [beat, beat, beat] (session_start fifo_flume demo_session)"
  have S: "ss_heartbeat ?S = HbCalling 0 1" "chan_now ?S = Some 0"
    "\<exists>S'. session_step fifo_flume beat ?S = Some S' \<and> chan_now S' = None"
    by (simp_all add: beat_def demo_simps chan_now_def)
  then obtain S' where S': "session_step fifo_flume beat ?S = Some S'" "chan_now S' = None" by blast
  have "0 = (0::nat)"
    using failed_call_own_channel [OF demo_session_connect _ refl S(2)] S S' unfolding beat_def
    by fastforce
  with S S' show ?thesis by (intro exI [of _ ?S] exI [of _ S']) simp
qed

section \<open>Messages about the connection\<close>

definition is_connection_line :: "log_line \<Rightarrow> bool" where
  "is_connection_line l \<longleftrightarrow> l = LogDisconnected \<or> l = LogReconnected"

definition alternating_lines :: "nat \<Rightarrow> log_line list" where
  "alternating_lines n = map (\<lambda>i. if even i then LogDisconnected else LogReconnected) [0..<n]"

definition lines_inv :: "'ch Inner \<Rightarrow> bool" where
  "lines_inv s \<longleftrightarrow>
     (\<exists>n. filter is_connection_line (stderr s) = alternating_lines n \<and> (warning_issued s \<longleftrightarrow> odd n))"

lemma alternating_Suc:
  "alternating_lines (Suc n) = alternating_lines n @ [if even n then LogDisconnected else LogReconnected]"
  by (simp add: alternating_lines_def)

lemma lines_inv_warn: "lines_inv s \<Longrightarrow> lines_inv (warn_disconnected_once s)"
proof -
  assume "lines_inv s"
  then obtain n where n: "filter is_connection_line (stderr s) = alternating_lines n"
    "warning_issued s \<longleftrightarrow> odd n" by (auto simp: lines_inv_def)
  show ?thesis
  proof (cases "warning_issued s")
    case False
    with n show ?thesis
      by (auto simp: lines_inv_def warn_disconnected_once_def log_line_def is_connection_line_def
          alternating_Suc intro!: exI [of _ "Suc n"])
  qed (use \<open>lines_inv s\<close> in \<open>simp add: warn_disconnected_once_def\<close>)
qed

lemma lines_inv_set: "lines_inv s \<Longrightarrow> lines_inv (set_connected c s)"
proof -
  assume "lines_inv s"
  then obtain n where n: "filter is_connection_line (stderr s) = alternating_lines n"
    "warning_issued s \<longleftrightarrow> odd n" by (auto simp: lines_inv_def)
  show ?thesis
  proof (cases "warning_issued s")
    case True
    with n show ?thesis
      by (auto simp: lines_inv_def set_connected_def log_line_def is_connection_line_def
          notify_connection_def alternating_Suc Let_def intro!: exI [of _ "Suc n"])
  next
    case False
    with n show ?thesis
      by (auto simp: lines_inv_def set_connected_def notify_connection_def Let_def
          intro!: exI [of _ n])
  qed
qed

lemma lines_inv_operation: "lines_inv s \<Longrightarrow> lines_inv (log_operation_warning ctx st s)"
  by (simp add: lines_inv_def log_operation_warning_def log_line_def is_connection_line_def)

lemma lines_inv_unrelated [simp]:
  "lines_inv (notify_connection s) = lines_inv s" "lines_inv (s\<lparr>connection := x\<rparr>) = lines_inv s"
  "lines_inv (s\<lparr>closed := b\<rparr>) = lines_inv s" "lines_inv (s\<lparr>next_local_handle := h\<rparr>) = lines_inv s"
  by (simp_all add: lines_inv_def notify_connection_def)

lemma lines_inv_mark: "lines_inv s \<Longrightarrow> lines_inv (mark_disconnected g s)"
  by (simp add: mark_disconnected_def lines_inv_warn)

lemmas lines_intros = lines_inv_warn lines_inv_set lines_inv_mark lines_inv_operation

lemma lines_inv_step:
  assumes "session_step F i S = Some S'" and "lines_inv (ss_inner S)"
  shows "lines_inv (ss_inner S')"
  using assms
  by (cases i) (auto simp: session_steps Let_def alloc_local_handle_def close_session_def
      intro: lines_intros split: session_pc.splits reconnect_pc.splits heartbeat_pc.splits
      sum.splits if_splits option.splits wait_result.splits)

text \<open>
  The user is told of every loss of the connection once. In every run of a session, the messages
  about the connection alternate: a warning first, then a message of success for each warning before
  the next one; \<^verbatim>\<open>warning_issued\<close> says exactly whether the last one was a warning.
\<close>

theorem connection_messages_alternate:
  assumes "session_connect T uuid in_time a = Inr s0"
    and "S = run_steps (session_step F) is (session_start F s0)"
  shows "\<exists>n. filter is_connection_line (stderr (ss_inner S)) = alternating_lines n
    \<and> (warning_issued (ss_inner S) \<longleftrightarrow> odd n)"
proof -
  have "lines_inv (Inner_new a uuid)"
    by (simp add: lines_inv_def Inner_new_def alternating_lines_def)
  with assms(1) have "lines_inv s0"
    by (auto simp: session_connect_def intro: lines_inv_set split: sum.splits if_splits)
  then have "lines_inv (ss_inner (session_start F s0))" by (simp add: session_start_def)
  then have "lines_inv (ss_inner S)" unfolding assms(2)
    by (rule run_steps_invariant [where I = "\<lambda>S. lines_inv (ss_inner S)", rotated])
      (rule lines_inv_step)
  then show ?thesis by (simp add: lines_inv_def)
qed

theorem connection_messages_alternate_witness:
  "\<exists>n. filter is_connection_line (stderr (ss_inner (run_steps (session_step fifo_flume)
       [SiFail 1, SiWarn, SiReconnect (Inr 5) True, SiReconnect (Inr 5) True, SiReconnect (Inr 5) True]
       (session_start fifo_flume demo_session)))) = alternating_lines n"
  using connection_messages_alternate [OF demo_session_connect refl] by blast

section \<open>Reconnecting\<close>

definition idle_reconnect :: "duration \<Rightarrow> ('ch, 'c) session_sys \<Rightarrow> bool" where
  "idle_reconnect d S \<longleftrightarrow>
     ss_reconnect S = \<lparr>rc_pc = RcHead, rc_delay = d\<rparr> \<and> chan_now S = None \<and> \<not> closed (ss_inner S)"

lemma delay_step:
  assumes "session_step F i S = Some S'"
    and "RECONNECT_DELAY_INITIAL \<le> rc_delay (ss_reconnect S)"
    and "rc_delay (ss_reconnect S) \<le> RECONNECT_DELAY_MAX"
  shows "RECONNECT_DELAY_INITIAL \<le> rc_delay (ss_reconnect S')
    \<and> rc_delay (ss_reconnect S') \<le> RECONNECT_DELAY_MAX"
  using assms
  by (cases i) (auto simp: session_steps Let_def RECONNECT_DELAY_INITIAL_def RECONNECT_DELAY_MAX_def
      split: session_pc.splits reconnect_pc.splits sum.splits if_splits option.splits
      wait_result.splits)

lemma delay_run:
  assumes "ss_reconnect S = reconnect_start"
  shows "RECONNECT_DELAY_INITIAL \<le> rc_delay (ss_reconnect (run_steps (session_step F) is S))
    \<and> rc_delay (ss_reconnect (run_steps (session_step F) is S)) \<le> RECONNECT_DELAY_MAX"
  by (rule run_steps_invariant [where step = "session_step F"])
    (use assms in \<open>auto dest: delay_step simp: reconnect_start_def RECONNECT_DELAY_INITIAL_def
       RECONNECT_DELAY_MAX_def\<close>)

lemma failed_round:
  assumes "idle_reconnect d S"
  shows "idle_reconnect (min (d + d) RECONNECT_DELAY_MAX)
      (run_steps (session_step F) (replicate 4 (SiReconnect (Inl e) True)) S)
    \<and> gen (run_steps (session_step F) (replicate 4 (SiReconnect (Inl e) True)) S) = gen S"
  using assms
  by (simp add: idle_reconnect_def chan_now_def gen_def step_or_stay_def reconnect_step_def
      is_closed_def current_connection_def replicate_small Let_def)
    (simp add: warn_disconnected_once_def log_line_def)

lemma failed_rounds:
  assumes "idle_reconnect (min (200 * 2 ^ n) 2000) S"
  shows "idle_reconnect (min (200 * 2 ^ (n + k)) 2000)
      (run_steps (session_step F) (replicate (4 * k) (SiReconnect (Inl e) True)) S)
    \<and> gen (run_steps (session_step F) (replicate (4 * k) (SiReconnect (Inl e) True)) S) = gen S"
  using assms
proof (induction k arbitrary: n S)
  case (Suc k)
  let ?S = "run_steps (session_step F) (replicate 4 (SiReconnect (Inl e) True)) S"
  have "idle_reconnect (min (200 * 2 ^ Suc n) 2000) ?S" and g: "gen ?S = gen S"
    using failed_round [OF Suc.prems, of F e]
    by (simp_all add: RECONNECT_DELAY_MAX_def min_def split: if_splits)
  from Suc.IH [OF this(1)] g show ?case
    by (simp add: replicate_add run_steps_append)
qed simp

text \<open>
  C30: the reconnect worker backs off exponentially and recovers. In every run its delay stays between
  200 ms and 2 s; from a disconnected session, after any number \<open>k\<close> of failed attempts it is
  \<open>min (200 * 2 ^ k) 2000\<close> ms, and the next attempt that succeeds connects the session with a new
  generation and resets the delay.
\<close>

theorem reconnect_backoff:
  assumes "ss_reconnect S = reconnect_start" and "chan_now S = None" and "\<not> closed (ss_inner S)"
  shows "(\<forall>is. 200 \<le> rc_delay (ss_reconnect (run_steps (session_step F) is S))
        \<and> rc_delay (ss_reconnect (run_steps (session_step F) is S)) \<le> 2000)
    \<and> rc_delay (ss_reconnect (run_steps (session_step F)
          (replicate (4 * k) (SiReconnect (Inl e) True)) S)) = min (200 * 2 ^ k) 2000
    \<and> (let S' = run_steps (session_step F) (replicate (4 * k) (SiReconnect (Inl e) True)
                   @ replicate 3 (SiReconnect (Inr c) True)) S
        in chan_now S' = Some c \<and> gen S' = gen S + 1 \<and> rc_delay (ss_reconnect S') = 200)"
proof -
  let ?F = "run_steps (session_step F) (replicate (4 * k) (SiReconnect (Inl e) True)) S"
  have "idle_reconnect (min (200 * 2 ^ 0) 2000) S"
    using assms by (simp add: idle_reconnect_def reconnect_start_def RECONNECT_DELAY_INITIAL_def)
  from failed_rounds [OF this, of k F e]
  have idle: "idle_reconnect (min (200 * 2 ^ k) 2000) ?F" and g: "gen ?F = gen S" by simp_all
  have "chan_now (run_steps (session_step F) (replicate 3 (SiReconnect (Inr c) True)) ?F) = Some c
      \<and> gen (run_steps (session_step F) (replicate 3 (SiReconnect (Inr c) True)) ?F) = gen S + 1
      \<and> rc_delay (ss_reconnect (run_steps (session_step F)
          (replicate 3 (SiReconnect (Inr c) True)) ?F)) = 200"
    using idle g by (simp add: idle_reconnect_def chan_now_def gen_def step_or_stay_def
        reconnect_step_def is_closed_def current_connection_def replicate_small Let_def
        RECONNECT_DELAY_INITIAL_def)
  with idle delay_run [OF assms(1), of F] show ?thesis
    by (simp add: run_steps_append idle_reconnect_def RECONNECT_DELAY_INITIAL_def
        RECONNECT_DELAY_MAX_def)
qed

definition offline :: "(nat, SessionCommand fifo) session_sys" where
  "offline = session_start fifo_flume (Inner_new (ConnectTcp ''h:1'') ''id'')"

theorem reconnect_backoff_witness:
  "chan_now offline = None
   \<and> rc_delay (ss_reconnect (run_steps (session_step fifo_flume)
        (replicate (4 * 5) (SiReconnect (Inl ''refused'') True)) offline)) = 2000"
proof -
  have "ss_reconnect offline = reconnect_start" "chan_now offline = None" "\<not> closed (ss_inner offline)"
    by (simp_all add: offline_def session_start_def Inner_new_def chan_now_def)
  from reconnect_backoff [OF this, of fifo_flume 5 "''refused''"] this show ?thesis by simp
qed

section \<open>A lost wake-up\<close>

text \<open>The reconnect worker sleeps on the current epoch, while there is no connection.\<close>

definition asleep_offline :: "('ch, 'c) session_sys \<Rightarrow> bool" where
  "asleep_offline S \<longleftrightarrow>
     chan_now S = None \<and> rc_pc (ss_reconnect S) = RcNotified (connection_epoch (ss_inner S))"

lemma epoch_simps [simp]:
  "connection_epoch (log_line l s) = connection_epoch s"
  "connection_epoch (log_operation_warning ctx st s) = connection_epoch s"
  "connection_epoch (warn_disconnected_once s) = connection_epoch s"
  "connection_epoch (snd (alloc_local_handle s)) = connection_epoch s"
  by (simp_all add: log_line_def log_operation_warning_def warn_disconnected_once_def
      alloc_local_handle_def)

lemma mark_disconnected_offline: "channel (connection s) = None \<Longrightarrow> mark_disconnected g s = s"
  by (simp add: mark_disconnected_def)

lemma asleep_offline_step:
  assumes "session_step F i S = Some S'" and "i \<noteq> SiClose" and "asleep_offline S"
  shows "asleep_offline S'"
  using assms
  by (cases i) (auto simp: asleep_offline_def chan_now_def session_steps Let_def
      mark_disconnected_offline split: session_pc.splits heartbeat_pc.splits sum.splits if_splits
      option.splits wait_result.splits)

lemma asleep_offline_run:
  "asleep_offline S \<Longrightarrow> SiClose \<notin> set is \<Longrightarrow> asleep_offline (run_steps (session_step F) is S)"
  by (induction "is" arbitrary: S)
    (auto simp: step_or_stay_def split: option.splits dest: asleep_offline_step)

text \<open>
  C40: the reconnect worker can lose its wake-up for ever. A connected session whose connection is
  lost after the worker has read it and before the worker has registered for the notification stays
  disconnected in every continuation, unless the application closes the session.
\<close>

theorem reconnect_lost_wakeup:
  assumes "closed s0 = False" and "current_connection s0 = Some (c, g)"
  shows "\<exists>S. S = run_steps (session_step F)
        [SiReconnect (Inr c) True, SiReconnect (Inr c) True, SiFail g, SiReconnect (Inr c) True]
        (session_start F s0)
      \<and> \<not> closed (ss_inner S)
      \<and> (\<forall>is. SiClose \<notin> set is \<longrightarrow> chan_now (run_steps (session_step F) is S) = None)"
proof -
  let ?S = "run_steps (session_step F)
    [SiReconnect (Inr c) True, SiReconnect (Inr c) True, SiFail g, SiReconnect (Inr c) True]
    (session_start F s0)"
  have "asleep_offline ?S \<and> \<not> closed (ss_inner ?S)"
    using assms by (simp add: asleep_offline_def session_start_def reconnect_start_def chan_now_def
        step_or_stay_def reconnect_step_def is_closed_def Let_def mark_disconnected_def
        current_connection_def split: option.splits)
      (auto simp: notify_connection_def warn_disconnected_once_def log_line_def)
  moreover from this have "chan_now (run_steps (session_step F) is ?S) = None"
    if "SiClose \<notin> set is" for "is"
    using asleep_offline_run [of ?S "is" F] that by (simp add: asleep_offline_def)
  ultimately show ?thesis by blast
qed

theorem reconnect_lost_wakeup_witness:
  "current_connection demo_session = Some (0, 1)
   \<and> (\<exists>S :: (nat, SessionCommand fifo) session_sys. \<not> closed (ss_inner S)
       \<and> chan_now (run_steps (session_step fifo_flume)
            (replicate 9 (SiReconnect (Inr 5) True)) S) = None)"
proof -
  have "closed demo_session = False" "current_connection demo_session = Some (0, 1)"
    by (simp_all add: demo_simps)
  from reconnect_lost_wakeup [OF this, of fifo_flume] this show ?thesis by auto
qed

end
