(* ===== verification/Client_Session_Worker.thy ===== *)
theory Client_Session_Worker
  imports Client_Connection
begin

text \<open>
  Properties of the session worker and of reply streams: the order in which the server acknowledges
  what the application submits, the end of the worker's work when the session is closed, and what a
  consumer of a reply stream sees.
\<close>

section \<open>The session worker is a command worker\<close>

fun session_current :: "'ch session_pc \<Rightarrow> SessionCommand option" where
  "session_current (SwHead cmd) = Some cmd"
| "session_current (SwWaiting cmd _) = Some cmd"
| "session_current (SwCalling cmd _ _) = Some cmd"
| "session_current _ = None"

text \<open>The commands an input submits, and the command whose request it reports as successful.\<close>

fun session_submitted :: "'ch session_input \<Rightarrow> ('ch, 'c) session_sys \<Rightarrow> SessionCommand list" where
  "session_submitted (SiPut req) S = [CmdPut req]"
| "session_submitted (SiDelete req) S = [CmdDelete req]"
| "session_submitted _ S = []"

fun session_acked :: "'ch session_input \<Rightarrow> ('ch, 'c) session_sys \<Rightarrow> SessionCommand list" where
  "session_acked (SiWorker (Inr u)) S = (case ss_worker S of SwCalling cmd _ _ \<Rightarrow> [cmd] | _ \<Rightarrow> [])"
| "session_acked _ S = []"

locale session_channel = bounded_channel F contents capacity receivers senders
  for F :: "('c, SessionCommand) flume" and contents capacity receivers senders

text \<open>A step changes the queue and the worker's current command only as a command worker may.\<close>

sublocale session_channel \<subseteq> sw: command_worker "session_step F"
  "\<lambda>S. queue_ok SEND_QUEUE_CAPACITY (ss_queue S)" "\<lambda>S. session_current (ss_worker S)" "\<lambda>S. contents (chan (ss_queue S))"
  "\<lambda>S. pending (ss_queue S)" session_submitted session_acked
proof
  fix S :: "('b, 'c) session_sys"
  assume "queue_ok SEND_QUEUE_CAPACITY (ss_queue S)"
  then show "length (contents (chan (ss_queue S))) < 2 ^ 64 - 1"
    by (simp add: queue_ok_def SEND_QUEUE_CAPACITY_def)
next
  fix i and S S' :: "('b, 'c) session_sys"
  assume ok: "queue_ok SEND_QUEUE_CAPACITY (ss_queue S)" and step: "session_step F i S = Some S'"
  show "queue_ok SEND_QUEUE_CAPACITY (ss_queue S')"
    using ok step
    by (cases i) (auto simp: session_steps Let_def dest: submit_ok(2) [OF ok]
      split: session_pc.splits sum.splits if_splits option.splits wait_result.splits,
      (blast intro: queue_ok_recv [OF ok])+)
  show "(session_current (ss_worker S') = session_current (ss_worker S) \<and> session_acked i S = []
       \<and> subseq (contents (chan (ss_queue S'))) (contents (chan (ss_queue S)) @ session_submitted i S)
       \<and> pending (ss_queue S') - of_nat (length (contents (chan (ss_queue S')))) =
           pending (ss_queue S) - of_nat (length (contents (chan (ss_queue S)))))
    \<or> (\<exists>c. session_current (ss_worker S) = None \<and> session_current (ss_worker S') = Some c
       \<and> contents (chan (ss_queue S)) = c # contents (chan (ss_queue S')) \<and> session_acked i S = []
       \<and> session_submitted i S = [] \<and> pending (ss_queue S') = pending (ss_queue S))
    \<or> (\<exists>c. session_current (ss_worker S) = Some c \<and> session_current (ss_worker S') = None
       \<and> contents (chan (ss_queue S')) = contents (chan (ss_queue S)) \<and> session_submitted i S = []
       \<and> (session_acked i S = [] \<or> session_acked i S = [c])
       \<and> pending (ss_queue S') = pending (ss_queue S) - 1)"
  proof (cases i)
    case (SiPut req)
    with step submit_ok [OF ok] show ?thesis by (auto simp: session_steps)
  next
    case (SiDelete req)
    with step submit_ok [OF ok] show ?thesis by (auto simp: session_steps)
  next
    case (SiWorker answer)
    with step show ?thesis
      by (cases answer) (auto simp: session_steps processed_one_def dest!: recv_Inr recv_Inl
        split: session_pc.splits if_splits option.splits wait_result.splits sum.splits)
  qed (use step in \<open>auto simp: session_steps Let_def\<close>)
qed

context session_channel
begin

lemma fresh_session:
  "queue_ok SEND_QUEUE_CAPACITY (ss_queue (session_start F s0))
   \<and> contents (chan (ss_queue (session_start F s0))) = [] \<and> pending (ss_queue (session_start F s0)) = 0"
  using bounded_new queue_ok_new [of SEND_QUEUE_CAPACITY]
  by (simp add: session_start_def bounded_drop_oldest_def SEND_QUEUE_CAPACITY_def)

lemma session_order:
  assumes "S0 = session_start F s0" and "S = run_steps (session_step F) is S0"
  shows "subseq (run_log (session_step F) session_acked is S0) (run_log (session_step F) session_submitted is S0)
    \<and> (pending (ss_queue S) = 0 \<longrightarrow>
        session_current (ss_worker S) = None \<and> contents (chan (ss_queue S)) = [])"
  using sw.fresh_run [of S0 "is"] fresh_session [of s0] unfolding assms(2)
  by (simp add: assms(1)) (simp add: session_start_def)

end

interpretation session_fifo: session_channel fifo_flume items fifo_cap "\<lambda>c. n_receivers c \<noteq> 0" n_senders
  by (rule session_channel.intro) (rule fifo.bounded_channel_axioms)


definition one_put :: "nat session_input list" where
  "one_put = [SiPut SessionPutArgs_default, SiWorker (Inr ()), SiWorker (Inr ()), SiWorker (Inr ()),
     SiWorker (Inr ()), SiWorker (Inr ())]"


section \<open>Closing a session\<close>

context session_channel
begin

lemma discard_one:
  assumes "contents (chan (ss_queue S)) = x # xs" and "closed (ss_inner S)" and "ss_worker S = SwRecv"
  obtains S' where "run_steps (session_step F) [SiWorker a, SiWorker a] S = S'"
    "contents (chan (ss_queue S')) = xs" "closed (ss_inner S')" "ss_worker S' = SwRecv"
    "run_log (session_step F) session_acked [SiWorker a, SiWorker a] S = []"
proof -
  from recv_Cons [OF assms(1)] obtain q where q: "recv F (ss_queue S) = Some (Inr x, q)" .
  with recv_Inr [OF q] assms show ?thesis
    by (intro that [OF refl]; cases a)
      (simp_all add: step_or_stay_def session_worker_step_def session_processed_def is_closed_def
        processed_one_def)
qed

lemma discard_all:
  assumes "contents (chan (ss_queue S)) = xs" and "closed (ss_inner S)" and "ss_worker S = SwRecv"
  shows "contents (chan (ss_queue (run_steps (session_step F) (replicate (2 * length xs) (SiWorker a)) S))) = []
    \<and> ss_worker (run_steps (session_step F) (replicate (2 * length xs) (SiWorker a)) S) = SwRecv
    \<and> run_log (session_step F) session_acked (replicate (2 * length xs) (SiWorker a)) S = []"
  using assms
proof (induction xs arbitrary: S)
  case (Cons x xs)
  from discard_one [OF Cons.prems, of a] obtain S' where
    S': "run_steps (session_step F) [SiWorker a, SiWorker a] S = S'"
      "contents (chan (ss_queue S')) = xs" "closed (ss_inner S')" "ss_worker S' = SwRecv"
      "run_log (session_step F) session_acked [SiWorker a, SiWorker a] S = []" .
  from Cons.IH [OF S'(2-4)] S'(1,5) show ?case by simp
qed simp

lemma discard_pending:
  assumes "S = run_steps (session_step F) is (session_start F s0)"
    and "closed (ss_inner S)" and "ss_worker S = SwRecv"
    and "k = 2 * length (contents (chan (ss_queue S)))"
    and "S' = run_steps (session_step F) (replicate k (SiWorker a)) S"
  shows "k \<le> 512 \<and> pending (ss_queue S') = 0 \<and> contents (chan (ss_queue S')) = []
    \<and> run_log (session_step F) session_acked (replicate k (SiWorker a)) S = []"
proof -
  let ?S0 = "session_start F s0"
  have ok: "queue_ok SEND_QUEUE_CAPACITY (ss_queue S)"
    unfolding assms(1) using fresh_session [of s0] by (intro sw.ok_run) blast
  have "pending (ss_queue S') =
      of_nat (length (held (session_current (ss_worker S')) @ contents (chan (ss_queue S'))))"
    unfolding assms(5) assms(1) run_steps_append [symmetric]
    using fresh_session [of s0] by (intro sw.run_unprocessed) (simp_all add: session_start_def)
  with ok discard_all [OF refl assms(2,3), of a] show ?thesis
    by (simp add: assms(4,5) queue_ok_def SEND_QUEUE_CAPACITY_def)
qed

end


definition closing :: "nat session_input list" where
  "closing = [SiPut SessionPutArgs_default, SiPut SessionPutArgs_default, SiClose]"


section \<open>Reply streams\<close>

text \<open>A sequence of messages through the pump, and a consumer that receives \<open>n\<close> times.\<close>

fun pump_all ::
  "('c, pb_Reply) flume \<Rightarrow> u64 \<Rightarrow> pb_Reply message list \<Rightarrow> 'c reply_stream \<times> 'ch Inner \<Rightarrow>
   ('c reply_stream \<times> 'ch Inner) option" where
  "pump_all F g [] rs = Some rs"
| "pump_all F g (m # ms) rs =
     (case reply_pump_step F g m rs of None \<Rightarrow> None | Some rs' \<Rightarrow> pump_all F g ms rs')"

fun drain_replies :: "('c, pb_Reply) flume \<Rightarrow> nat \<Rightarrow> 'c drop_oldest \<Rightarrow> pb_Reply result list" where
  "drain_replies F 0 q = []"
| "drain_replies F (Suc n) q =
     (case ReplyStream_recv F q of None \<Rightarrow> [] | Some (r, q') \<Rightarrow> r # drain_replies F n q')"

lemma pump_items:
  "push_all F rs q = Some q' \<Longrightarrow>
   pump_all F g (map MsgItem rs @ ms) (ReplyStream q True, s) = pump_all F g ms (ReplyStream q' True, s)"
  by (induction rs arbitrary: q)
    (auto simp: reply_pump_step_def split: option.splits sum.splits prod.splits)

locale reply_channel = bounded_channel F contents capacity receivers senders
  for F :: "('c, pb_Reply) flume" and contents capacity receivers senders
begin

lemma drain_closed:
  assumes "contents (chan q) = xs" and "senders (chan q) = 0"
  shows "drain_replies F (Suc (length xs)) q = map Inr xs @ [Inl reply_closed]"
  using assms
proof (induction xs arbitrary: q)
  case Nil
  then show ?case by (simp add: ReplyStream_recv_def recv_def recv_disconnected)
next
  case (Cons x xs)
  from recv_Cons [OF Cons.prems(1)] obtain q' where q': "recv F q = Some (Inr x, q')" .
  with recv_Inr [OF q'] Cons show ?case by (simp add: ReplyStream_recv_def)
qed

lemma stream_delivery:
  "\<exists>q. pump_all F g (map MsgItem rs @ [MsgEnd])
       (ReplyStream (bounded_drop_oldest F RECV_QUEUE_CAPACITY) True, s) = Some (ReplyStream q False, s)
     \<and> drain_replies F (Suc (min RECV_QUEUE_CAPACITY (length rs))) q =
         map Inr (newest RECV_QUEUE_CAPACITY rs) @ [Inl reply_closed]
     \<and> dropped_count q = of_nat (length rs - RECV_QUEUE_CAPACITY)"
proof -
  let ?q = "bounded_drop_oldest F RECV_QUEUE_CAPACITY"
  have new: "contents (chan ?q) = []" "capacity (chan ?q) = RECV_QUEUE_CAPACITY" "receivers (chan ?q)"
    "dropped ?q = 0" "senders (chan ?q) = 1"
    using bounded_new [of RECV_QUEUE_CAPACITY] by (simp_all add: bounded_drop_oldest_def)
  from push_all_newest [of ?q rs] new obtain q where q: "push_all F rs ?q = Some q"
    "contents (chan q) = newest RECV_QUEUE_CAPACITY rs" "senders (chan q) = 1"
    "dropped q = of_nat (length rs - RECV_QUEUE_CAPACITY)"
    by (auto simp: RECV_QUEUE_CAPACITY_def)
  let ?r = "q\<lparr>chan := drop_sender F (chan q)\<rparr>"
  have "drain_replies F (Suc (length (newest RECV_QUEUE_CAPACITY rs))) ?r =
      map Inr (newest RECV_QUEUE_CAPACITY rs) @ [Inl reply_closed]"
    by (rule drain_closed) (simp_all add: drop_sender_law q)
  with q show ?thesis
    by (intro exI [of _ ?r])
      (simp add: pump_items [OF q(1)] reply_pump_step_def length_newest dropped_count_def)
qed

end

interpretation reply_fifo: reply_channel fifo_flume items fifo_cap "\<lambda>c. n_receivers c \<noteq> 0" n_senders
  by (rule reply_channel.intro) (rule fifo.bounded_channel_axioms)

text \<open>
  A reply stream delivers the newest replies and then ends. When the server answers a \<^verbatim>\<open>get\<close> with
  the replies \<open>rs\<close> and closes the stream, the consumer receives the newest 256 of them in order and
  then the error that says the stream is closed; the number of the others is the dropped count, and
  the session is not affected.
\<close>

theorem reply_stream_delivery:
  assumes "bounded_channel F contents capacity receivers senders"
    and "get_answer F g (Inr ()) s = (Inr stream, s')"
  shows "\<exists>q. pump_all F g (map MsgItem rs @ [MsgEnd]) (stream, s') = Some (ReplyStream q False, s)
    \<and> drain_replies F (Suc (min 256 (length rs))) q = map Inr (newest 256 rs) @ [Inl reply_closed]
    \<and> dropped_count q = of_nat (length rs - 256)"
  using reply_channel.stream_delivery [OF reply_channel.intro [OF assms(1)], of g rs s] assms(2)
  by (auto simp: get_answer_def RECV_QUEUE_CAPACITY_def)

theorem reply_stream_delivery_witness:
  "\<exists>stream q. get_answer fifo_flume 1 (Inr ()) demo_session = (Inr stream, demo_session)
     \<and> pump_all fifo_flume 1 [MsgItem \<lparr>reply_result = None\<rparr>, MsgEnd] (stream, demo_session) =
         Some (ReplyStream q False, demo_session)
     \<and> drain_replies fifo_flume 2 q = [Inr \<lparr>reply_result = None\<rparr>, Inl reply_closed]"
proof -
  have a: "get_answer fifo_flume 1 (Inr ()) demo_session =
      (Inr (ReplyStream (bounded_drop_oldest fifo_flume RECV_QUEUE_CAPACITY) True), demo_session)"
    by (simp add: get_answer_def)
  from reply_stream_delivery [OF fifo.bounded_channel_axioms a, of "[\<lparr>reply_result = None\<rparr>]"]
  show ?thesis unfolding a by (auto simp: newest_def numeral_2_eq_2)
qed

end
