(* ===== verification/Client_Querier.thy ===== *)
theory Client_Querier
  imports Client_Session_Worker Client_Binding
begin

text \<open>
  The querier of the client core (\<^verbatim>\<open>QuerierInner\<close> and \<^verbatim>\<open>GrpcQuerier\<close> of
  \<^verbatim>\<open>zenoh-grpc-client-rs/src/lib.rs\<close>). It has no worker: each \<^verbatim>\<open>get\<close> declares the querier if it has no
  handle, sends the query and returns a reply stream. Several calls may run at the same time and share
  the binding.
\<close>

record 'ch querier_sys =
  qr_session :: "'ch Inner"
  qr_local_handle :: u64
  qr_args :: DeclareQuerierArgs
  qr_binding :: RemoteBinding
  qr_closed :: bool
  qr_close_epoch :: nat

definition GrpcSession_declare_querier :: "DeclareQuerierArgs \<Rightarrow> 'ch Inner \<Rightarrow> 'ch querier_sys" where
  "GrpcSession_declare_querier req s =
     (let (h, s') = alloc_local_handle s in
      \<lparr>qr_session = s', qr_local_handle = h, qr_args = req, qr_binding = binding_new,
       qr_closed = False, qr_close_epoch = 0\<rparr>)"

section \<open>Queries\<close>

datatype ('ch, 'c) querier_pc =
    QgStart
  | QgEnsure 'ch u64
  | QgDeclaring 'ch u64
  | QgCalling 'ch u64 u64
  | QgInvalidate u64
  | QgReturned "'c reply_stream result"

definition querier_call :: "QuerierGetArgs \<Rightarrow> ('ch, 'c) querier_pc \<times> 'ch querier_sys \<Rightarrow> ('ch \<times> request) option" where
  "querier_call req ps =
     (let S = snd ps; cid = client_id (qr_session S) in
      case fst ps of
        QgDeclaring c g \<Rightarrow> Some (c, DeclareQuerier (declare_querier_request cid (qr_args S)))
      | QgCalling c g h \<Rightarrow> Some (c, QuerierGet (querier_get_request cid h req))
      | _ \<Rightarrow> None)"

text \<open>
  \<open>handle_answer\<close> and \<open>answer\<close> are the results of the two requests. The stream that a successful
  answer opens is moved into the queue of the result by \<open>reply_pump_step\<close>.
\<close>

definition no_replies :: "('c, pb_Reply) flume \<Rightarrow> ('ch, 'c) querier_pc" where
  "no_replies F = QgReturned (Inr (ReplyStream (empty_reply_stream F) False))"

definition qr_mark_disconnected :: "u64 \<Rightarrow> 'ch querier_sys \<Rightarrow> 'ch querier_sys" where
  "qr_mark_disconnected g S = S\<lparr>qr_session := mark_disconnected g (qr_session S)\<rparr>"

definition querier_get_step ::
  "('c, pb_Reply) flume \<Rightarrow> u64 rpc_result \<Rightarrow> unit rpc_result \<Rightarrow>
   ('ch, 'c) querier_pc \<times> 'ch querier_sys \<Rightarrow> (('ch, 'c) querier_pc \<times> 'ch querier_sys) option" where
  "querier_get_step F handle_answer answer ps =
     (let S = snd ps in
      case fst ps of
        QgStart \<Rightarrow>
          Some (case current_connection (qr_session S) of
                  None \<Rightarrow> (no_replies F, S\<lparr>qr_session := warn_disconnected_once (qr_session S)\<rparr>)
                | Some (c, g) \<Rightarrow> (QgEnsure c g, S))
      | QgEnsure c g \<Rightarrow>
          (case ensure_start (qr_binding S) of
             None \<Rightarrow> None
           | Some (Some h, b) \<Rightarrow> Some (QgCalling c g h, S)
           | Some (None, b) \<Rightarrow> Some (QgDeclaring c g, S\<lparr>qr_binding := b\<rparr>))
      | QgDeclaring c g \<Rightarrow>
          (let S1 = S\<lparr>qr_binding := ensure_answer g handle_answer (qr_binding S)\<rparr> in
           case handle_answer of
             Inr h \<Rightarrow> Some (QgCalling c g h, S1)
           | Inl st \<Rightarrow>
               if is_disconnect_status st then Some (no_replies F, qr_mark_disconnected g S1)
               else Some (QgReturned (Inl (Status st)), S1))
      | QgCalling c g h \<Rightarrow>
          (case answer of
             Inr _ \<Rightarrow> Some (QgReturned (Inr (ReplyStream (bounded_drop_oldest F RECV_QUEUE_CAPACITY) True)), S)
           | Inl st \<Rightarrow>
               if is_disconnect_status st then Some (no_replies F, qr_mark_disconnected g S)
               else if is_stale_status st then Some (QgInvalidate h, S)
               else Some (QgReturned (Inl (Status st)), S))
      | QgInvalidate h \<Rightarrow>
          (case invalidate_handle h (qr_binding S) of
             None \<Rightarrow> None
           | Some b \<Rightarrow> Some (no_replies F, S\<lparr>qr_binding := b\<rparr>))
      | QgReturned _ \<Rightarrow> None)"

section \<open>Undeclaring\<close>

definition querier_undeclare_step ::
  "unit rpc_result \<Rightarrow> 'ch undeclare_pc \<times> 'ch querier_sys \<Rightarrow> ('ch undeclare_pc \<times> 'ch querier_sys) option" where
  "querier_undeclare_step answer ps =
     (let S = snd ps in
      case fst ps of
        UnIdle \<Rightarrow> Some (UnTake, S\<lparr>qr_closed := True, qr_close_epoch := Suc (qr_close_epoch S)\<rparr>)
      | pc \<Rightarrow>
          map_option (\<lambda>(pc', b, s). (pc', S\<lparr>qr_binding := b, qr_session := s\<rparr>))
            (undeclare_tail answer (pc, qr_binding S, qr_session S)))"

section \<open>Results of a query\<close>

text \<open>A call that is not delayed by others, step after step, with one answer to each request.\<close>

definition run_get ::
  "('c, pb_Reply) flume \<Rightarrow> u64 rpc_result \<Rightarrow> unit rpc_result \<Rightarrow> nat \<Rightarrow>
   ('ch, 'c) querier_pc \<times> 'ch querier_sys \<Rightarrow> ('ch, 'c) querier_pc \<times> 'ch querier_sys" where
  "run_get F ha a n = run_steps (\<lambda>_. querier_get_step F ha a) (replicate n ())"

lemma run_get_Suc:
  "querier_get_step F ha a ps = Some ps' \<Longrightarrow> run_get F ha a (Suc n) ps = run_get F ha a n ps'"
  by (simp add: run_get_def step_or_stay_def)

lemma run_get_returned: "run_get F ha a n (QgReturned r, S) = (QgReturned r, S)"
  by (induction n) (simp_all add: run_get_def step_or_stay_def querier_get_step_def)

text \<open>From the query on, two steps are enough.\<close>

lemma run_get_calling:
  assumes "\<not> b_locked (qr_binding S)"
  shows "\<exists>r S'. run_get F ha a (Suc (Suc n)) (QgCalling c g h, S) = (QgReturned r, S')
    \<and> \<not> b_locked (qr_binding S')
    \<and> (\<forall>e. r = Inl e \<longrightarrow> (\<exists>st. e = Status st \<and> \<not> is_disconnect_status st \<and> a = Inl st \<and> \<not> is_stale_status st))
    \<and> (\<forall>st. a = Inl st \<and> is_stale_status st \<and> b_handle (qr_binding S) = Some h \<longrightarrow>
         b_handle (qr_binding S') = None)"
proof (cases a)
  case (Inr u)
  then have "querier_get_step F ha a (QgCalling c g h, S) =
      Some (QgReturned (Inr (ReplyStream (bounded_drop_oldest F RECV_QUEUE_CAPACITY) True)), S)"
    by (simp add: querier_get_step_def)
  with Inr assms show ?thesis by (simp add: run_get_Suc run_get_returned)
next
  case (Inl st)
  consider "is_disconnect_status st" | "is_stale_status st" "\<not> is_disconnect_status st"
    | "\<not> is_disconnect_status st" "\<not> is_stale_status st" by blast
  then show ?thesis
  proof cases
    case 1
    then have "querier_get_step F ha a (QgCalling c g h, S) = Some (no_replies F, qr_mark_disconnected g S)"
      by (simp add: querier_get_step_def Inl)
    with 1 Inl assms not_disconnect_and_stale show ?thesis
      by (auto simp: run_get_Suc run_get_returned no_replies_def qr_mark_disconnected_def)
  next
    case 2
    then have "querier_get_step F ha a (QgCalling c g h, S) = Some (QgInvalidate h, S)"
      by (simp add: querier_get_step_def Inl)
    moreover obtain b where b: "invalidate_handle h (qr_binding S) = Some b" "\<not> b_locked b"
      "b_handle (qr_binding S) = Some h \<longrightarrow> b_handle b = None"
      using assms by (auto simp: invalidate_handle_def)
    then have "querier_get_step F ha a (QgInvalidate h, S) = Some (no_replies F, S\<lparr>qr_binding := b\<rparr>)"
      by (simp add: querier_get_step_def)
    ultimately show ?thesis using b
      by (auto simp: run_get_Suc run_get_returned no_replies_def)
  next
    case 3
    then have "querier_get_step F ha a (QgCalling c g h, S) = Some (QgReturned (Inl (Status st)), S)"
      by (simp add: querier_get_step_def Inl)
    with 3 Inl assms show ?thesis by (simp add: run_get_Suc run_get_returned)
  qed
qed

text \<open>
  A query always returns. If no other call holds the binding, \<^verbatim>\<open>get\<close> returns after at most five
  steps and releases the binding; the result is an error exactly when the server refused the
  declaration or the query with a status that means neither a lost connection nor (for the query) a
  lost handle. A lost connection or handle gives an empty stream, and the handle is forgotten in the
  second case.
\<close>

theorem querier_get_returns:
  assumes "\<not> b_locked (qr_binding S)" and "ps = run_get F ha a 5 (QgStart, S)"
  shows "\<exists>r S'. ps = (QgReturned r, S') \<and> \<not> b_locked (qr_binding S')
    \<and> (\<forall>e. r = Inl e \<longrightarrow> (\<exists>st. e = Status st \<and> \<not> is_disconnect_status st
         \<and> (ha = Inl st \<or> a = Inl st \<and> \<not> is_stale_status st)))
    \<and> (\<forall>st h. a = Inl st \<and> is_stale_status st \<and> b_handle (qr_binding S) = Some h
         \<and> current_connection (qr_session S) \<noteq> None \<longrightarrow> b_handle (qr_binding S') = None)"
proof (cases "current_connection (qr_session S)")
  case None
  then have "querier_get_step F ha a (QgStart, S) =
      Some (no_replies F, S\<lparr>qr_session := warn_disconnected_once (qr_session S)\<rparr>)"
    by (simp add: querier_get_step_def)
  with None assms show ?thesis
    by (simp add: numeral_eq_Suc run_get_Suc run_get_returned no_replies_def)
next
  case (Some cg)
  obtain c g where cg: "cg = (c, g)" by (cases cg)
  with Some have start: "querier_get_step F ha a (QgStart, S) = Some (QgEnsure c g, S)"
    by (simp add: querier_get_step_def)
  show ?thesis
  proof (cases "b_handle (qr_binding S)")
    case (Some h)
    with assms(1) have "querier_get_step F ha a (QgEnsure c g, S) = Some (QgCalling c g h, S)"
      by (simp add: querier_get_step_def ensure_start_def)
    with start have "ps = run_get F ha a (Suc (Suc 1)) (QgCalling c g h, S)"
      by (simp add: assms(2) numeral_eq_Suc run_get_Suc)
    with run_get_calling [OF assms(1), of F ha a 1 c g h] Some show ?thesis by auto
  next
    case None
    let ?S1 = "S\<lparr>qr_binding := (qr_binding S)\<lparr>b_locked := True\<rparr>\<rparr>"
    let ?S2 = "?S1\<lparr>qr_binding := ensure_answer g ha (qr_binding ?S1)\<rparr>"
    have free: "\<not> b_locked (qr_binding ?S2)" by (simp add: ensure_answer_def split: sum.splits)
    from None assms(1) have "querier_get_step F ha a (QgEnsure c g, S) = Some (QgDeclaring c g, ?S1)"
      by (simp add: querier_get_step_def ensure_start_def)
    with start have ps: "ps = run_get F ha a (Suc (Suc (Suc 0))) (QgDeclaring c g, ?S1)"
      by (simp add: assms(2) numeral_eq_Suc run_get_Suc)
    show ?thesis
    proof (cases ha)
      case (Inr h)
      then have "querier_get_step F ha a (QgDeclaring c g, ?S1) = Some (QgCalling c g h, ?S2)"
        by (simp add: querier_get_step_def)
      with run_get_calling [OF free, of F ha a 0 c g h] None show ?thesis
        by (auto simp: ps run_get_Suc)
    next
      case (Inl st)
      then have "querier_get_step F ha a (QgDeclaring c g, ?S1) =
          Some (if is_disconnect_status st then (no_replies F, qr_mark_disconnected g ?S2)
                else (QgReturned (Inl (Status st)), ?S2))"
        by (simp add: querier_get_step_def)
      with Inl None free show ?thesis
        by (simp add: ps run_get_Suc run_get_returned no_replies_def qr_mark_disconnected_def)
    qed
  qed
qed

text \<open>
  An undeclared querier comes back. After \<^verbatim>\<open>undeclare\<close> has returned, the flag it sets is not read
  by \<^verbatim>\<open>get\<close>: with a connection, the next \<^verbatim>\<open>get\<close> sends a new declaration to the server and binds its
  answer, although the querier is closed.
\<close>

theorem undeclared_querier_redeclares:
  assumes "\<not> b_locked (qr_binding S)" and "current_connection (qr_session S) = Some (c, g)"
    and "(pc, S1) = run_steps querier_undeclare_step [Inr (), Inr (), Inr (), Inr ()] (UnIdle, S)"
    and "ps = run_get F (Inr h) a 2 (QgStart, S1)"
  shows "pc = UnReturned (Inr ()) \<and> qr_closed S1 \<and> b_handle (qr_binding S1) = None
    \<and> querier_call req ps =
        Some (c, DeclareQuerier (declare_querier_request (client_id (qr_session S)) (qr_args S)))
    \<and> b_handle (qr_binding (snd (run_get F (Inr h) a 3 (QgStart, S1)))) = Some h"
  using assms
  by (cases "b_handle (qr_binding S)")
    (simp_all add: step_or_stay_def querier_undeclare_step_def undeclare_tail_def take_handle_def
      run_get_def numeral_2_eq_2 replicate_small querier_get_step_def ensure_start_def
      ensure_answer_def querier_call_def Let_def)

section \<open>Witnesses\<close>

definition demo_querier :: "nat querier_sys" where
  "demo_querier = GrpcSession_declare_querier DeclareQuerierArgs_default demo_session"

lemma demo_querier_simps:
  "\<not> b_locked (qr_binding demo_querier)" "b_handle (qr_binding demo_querier) = None"
  "current_connection (qr_session demo_querier) = Some (0, 1)"
  by (simp_all add: demo_querier_def GrpcSession_declare_querier_def binding_new_def demo_simps
      alloc_local_handle_def)

theorem querier_get_returns_witness:
  "\<exists>r S'. run_get fifo_flume (Inr 3) (Inr ()) 5 (QgStart, demo_querier) = (QgReturned r, S')
     \<and> \<not> b_locked (qr_binding S')"
  using querier_get_returns [OF demo_querier_simps(1) refl, of fifo_flume "Inr 3" "Inr ()"] by blast

theorem undeclared_querier_redeclares_witness:
  "\<exists>S1 :: nat querier_sys. qr_closed S1
     \<and> b_handle (qr_binding (snd (run_get fifo_flume (Inr 3) (Inr ()) 3 (QgStart, S1)))) = Some 3"
  using undeclared_querier_redeclares [OF demo_querier_simps(1,3) surjective_pairing [symmetric] refl,
      where F = fifo_flume and h = 3 and a = "Inr ()" and req = QuerierGetArgs_default]
  by - (rule exI [of _ "snd (run_steps querier_undeclare_step [Inr (), Inr (), Inr (), Inr ()]
        (UnIdle, demo_querier))"], blast)

end
