(* ===== verification/End_To_End.thy ===== *)
theory End_To_End
  imports Server_Leases Client_Publisher Client_Replies Client_Querier
begin

text \<open>
  The client core and the plugin together: the requests of the client's workers are answered by the
  handlers of the plugin. A step of the composed system is a step of the publisher's worker; when the
  worker is waiting for a request (\<open>publisher_call\<close>), the plugin handles it first. The network in
  between delivers every request; its failures are the disconnect statuses of the client theories.
\<close>

section \<open>Composition\<close>

text \<open>The answer of the plugin as the generated client stub returns it.\<close>

fun as_handle :: "response rpc_result \<Rightarrow> u64 rpc_result" where
  "as_handle (Inr (R_Handle h)) = Inr h"
| "as_handle (Inr _) = Inr 0"
| "as_handle (Inl e) = Inl e"

definition as_unit :: "response rpc_result \<Rightarrow> unit rpc_result" where
  "as_unit = map_sum id (\<lambda>_. ())"

definition publisher_with_server ::
  "('c, PublisherCommand) flume \<Rightarrow> 'w env \<Rightarrow> instant \<Rightarrow> ('ch, 'c) publisher_sys \<times> 'w PluginState \<Rightarrow>
   (('ch, 'c) publisher_sys \<times> 'w PluginState) option" where
  "publisher_with_server F E now = (\<lambda>(S, s).
     case publisher_call S of
       None \<Rightarrow> map_option (\<lambda>S'. (S', s)) (publisher_worker_step F False (Inr 0) (Inr ()) S)
     | Some (c, r) \<Rightarrow>
         (case handle_request E now r s of (a, s') \<Rightarrow>
            map_option (\<lambda>S'. (S', s')) (publisher_worker_step F False (as_handle a) (as_unit a) S)))"

section \<open>A publisher recovers from the loss of its handle\<close>

text \<open>The worker from the failed call up to the new declaration, and from its answer on.\<close>

definition recovering :: "PublisherCommand \<Rightarrow> 'ch \<Rightarrow> u64 \<Rightarrow> ('ch, 'c) publisher_sys \<Rightarrow> bool" where
  "recovering cmd c g S \<longleftrightarrow>
     \<not> publisher_is_closed S \<and> current_connection (ps_session S) = Some (c, g)
     \<and> \<not> b_locked (pub_binding (ps_inner S))"

lemmas recovery_defs = publisher_with_server_def publisher_call_def publisher_steps Let_def
  recovering_def publisher_is_closed_def wait_step_def ensure_start_def ensure_answer_def
  invalidate_handle_def step_or_stay_def

lemma stale_call_invalidates:
  assumes "ps_worker S = PwCalling cmd c0 g0 h" and "fst (handle_request E now
      (publisher_request (client_id (ps_session S)) h cmd) s) = Inl e" and "is_stale_status e"
  shows "publisher_with_server F E now (S, s) = Some (S\<lparr>ps_worker := PwInvalidate cmd h\<rparr>,
      snd (handle_request E now (publisher_request (client_id (ps_session S)) h cmd) s))"
  using assms not_disconnect_and_stale [of e]
  by (auto simp: publisher_with_server_def publisher_call_def publisher_worker_step_def as_unit_def
      Let_def split: prod.split)

lemma invalidate_to_declaring:
  assumes "ps_worker S = PwInvalidate cmd h" and "recovering cmd c g S"
    and "b_handle (pub_binding (ps_inner S)) = Some h"
  shows "run_steps (publisher_with_server F E) [t1, t2, t3, t4, t5] (S, s) =
    (set_pub_binding \<lparr>b_handle = None, b_generation = b_generation (pub_binding (ps_inner S)),
       b_locked = True\<rparr> S\<lparr>ps_worker := PwDeclaring cmd c g\<rparr>, s)"
  using assms by (simp add: recovery_defs)

lemma declaring_to_calling:
  assumes "ps_worker S = PwDeclaring cmd c g"
    and "\<And>args w. isl (fst (z_declare_publisher E args w)) = False"
  shows "\<exists>S' s'. run_steps (publisher_with_server F E) [t] (S, s) = (S', s')
    \<and> ps_worker S' = PwCalling cmd c g (next_handle s) \<and> ps_session S' = ps_session S
    \<and> ps_queue S' = ps_queue S
    \<and> owns_in pub_owner (publishers s') (client_id (ps_session S)) (next_handle s)"
proof -
  define r where "r = declare_publisher_request (client_id (ps_session S)) (pub_args (ps_inner S))"
  have accepted: "fst (z_declare_publisher E args w) \<noteq> Inl e" for args w e
    using assms(2) [of args w] by (metis isl_def)
  have "fst (declare_publisher E t r s) = Inr (next_handle s)
      \<and> owns_in pub_owner (publishers (snd (declare_publisher E t r s))) (dpub_client_id r) (next_handle s)"
    by (auto simp: declare_publisher_def alloc_handle_def awaited_def owns_in_def case_prod_beta Let_def
        accepted split: sum.split)
  moreover have "dpub_client_id r = client_id (ps_session S)"
    by (simp add: r_def declare_publisher_request_def)
  ultimately show ?thesis
    using assms(1)
    by (cases "declare_publisher E t r s")
      (auto simp: publisher_with_server_def publisher_call_def publisher_steps step_or_stay_def Let_def
        respond_def as_unit_def simp flip: r_def)
qed

lemma lost_handle_is_stale:
  assumes "\<not> authorised (publisher_request cid h cmd) s"
  shows "\<exists>e. fst (handle_request E now (publisher_request cid h cmd) s) = Inl e \<and> is_stale_status e"
  using assms
  by (cases cmd) (auto simp: publisher_put_def publisher_delete_def Let_def respond_def owns_in_def
      ensure_owner_def is_stale_status_def split: option.splits sum.splits)

lemma publisher_request_next_handle:
  "next_handle (snd (handle_request E now (publisher_request cid h cmd) s)) = next_handle s"
  using step_next_handle [of E "Rpc now (publisher_request cid h cmd)" s] by (cases cmd) simp_all

lemma publisher_request_authorised:
  "authorised (publisher_request cid h cmd) s = owns_in pub_owner (publishers s) cid h"
  by (cases cmd) (simp_all add: publisher_put_request_def publisher_delete_request_def)


section \<open>Handles of an earlier plugin\<close>

text \<open>
  C35: a handle of an earlier plugin may name another object. Suppose the plugin was restarted and a
  client's first declaration since then was for a publisher declared with \<open>r\<close>, which got the handle
  \<open>1\<close>. Another publisher of the same client that is still bound to the handle \<open>1\<close> of the earlier
  plugin sends its \<^verbatim>\<open>put\<close>: the plugin hands the payload to the publisher on the key expression of \<open>r\<close>,
  whatever key expression the sender was declared with, and if Zenoh accepts it the sender counts its
  command as processed. The generation stored with the handle is never compared.
\<close>

theorem restart_misdelivers:
  assumes "ps_worker S = PwCalling (PubPut a) c g 1" and "dpub_client_id r = client_id (ps_session S)"
    and "declare_publisher E t r (PluginState_new w cfg) = (Inr h, s)"
  shows "h = 1 \<and> (\<exists>args p w1. zpub_key_expr args = dpub_key_expr r
    \<and> z_declare_publisher E args w = (Inr p, w1)
    \<and> session (snd (handle_request E now (publisher_request (client_id (ps_session S)) 1 (PubPut a)) s)) =
        snd (z_publisher_put E p (ppa_payload a) (opt_encoding E (ppa_encoding a))
          (opt_attachment (ppa_attachment a)) w1)
    \<and> (fst (z_publisher_put E p (ppa_payload a) (opt_encoding E (ppa_encoding a))
          (opt_attachment (ppa_attachment a)) w1) = Inr () \<longrightarrow>
        map_option fst (publisher_with_server F E now (S, s)) = Some (publisher_processed S)))"
proof -
  define args where "args =
     \<lparr>zpub_key_expr = dpub_key_expr r, zpub_encoding = encoding_from E (dpub_encoding r),
      zpub_congestion_control = map_congestion_control (dpub_congestion_control r),
      zpub_priority = map_priority (dpub_priority r), zpub_express = dpub_express r,
      zpub_reliability = map_reliability (dpub_reliability r),
      zpub_allowed_destination = map_locality (dpub_allowed_destination r)\<rparr>"
  obtain ans w1 where z: "z_declare_publisher E args w = (ans, w1)" by fastforce
  then obtain p where ans: "ans = Inr p"
    using assms(3) by (cases ans)
      (auto simp: declare_publisher_def alloc_handle_def PluginState_new_def simp flip: args_def)
  have entry: "hm_get (publishers s) 1 = Some \<lparr>pub_owner = client_id (ps_session S), pub_publisher = p\<rparr>"
    and h: "h = 1" and w: "session s = w1"
    using assms(2,3) z ans
    by (auto simp: declare_publisher_def alloc_handle_def PluginState_new_def insert_publisher_def
        replaced_def simp flip: args_def)
  let ?put = "z_publisher_put E p (ppa_payload a) (opt_encoding E (ppa_encoding a))
    (opt_attachment (ppa_attachment a)) w1"
  have put: "publisher_put E now (publisher_put_request (client_id (ps_session S)) 1 a) s =
      awaited ?put (touch_client now (client_id (ps_session S)) s)"
    using entry w by (simp add: publisher_put_def publisher_put_request_def Let_def)
  have "map_option fst (publisher_with_server F E now (S, s)) = Some (publisher_processed S)"
    if "fst ?put = Inr ()"
    using assms(1) put that
    by (auto simp: publisher_with_server_def publisher_call_def publisher_worker_step_def respond_def
        awaited_def as_unit_def Let_def)
  with h z ans put show ?thesis by (intro conjI exI [of _ args] exI [of _ p] exI [of _ w1])
      (auto simp: args_def)
qed

section \<open>Requests of the workers\<close>

text \<open>The requests that the objects of a session send while they work, undeclarations apart.\<close>

lemma worker_requests:
  "publisher_call S = Some (c, r) \<Longrightarrow> requester r = client_id (ps_session S) \<and> \<not> is_undeclare r"
  "subscriber_call B = Some (c, r) \<Longrightarrow> requester r = client_id (ev_session B) \<and> \<not> is_undeclare r"
  "queryable_call Q = Some (c, r) \<Longrightarrow> requester r = client_id (ev_session Q) \<and> \<not> is_undeclare r"
  "reply_call Q = Some (c, r) \<Longrightarrow> requester r = client_id (ev_session Q) \<and> \<not> is_undeclare r"
  "querier_call req (pc, K) = Some (c, r) \<Longrightarrow> requester r = client_id (qr_session K) \<and> \<not> is_undeclare r"
proof -
  have cmd: "requester (publisher_request cid h cmd) = cid \<and> \<not> is_undeclare (publisher_request cid h cmd)"
    for cid h cmd
    by (cases cmd) (simp_all add: publisher_put_request_def publisher_delete_request_def)
  show "publisher_call S = Some (c, r) \<Longrightarrow> requester r = client_id (ps_session S) \<and> \<not> is_undeclare r"
    by (auto simp: publisher_call_def Let_def declare_publisher_request_def cmd split: publisher_pc.splits)
  have "requester (reply_command_request cid q) = cid \<and> \<not> is_undeclare (reply_command_request cid q)"
    for cid q
    by (cases q) (simp_all add: reply_request_def reply_err_request_def reply_delete_request_def)
  then show "reply_call Q = Some (c, r) \<Longrightarrow> requester r = client_id (ev_session Q) \<and> \<not> is_undeclare r"
    by (auto simp: reply_call_def split: reply_pc.splits)
  show "subscriber_call B = Some (c, r) \<Longrightarrow> requester r = client_id (ev_session B) \<and> \<not> is_undeclare r"
    "queryable_call Q = Some (c, r) \<Longrightarrow> requester r = client_id (ev_session Q) \<and> \<not> is_undeclare r"
    by (auto simp: subscriber_call_def queryable_call_def Let_def declare_subscriber_request_def
        declare_queryable_request_def split: event_pc.splits)
  show "querier_call req (pc, K) = Some (c, r) \<Longrightarrow> requester r = client_id (qr_session K) \<and> \<not> is_undeclare r"
    by (auto simp: querier_call_def Let_def declare_querier_request_def querier_get_request_def
        split: querier_pc.splits)
qed


section \<open>Timestamps\<close>

fun without_timestamp :: "request \<Rightarrow> request" where
  "without_timestamp (Put r) = Put (r\<lparr>sput_timestamp := []\<rparr>)"
| "without_timestamp (Delete r) = Delete (r\<lparr>sdel_timestamp := []\<rparr>)"
| "without_timestamp (PublisherPut r) = PublisherPut (r\<lparr>pput_timestamp := []\<rparr>)"
| "without_timestamp (PublisherDelete r) = PublisherDelete (r\<lparr>pdel_timestamp := []\<rparr>)"
| "without_timestamp (Reply r) = Reply (r\<lparr>qrep_timestamp := []\<rparr>)"
| "without_timestamp (ReplyDelete r) = ReplyDelete (r\<lparr>qdel_timestamp := []\<rparr>)"
| "without_timestamp r = r"

text \<open>
  The timestamp of a request is transported and then ignored: a \<^verbatim>\<open>put\<close>, \<^verbatim>\<open>delete\<close>, \<^verbatim>\<open>reply\<close> or
  \<^verbatim>\<open>reply_delete\<close>, of a session, a publisher or a queryable, is handled exactly as the request
  without its timestamp: same answer, same calls of Zenoh, same state.
\<close>

theorem timestamps_ignored:
  "handle_request E now (without_timestamp r) s = handle_request E now r s"
  by (cases r) (simp_all add: handlers Let_def cong: option.case_cong sum.case_cong)

section \<open>Witnesses\<close>

text \<open>A publisher in the middle of a \<^verbatim>\<open>put\<close> with the handle \<open>h\<close>.\<close>

definition sending :: "u64 \<Rightarrow> (nat, PublisherCommand fifo) publisher_sys" where
  "sending h = run_steps (publisher_step fifo_flume)
     (PiPut PublisherPutArgs_default # replicate 6 (PiWorker False (Inr h) (Inr ()))) demo_publisher"

lemma sending_state:
  "ps_worker (sending h) = PwCalling (PubPut PublisherPutArgs_default) 0 1 h"
  "pub_binding (ps_inner (sending h)) = \<lparr>b_handle = Some h, b_generation = 1, b_locked = False\<rparr>"
  "current_connection (ps_session (sending h)) = Some (0, 1)"
  "client_id (ps_session (sending h)) = ''id''" "\<not> publisher_is_closed (sending h)"
  by (simp_all add: sending_def demo_publisher_simps replicate_small)


theorem restart_misdelivers_witness:
  "\<exists>p. session (snd (handle_request log_env 20 (publisher_request ''id'' 1 (PubPut PublisherPutArgs_default))
        (snd (declare_publisher log_env 10 (declare_request ''id'' ''k/b'') initial)))) =
      [CallDeclarePublisher p, CallPublisherPut 0 [] None None] \<and> zpub_key_expr p = ''k/b''"
proof -
  have "fst (declare_publisher log_env 10 (declare_request ''id'' ''k/b'') (PluginState_new [] Config_default)) = Inr 1"
    by (simp add: declare_publisher_def alloc_handle_def PluginState_new_def log_env_def log_ref_def)
  then have "declare_publisher log_env 10 (declare_request ''id'' ''k/b'') (PluginState_new [] Config_default) =
      (Inr 1, snd (declare_publisher log_env 10 (declare_request ''id'' ''k/b'') initial))"
    by (simp add: initial_def prod_eq_iff)
  from restart_misdelivers [OF sending_state(1) _ this, where now = 20 and F = fifo_flume]
  show ?thesis
    by (auto simp: sending_state declare_request_def log_env_def log_ref_def log_unit_def opt_encoding_def
        opt_attachment_def PublisherPutArgs_default_def)
qed


end
