(* ===== verification/Server_World.thy ===== *)
theory Server_World
  imports Server_Invariants
begin

text \<open>
  Properties of the world behind the plugin (the state of Zenoh and of the broadcast channels) that the
  release of objects keeps. \<open>kept_world E I\<close>: undeclaring or dropping a Zenoh object and dropping a sender keep
  \<open>I\<close>; then so does everything by which the plugin gives objects back, the cleanup task included.
\<close>

locale kept_world =
  fixes E :: "'w env" and I :: "'w \<Rightarrow> bool"
  assumes undeclare_kept: "I w \<Longrightarrow> I (snd (z_undeclare E r w))"
    and drop_kept: "I w \<Longrightarrow> I (z_drop E r w)"
    and sender_kept: "I w \<Longrightarrow> I (bc_drop E tx w)"
begin

lemma released_kept:
  assumes "I w"
  shows "I (release_publisher E e1 w)" "I (release_subscriber E e2 w)" "I (release_queryable E e3 w)"
    "I (release_querier E e4 w)" "I (drop_query E q w)" "I (drop_publisher E e1 w)" "I (drop_subscriber E e2 w)"
    "I (drop_queryable E e3 w)" "I (drop_querier E e4 w)"
  using assms by (simp_all add: release_publisher_def release_subscriber_def release_queryable_def
      release_querier_def drop_query_def drop_publisher_def drop_subscriber_def drop_queryable_def
      drop_querier_def undeclare_kept drop_kept sender_kept)

lemma replaced_kept: "(\<And>e w. I w \<Longrightarrow> I (f e w)) \<Longrightarrow> I w \<Longrightarrow> I (replaced f m k w)"
  by (simp add: replaced_def split: option.splits)

lemma inserted_kept:
  assumes "I (session s)"
  shows "I (session (insert_publisher E h pe s))" "I (session (insert_subscriber E h se s))"
    "I (session (insert_queryable E h qe s))" "I (session (insert_querier E h re s))"
  using assms by (simp_all add: insert_publisher_def insert_subscriber_def insert_queryable_def
      insert_querier_def replaced_kept released_kept)

lemma fold_kept: "(\<And>x w. I w \<Longrightarrow> I (f x w)) \<Longrightarrow> I w \<Longrightarrow> I (fold f xs w)"
  by (induction xs arbitrary: w) simp_all

lemma removed_kept:
  assumes "\<And>e w. I w \<Longrightarrow> I (release e w)"
  shows "I w \<Longrightarrow> I (snd (remove_entries release hs (m, w)))"
  by (induction hs arbitrary: m w) (auto split: option.splits simp: assms)

lemma retained_kept: "I (session s) \<Longrightarrow> I (session (retain_inflight E P s))"
  by (simp add: retain_inflight_def fold_kept released_kept)

lemma cleanup_kept:
  assumes "I (session s)"
  shows "I (session (cleanup_client E c s))"
  using assms by (simp add: cleanup_client_def Let_def case_prod_beta retained_kept removed_kept released_kept)

lemma cleanups_kept: "I (session s) \<Longrightarrow> I (session (fold (cleanup_client E) cs s))"
  by (induction cs arbitrary: s) (simp_all add: cleanup_kept)

lemma tick_kept: "I (session s) \<Longrightarrow> I (session (cleanup_tick E now s))"
  by (simp add: cleanup_tick_def cleanups_kept)

end

end
