(* ===== verification/Zenoh_Delivery.thy ===== *)
theory Zenoh_Delivery
  imports Zenoh_Api
begin

text \<open>
  What the delivery of data relies on: the locale \<open>zenoh_delivery\<close> states it of Zenoh and of tokio's
  broadcast channels. A sample has the key expression of the publisher it was put with and the data of the
  put, and a broadcast receiver is offered only events that were sent. The locale \<open>zenoh_queries\<close> states what
  the answers to queries rely on: only the calls that answer a query add an answer to it, their own.
  \<open>loop_env\<close> is an instance of both.
\<close>

section \<open>Zenoh as seen from outside\<close>

text \<open>
  \<open>samples w\<close> are the samples that Zenoh has accepted from the publishers of the plugin's session so far,
  \<open>declared p w\<close> are the parameters with which the publisher \<open>p\<close> was declared, and \<open>offered r w\<close> are the
  events that the broadcast receiver \<open>r\<close> has been offered so far. \<open>silent_for\<close>: a call that publishes nothing.
\<close>

definition silent_for ::
  "('w \<Rightarrow> z_sample list) \<Rightarrow> (zref \<Rightarrow> 'w \<Rightarrow> publisher_params option) \<Rightarrow>
   (zref \<Rightarrow> 'w \<Rightarrow> pb_SubscriberEvent list) \<Rightarrow> 'w \<Rightarrow> 'w \<Rightarrow> bool" where
  "silent_for samples declared offered w w' \<longleftrightarrow>
     samples w' = samples w
     \<and> (\<forall>p P. declared p w' = Some P \<longrightarrow> declared p w = Some P)
     \<and> (\<forall>r. set (offered r w') \<subseteq> set (offered r w))"

definition publishes ::
  "('w \<Rightarrow> z_sample list) \<Rightarrow> (zref \<Rightarrow> 'w \<Rightarrow> publisher_params option) \<Rightarrow>
   (zref \<Rightarrow> 'w \<Rightarrow> pb_SubscriberEvent list) \<Rightarrow> zref \<Rightarrow> (publisher_params \<Rightarrow> z_sample \<Rightarrow> bool) \<Rightarrow> 'w \<Rightarrow> 'w \<Rightarrow> bool" where
  "publishes samples declared offered p is_sample w w' \<longleftrightarrow>
     (samples w' = samples w
       \<or> (\<exists>P z. declared p w = Some P \<and> samples w' = samples w @ [z] \<and> is_sample P z))
     \<and> (\<forall>p P. declared p w' = Some P \<longrightarrow> declared p w = Some P)
     \<and> (\<forall>r. set (offered r w') \<subseteq> set (offered r w))"

definition put_sample :: "bytes \<Rightarrow> zencoding option \<Rightarrow> bytes option \<Rightarrow> publisher_params \<Rightarrow> z_sample \<Rightarrow> bool" where
  "put_sample payload enc att P z \<longleftrightarrow>
     zs_key_expr z = zpub_key_expr P \<and> zs_payload z = payload \<and> zs_encoding z = unwrap_or enc (zpub_encoding P)
     \<and> zs_kind z = ZPut \<and> zs_attachment z = att"

definition delete_sample :: "bytes option \<Rightarrow> publisher_params \<Rightarrow> z_sample \<Rightarrow> bool" where
  "delete_sample att P z \<longleftrightarrow>
     zs_key_expr z = zpub_key_expr P \<and> zs_payload z = [] \<and> zs_kind z = ZDelete \<and> zs_attachment z = att"

locale zenoh_delivery =
  fixes E :: "'w env"
    and samples :: "'w \<Rightarrow> z_sample list"
    and declared :: "zref \<Rightarrow> 'w \<Rightarrow> publisher_params option"
    and offered :: "zref \<Rightarrow> 'w \<Rightarrow> pb_SubscriberEvent list"
  assumes put_law: "publishes samples declared offered p (put_sample b enc att) w (snd (z_publisher_put E p b enc att w))"
    and delete_law: "publishes samples declared offered p (delete_sample att) w (snd (z_publisher_delete E p att w))"
    and declare_law: "samples (snd (z_declare_publisher E P w)) = samples w
      \<and> (\<forall>p Q. declared p (snd (z_declare_publisher E P w)) = Some Q \<longrightarrow> declared p w = Some Q \<or> Q = P)
      \<and> (\<forall>r. set (offered r (snd (z_declare_publisher E P w))) \<subseteq> set (offered r w))"
    and send_law: "samples (bc_send_sample E tx ev w) = samples w
      \<and> (\<forall>p P. declared p (bc_send_sample E tx ev w) = Some P \<longrightarrow> declared p w = Some P)
      \<and> (\<forall>r. set (offered r (bc_send_sample E tx ev w)) \<subseteq> insert ev (set (offered r w)))"
    and quiet_calls:
      "silent_for samples declared offered w (snd (z_get E gp w))"
      "silent_for samples declared offered w (snd (z_declare_subscriber E k l n w))"
      "silent_for samples declared offered w (snd (z_declare_queryable E k c l n w))"
      "silent_for samples declared offered w (snd (z_declare_querier E qp w))"
      "silent_for samples declared offered w (snd (z_querier_get E r q v a w))"
      "silent_for samples declared offered w (snd (z_reply E r k b e a w))"
      "silent_for samples declared offered w (snd (z_reply_err E r b e w))"
      "silent_for samples declared offered w (snd (z_reply_del E r k a w))"
      "silent_for samples declared offered w (snd (z_undeclare E r w))"
      "silent_for samples declared offered w (z_drop E r w)"
      "silent_for samples declared offered w (snd (bc_channel E n w))"
      "silent_for samples declared offered w (bc_send_query E tx qev w)"
      "silent_for samples declared offered w (snd (bc_subscribe E tx w))"
      "silent_for samples declared offered w (bc_drop E tx w)"

section \<open>Answers\<close>

text \<open>
  \<open>answers w\<close> are the answers that Zenoh has accepted so far, with the query each was given to, and
  \<open>offered r w\<close> the queries that the broadcast receiver \<open>r\<close> has been offered.
\<close>

datatype z_answer =
    AnReply string bytes "zencoding option" "bytes option"
  | AnErr bytes "zencoding option"
  | AnDelete string "bytes option"

definition answers_nothing ::
  "('w \<Rightarrow> (zref \<times> z_answer) list) \<Rightarrow> (zref \<Rightarrow> 'w \<Rightarrow> pb_QueryableEvent list) \<Rightarrow> 'w \<Rightarrow> 'w \<Rightarrow> bool" where
  "answers_nothing answers offered w w' \<longleftrightarrow>
     answers w' = answers w \<and> (\<forall>r. set (offered r w') \<subseteq> set (offered r w))"

definition answers_once ::
  "('w \<Rightarrow> (zref \<times> z_answer) list) \<Rightarrow> (zref \<Rightarrow> 'w \<Rightarrow> pb_QueryableEvent list) \<Rightarrow> zref \<times> z_answer \<Rightarrow>
   'w \<Rightarrow> 'w \<Rightarrow> bool" where
  "answers_once answers offered a w w' \<longleftrightarrow>
     (answers w' = answers w \<or> answers w' = answers w @ [a]) \<and> (\<forall>r. set (offered r w') \<subseteq> set (offered r w))"

locale zenoh_queries =
  fixes E :: "'w env"
    and answers :: "'w \<Rightarrow> (zref \<times> z_answer) list"
    and offered :: "zref \<Rightarrow> 'w \<Rightarrow> pb_QueryableEvent list"
  assumes reply_law: "answers_once answers offered (r, AnReply k b e a) w (snd (z_reply E r k b e a w))"
    and reply_err_law: "answers_once answers offered (r, AnErr b e) w (snd (z_reply_err E r b e w))"
    and reply_del_law: "answers_once answers offered (r, AnDelete k a) w (snd (z_reply_del E r k a w))"
    and send_query_law: "answers (bc_send_query E tx ev w) = answers w
      \<and> (\<forall>r. set (offered r (bc_send_query E tx ev w)) \<subseteq> insert ev (set (offered r w)))"
    and silent_calls:
      "answers_nothing answers offered w (snd (z_put E pp w))"
      "answers_nothing answers offered w (snd (z_delete E dp w))"
      "answers_nothing answers offered w (snd (z_get E gp w))"
      "answers_nothing answers offered w (snd (z_declare_publisher E P w))"
      "answers_nothing answers offered w (snd (z_declare_subscriber E k l n w))"
      "answers_nothing answers offered w (snd (z_declare_queryable E k c l n w))"
      "answers_nothing answers offered w (snd (z_declare_querier E qp w))"
      "answers_nothing answers offered w (snd (z_publisher_put E r b e a w))"
      "answers_nothing answers offered w (snd (z_publisher_delete E r a w))"
      "answers_nothing answers offered w (snd (z_querier_get E r q v a w))"
      "answers_nothing answers offered w (snd (z_undeclare E r w))"
      "answers_nothing answers offered w (z_drop E r w)"
      "answers_nothing answers offered w (snd (bc_channel E n w))"
      "answers_nothing answers offered w (bc_send_sample E tx sev w)"
      "answers_nothing answers offered w (snd (bc_subscribe E tx w))"
      "answers_nothing answers offered w (bc_drop E tx w)"

section \<open>A network of one node\<close>

text \<open>
  An instance for the witnesses: samples are kept in the order of the puts, publishers and receivers are
  numbered, and an event that is sent to a channel is offered to the receivers that subscribed to it.
\<close>

record loop_world =
  lw_next :: zref
  lw_samples :: "z_sample list"
  lw_publishers :: "(zref \<times> publisher_params) list"
  lw_receivers :: "(zref \<times> zref) list"
  lw_offered :: "(zref \<times> pb_SubscriberEvent) list"
  lw_queries :: "(zref \<times> pb_QueryableEvent) list"
  lw_answers :: "(zref \<times> z_answer) list"

definition loop_new :: loop_world where
  "loop_new = \<lparr>lw_next = 0, lw_samples = [], lw_publishers = [], lw_receivers = [], lw_offered = [],
     lw_queries = [], lw_answers = []\<rparr>"

definition fresh_ref :: "loop_world \<Rightarrow> zref \<times> loop_world" where
  "fresh_ref w = (lw_next w, w\<lparr>lw_next := Suc (lw_next w)\<rparr>)"

definition fresh_result :: "loop_world \<Rightarrow> zref zresult \<times> loop_world" where
  "fresh_result w = map_prod Inr id (fresh_ref w)"

definition loop_declared :: "zref \<Rightarrow> loop_world \<Rightarrow> publisher_params option" where
  "loop_declared p w = map_of (lw_publishers w) p"

definition loop_offered :: "zref \<Rightarrow> loop_world \<Rightarrow> pb_SubscriberEvent list" where
  "loop_offered r w = map snd (filter (\<lambda>x. fst x = r) (lw_offered w))"

definition loop_queries :: "zref \<Rightarrow> loop_world \<Rightarrow> pb_QueryableEvent list" where
  "loop_queries r w = map snd (filter (\<lambda>x. fst x = r) (lw_queries w))"

definition loop_to_receivers :: "zref \<Rightarrow> 'ev \<Rightarrow> loop_world \<Rightarrow> (zref \<times> 'ev) list" where
  "loop_to_receivers tx ev w = map (\<lambda>(rx, _). (rx, ev)) (filter (\<lambda>x. snd x = tx) (lw_receivers w))"

definition loop_answer :: "zref \<times> z_answer \<Rightarrow> loop_world \<Rightarrow> unit zresult \<times> loop_world" where
  "loop_answer a w = (Inr (), w\<lparr>lw_answers := lw_answers w @ [a]\<rparr>)"

definition loop_publish ::
  "zref \<Rightarrow> (publisher_params \<Rightarrow> z_sample) \<Rightarrow> loop_world \<Rightarrow> unit zresult \<times> loop_world" where
  "loop_publish p sample w =
     (case loop_declared p w of
        None \<Rightarrow> (Inl ''undeclared'', w)
      | Some P \<Rightarrow> (Inr (), w\<lparr>lw_samples := lw_samples w @ [sample P]\<rparr>))"

definition loop_env :: "loop_world env" where
  "loop_env =
     \<lparr>encoding_from = (\<lambda>s. s), encoding_to_string = (\<lambda>s. s), z_zid = (\<lambda>_. ''zid''),
      z_put = (\<lambda>p w. (Inr (), w)),
      z_delete = (\<lambda>p w. (Inr (), w)),
      z_get = (\<lambda>p. fresh_result),
      z_declare_publisher = (\<lambda>P w. (Inr (lw_next w),
        w\<lparr>lw_next := Suc (lw_next w), lw_publishers := (lw_next w, P) # lw_publishers w\<rparr>)),
      z_declare_subscriber = (\<lambda>k l n. fresh_result),
      z_declare_queryable = (\<lambda>k c l n. fresh_result),
      z_declare_querier = (\<lambda>p. fresh_result),
      z_publisher_put = (\<lambda>p b e a. loop_publish p (\<lambda>P.
        \<lparr>zs_key_expr = zpub_key_expr P, zs_payload = b, zs_encoding = unwrap_or e (zpub_encoding P),
         zs_kind = ZPut, zs_attachment = a, zs_timestamp = None\<rparr>)),
      z_publisher_delete = (\<lambda>p a. loop_publish p (\<lambda>P.
        \<lparr>zs_key_expr = zpub_key_expr P, zs_payload = [], zs_encoding = zpub_encoding P,
         zs_kind = ZDelete, zs_attachment = a, zs_timestamp = None\<rparr>)),
      z_querier_get = (\<lambda>r p v a. fresh_result),
      z_reply = (\<lambda>r k p e a. loop_answer (r, AnReply k p e a)),
      z_reply_err = (\<lambda>r p e. loop_answer (r, AnErr p e)),
      z_reply_del = (\<lambda>r k a. loop_answer (r, AnDelete k a)),
      z_undeclare = (\<lambda>r w. (Inr (), w)),
      z_drop = (\<lambda>r w. w),
      bc_channel = (\<lambda>n. fresh_ref),
      bc_send_sample = (\<lambda>tx ev w. w\<lparr>lw_offered := lw_offered w @ loop_to_receivers tx ev w\<rparr>),
      bc_send_query = (\<lambda>tx ev w. w\<lparr>lw_queries := lw_queries w @ loop_to_receivers tx ev w\<rparr>),
      bc_subscribe = (\<lambda>tx w. (lw_next w,
        w\<lparr>lw_next := Suc (lw_next w), lw_receivers := lw_receivers w @ [(lw_next w, tx)]\<rparr>)),
      bc_drop = (\<lambda>tx w. w)\<rparr>"

lemma loop_publishes:
  "(\<And>P. is_sample P (sample P)) \<Longrightarrow>
   publishes lw_samples loop_declared loop_offered p is_sample w (snd (loop_publish p sample w))"
  by (auto simp: publishes_def loop_publish_def loop_declared_def loop_offered_def split: option.splits)

interpretation loop: zenoh_delivery loop_env lw_samples loop_declared loop_offered
proof
  fix tx and ev and w :: loop_world
  show "lw_samples (bc_send_sample loop_env tx ev w) = lw_samples w
      \<and> (\<forall>p P. loop_declared p (bc_send_sample loop_env tx ev w) = Some P \<longrightarrow> loop_declared p w = Some P)
      \<and> (\<forall>r. set (loop_offered r (bc_send_sample loop_env tx ev w)) \<subseteq> insert ev (set (loop_offered r w)))"
    by (auto simp: loop_env_def loop_declared_def loop_offered_def loop_to_receivers_def)
qed (auto simp: loop_env_def fresh_ref_def fresh_result_def loop_answer_def silent_for_def loop_declared_def
    loop_offered_def put_sample_def delete_sample_def intro!: loop_publishes split: if_splits)

interpretation loop_qs: zenoh_queries loop_env lw_answers loop_queries
  by unfold_locales
    (auto simp: loop_env_def fresh_ref_def fresh_result_def loop_publish_def loop_answer_def loop_queries_def
      loop_to_receivers_def answers_nothing_def answers_once_def split: option.splits)

end
