(* ===== verification/Delivery_Server.thy ===== *)
theory Delivery_Server
  imports End_To_End Server_World Zenoh_Delivery
begin

text \<open>
  The plugin keeps data intact. \<open>world_ok\<close>: every sample that Zenoh has accepted and every event that a
  receiver has been offered shows one of the commands that were submitted. Every handler that a publisher, a
  subscriber or their sessions call, the tasks of the subscribers and the cleanup preserve it; the lemmas are
  proved from the laws of \<open>zenoh_delivery\<close>.
\<close>

section \<open>Data in transit\<close>

text \<open>The parameters that a publisher's arguments become, and the sample that a command should become.\<close>

definition publisher_params_of :: "'w env \<Rightarrow> DeclarePublisherArgs \<Rightarrow> publisher_params" where
  "publisher_params_of E args =
     \<lparr>zpub_key_expr = dpa_key_expr args, zpub_encoding = encoding_from E (dpa_encoding args),
      zpub_congestion_control = map_congestion_control (dpa_congestion_control args),
      zpub_priority = map_priority (dpa_priority args), zpub_express = dpa_express args,
      zpub_reliability = map_reliability (dpa_reliability args),
      zpub_allowed_destination = map_locality (dpa_allowed_destination args)\<rparr>"

fun carries :: "'w env \<Rightarrow> DeclarePublisherArgs \<Rightarrow> PublisherCommand \<Rightarrow> z_sample \<Rightarrow> bool" where
  "carries E args (PubPut a) z =
     put_sample (ppa_payload a) (opt_encoding E (ppa_encoding a)) (opt_attachment (ppa_attachment a))
       (publisher_params_of E args) z"
| "carries E args (PubDelete a) z =
     delete_sample (opt_attachment (pda_attachment a)) (publisher_params_of E args) z"

text \<open>What the application of the subscriber should see of a command, but for the time stamp.\<close>

fun shows_command :: "'w env \<Rightarrow> DeclarePublisherArgs \<Rightarrow> PublisherCommand \<Rightarrow> pb_Sample \<Rightarrow> bool" where
  "shows_command E args (PubPut a) x \<longleftrightarrow>
     smp_key_expr x = dpa_key_expr args \<and> smp_payload x = ppa_payload a \<and> smp_attachment x = ppa_attachment a
     \<and> smp_kind x = 1
     \<and> smp_encoding x = encoding_to_string E
         (encoding_from E (if ppa_encoding a \<noteq> [] then ppa_encoding a else dpa_encoding args))"
| "shows_command E args (PubDelete a) x \<longleftrightarrow>
     smp_key_expr x = dpa_key_expr args \<and> smp_payload x = [] \<and> smp_attachment x = pda_attachment a
     \<and> smp_kind x = 2"

definition event_shows :: "'w env \<Rightarrow> DeclarePublisherArgs \<Rightarrow> PublisherCommand \<Rightarrow> pb_SubscriberEvent \<Rightarrow> bool" where
  "event_shows E args cmd ev \<longleftrightarrow> (\<exists>x. sevt_sample ev = Some x \<and> shows_command E args cmd x)"

lemma unwrap_opt_attachment [simp]: "unwrap_or (opt_attachment b) [] = b"
  by (simp add: opt_attachment_def unwrap_or_def)

lemma carried_is_shown:
  "carries E args cmd z \<Longrightarrow> event_shows E args cmd \<lparr>sevt_sample = Some (encode_sample E z)\<rparr>"
  by (cases cmd) (auto simp: event_shows_def encode_sample_def put_sample_def delete_sample_def
      publisher_params_of_def sample_kind_def opt_encoding_def unwrap_or_def opt_attachment_def)

definition world_ok ::
  "'w env \<Rightarrow> ('w \<Rightarrow> z_sample list) \<Rightarrow> (zref \<Rightarrow> 'w \<Rightarrow> publisher_params option) \<Rightarrow>
   (zref \<Rightarrow> 'w \<Rightarrow> pb_SubscriberEvent list) \<Rightarrow> DeclarePublisherArgs \<Rightarrow> PublisherCommand set \<Rightarrow> 'w \<Rightarrow> bool" where
  "world_ok E samples declared offered args cmds w \<longleftrightarrow>
     (\<forall>p P. declared p w = Some P \<longrightarrow> P = publisher_params_of E args)
     \<and> (\<forall>z \<in> set (samples w). \<exists>cmd \<in> cmds. carries E args cmd z)
     \<and> (\<forall>r. \<forall>ev \<in> set (offered r w). \<exists>cmd \<in> cmds. event_shows E args cmd ev)"

section \<open>The plugin keeps data intact\<close>

text \<open>Events of the plugin that publish nothing, declare no publisher and send no event to a subscriber.\<close>

fun publishes_nothing :: "request \<Rightarrow> bool" where
  "publishes_nothing (Put r) = False"
| "publishes_nothing (Delete r) = False"
| "publishes_nothing (DeclarePublisher r) = False"
| "publishes_nothing (PublisherPut r) = False"
| "publishes_nothing (PublisherDelete r) = False"
| "publishes_nothing _ = True"

fun quiet :: "server_event \<Rightarrow> bool" where
  "quiet (Rpc now r) = publishes_nothing r"
| "quiet (Tick now) = True"
| "quiet (QueryArrived h ow tx z) = True"
| "quiet (SampleArrived tx z) = False"

context zenoh_delivery
begin

lemma silent_ok:
  "silent_for samples declared offered w w' \<Longrightarrow> world_ok E samples declared offered args cmds w \<Longrightarrow>
   world_ok E samples declared offered args cmds w'"
  by (fastforce simp: silent_for_def world_ok_def)

lemmas laws_ok = quiet_calls [THEN silent_ok]

end

sublocale zenoh_delivery \<subseteq> kept: kept_world E "world_ok E samples declared offered args cmds" for args cmds
  by unfold_locales (simp_all add: laws_ok)

context zenoh_delivery
begin

lemma declare_ok:
  "world_ok E samples declared offered args cmds w \<Longrightarrow>
   world_ok E samples declared offered args cmds (snd (z_declare_publisher E (publisher_params_of E args) w))"
  using declare_law [of "publisher_params_of E args" w] by (fastforce simp: world_ok_def)

lemma published_ok:
  assumes "publishes samples declared offered p is_sample w w'" and "world_ok E samples declared offered args cmds w"
    and "\<And>z. is_sample (publisher_params_of E args) z \<Longrightarrow> \<exists>cmd \<in> cmds. carries E args cmd z"
  shows "world_ok E samples declared offered args cmds w'"
proof -
  from assms(1) have keep: "\<And>p P. declared p w' = Some P \<Longrightarrow> declared p w = Some P"
    "\<And>r. set (offered r w') \<subseteq> set (offered r w)" by (auto simp: publishes_def)
  have "\<exists>cmd \<in> cmds. carries E args cmd z" if "z \<in> set (samples w')" for z
  proof (cases "z \<in> set (samples w)")
    case True
    with assms(2) show ?thesis by (simp add: world_ok_def)
  next
    case False
    with that assms(1) obtain P where "declared p w = Some P" "is_sample P z"
      by (auto simp: publishes_def)
    with assms(2,3) show ?thesis by (auto simp: world_ok_def)
  qed
  with keep assms(2) show ?thesis unfolding world_ok_def by blast
qed

lemma send_ok:
  assumes "world_ok E samples declared offered args cmds w" and "\<exists>cmd \<in> cmds. event_shows E args cmd ev"
  shows "world_ok E samples declared offered args cmds (bc_send_sample E tx ev w)"
  using assms send_law [of tx ev w] unfolding world_ok_def by (metis insertE subsetD)

lemma awaited_ok:
  "world_ok E samples declared offered args cmds (snd rw) \<Longrightarrow>
   world_ok E samples declared offered args cmds (session (snd (awaited rw s)))"
  by (simp add: awaited_def)

lemma request_ok:
  assumes "publishes_nothing r" and "world_ok E samples declared offered args cmds (session s)"
  shows "world_ok E samples declared offered args cmds (session (snd (handle_request E now r s)))"
  using assms
  by (cases r) (simp_all add: handlers respond_def Let_def case_prod_beta alloc_handle_def awaited_def laws_ok
      kept.released_kept kept.inserted_kept kept.retained_kept kept.cleanup_kept split: option.split sum.split)

lemma dispatch_quiet:
  assumes "world_ok E samples declared offered args cmds (session s)"
  shows "world_ok E samples declared offered args cmds (session (queryable_dispatch E h ow tx z s))"
  using assms
  by (simp add: queryable_dispatch_def dispatch_store_def dispatch_send_def alloc_query_id_def Let_def laws_ok
      kept.replaced_kept kept.released_kept split: option.split)

lemma quiet_ok:
  assumes "quiet ev" and "world_ok E samples declared offered args cmds (session s)"
  shows "world_ok E samples declared offered args cmds (session (server_step E ev s))"
  using assms by (cases ev) (simp_all add: request_ok dispatch_quiet kept.tick_kept)

lemma declare_publisher_ok:
  assumes "world_ok E samples declared offered args cmds (session s)"
  shows "world_ok E samples declared offered args cmds
    (session (snd (handle_request E now (DeclarePublisher (declare_publisher_request cid args)) s)))"
  using declare_ok [OF assms]
  by (auto simp: respond_def declare_publisher_def declare_publisher_request_def Let_def case_prod_beta awaited_def
      alloc_handle_def insert_publisher_def replaced_def drop_publisher_def publisher_params_of_def [symmetric]
      split: option.splits sum.splits intro!: laws_ok)

lemma command_ok:
  assumes "world_ok E samples declared offered args cmds (session s)" and "cmd \<in> cmds"
  shows "world_ok E samples declared offered args cmds
    (session (snd (handle_request E now (publisher_request cid h cmd) s)))"
proof (cases cmd)
  case (PubPut a)
  have "\<exists>cmd \<in> cmds. carries E args cmd z"
    if "put_sample (ppa_payload a) (opt_encoding E (ppa_encoding a)) (opt_attachment (ppa_attachment a))
      (publisher_params_of E args) z" for z
    using that assms(2) PubPut by (intro bexI [of _ cmd]) simp_all
  from published_ok [OF put_law assms(1) this] PubPut assms(1) show ?thesis
    by (auto simp: respond_def publisher_put_def publisher_put_request_def Let_def awaited_def
        split: option.splits sum.splits)
next
  case (PubDelete a)
  have "\<exists>cmd \<in> cmds. carries E args cmd z"
    if "delete_sample (opt_attachment (pda_attachment a)) (publisher_params_of E args) z" for z
    using that assms(2) PubDelete by (intro bexI [of _ cmd]) simp_all
  from published_ok [OF delete_law assms(1) this] PubDelete assms(1) show ?thesis
    by (auto simp: respond_def publisher_delete_def publisher_delete_request_def Let_def awaited_def
        split: option.splits sum.splits)
qed

lemma forward_ok:
  assumes "world_ok E samples declared offered args cmds (session s)" and "z \<in> set (samples (session s))"
  shows "world_ok E samples declared offered args cmds (session (subscriber_forward E tx z s))"
proof -
  from assms obtain cmd where "cmd \<in> cmds" "carries E args cmd z" by (auto simp: world_ok_def)
  then show ?thesis
    unfolding subscriber_forward_def using assms(1) by (auto intro!: send_ok carried_is_shown)
qed

end

end
