(* ===== verification/Network.thy ===== *)
theory Network
  imports End_To_End
begin

text \<open>
  The network between a client and the plugin, as the composed systems of the next theories use it: what
  becomes of a request, and what arrives next on an open stream of events.
\<close>

text \<open>
  What the network does with a request: it arrives and is answered, it is lost, or it arrives and the answer
  is lost; in the last two cases the client sees the status \<open>st\<close>.
\<close>

datatype network = Answered | Lost status | AnswerLost status

fun deliver ::
  "'w env \<Rightarrow> instant \<Rightarrow> network \<Rightarrow> request \<Rightarrow> 'w PluginState \<Rightarrow> response rpc_result \<times> 'w PluginState" where
  "deliver E now Answered r s = handle_request E now r s"
| "deliver E now (Lost st) r s = (Inl st, s)"
| "deliver E now (AnswerLost st) r s = (Inl st, snd (handle_request E now r s))"

fun as_stream :: "response rpc_result \<Rightarrow> zref option" where
  "as_stream (Inr (R_Stream r)) = Some r"
| "as_stream _ = None"

text \<open>The next message of the open stream: the event after \<open>n\<close> lost ones, its end, or an error.\<close>

datatype stream_item = NextEvent nat | StreamEnd | StreamError status

text \<open>A stream is a broadcast receiver, with the events \<open>offered\<close> to it, and the number of events read from it.\<close>

definition stream_message ::
  "(zref \<Rightarrow> 'ev list) \<Rightarrow> stream_item \<Rightarrow> (zref \<times> nat) option \<Rightarrow> ('ev message \<times> (zref \<times> nat) option) option" where
  "stream_message offered item stream =
     (case item of
        StreamEnd \<Rightarrow> Some (MsgEnd, None)
      | StreamError st \<Rightarrow> Some (MsgErr st, None)
      | NextEvent n \<Rightarrow>
          (case stream of
             None \<Rightarrow> None
           | Some (r, k) \<Rightarrow>
               if k + n < length (offered r)
               then Some (MsgItem (offered r ! (k + n)), Some (r, Suc (k + n))) else None))"

lemma stream_message_offered:
  "stream_message offered item stream = Some (MsgItem ev, stream') \<Longrightarrow> \<exists>r. ev \<in> set (offered r)"
  by (auto simp: stream_message_def intro!: exI nth_mem split: stream_item.splits option.splits if_splits)

text \<open>The state in which an event worker waits for the next message of its stream.\<close>

definition reading :: "('ch, 'c, 'z) event_sys_scheme \<Rightarrow> bool" where
  "reading B = (case ev_worker B of EwReading g h e \<Rightarrow> \<not> e < ev_close_epoch B | _ \<Rightarrow> False)"

section \<open>Runs and logs\<close>

lemma subseq_set: "subseq xs ys \<Longrightarrow> set xs \<subseteq> set ys"
  by (induction rule: list_emb.induct) auto

lemma run_log_append:
  "run_log step obs (is @ js) s = run_log step obs is s @ run_log step obs js (run_steps step is s)"
  by (induction "is" arbitrary: s) simp_all

end
