(* ===== verification/Delivery.thy ===== *)
theory Delivery
  imports Delivery_Server Network
begin

text \<open>
  Data from one application to another: a publisher of the client core, the plugin, Zenoh, and a
  subscriber of the client core in another session. The machine \<open>pubsub_step\<close> lets one of them move; the
  network may lose a request or its answer, a stream may lose events or break, and Zenoh may hand a sample to
  the plugin's tasks when it likes.

  What is assumed of Zenoh and of tokio's broadcast channels is the locale of \<open>Zenoh_Delivery\<close>; the run at the
  end is the program \<^verbatim>\<open>examples/pub_sub.rs\<close> on its one-node instance.
\<close>

section \<open>The composed system\<close>

record ('ch, 'c, 'd, 'w) pubsub =
  pbs_publisher :: "('ch, 'c) publisher_sys"
  pbs_subscriber :: "('ch, 'd) subscriber_sys"
  pbs_server :: "'w PluginState"
  pbs_stream :: "(zref \<times> nat) option"

definition pubsub_publisher_step ::
  "('c, PublisherCommand) flume \<Rightarrow> 'w env \<Rightarrow> bool \<Rightarrow> instant \<Rightarrow> network \<Rightarrow> ('ch, 'c, 'd, 'w) pubsub \<Rightarrow>
   ('ch, 'c, 'd, 'w) pubsub option" where
  "pubsub_publisher_step G E pick now net W =
     (case publisher_call (pbs_publisher W) of
        None \<Rightarrow> map_option (\<lambda>P. W\<lparr>pbs_publisher := P\<rparr>) (publisher_worker_step G pick (Inr 0) (Inr ()) (pbs_publisher W))
      | Some (c, r) \<Rightarrow>
          (case deliver E now net r (pbs_server W) of (a, s) \<Rightarrow>
             map_option (\<lambda>P. W\<lparr>pbs_publisher := P, pbs_server := s\<rparr>)
               (publisher_worker_step G pick (as_handle a) (as_unit a) (pbs_publisher W))))"

definition pubsub_subscriber_step ::
  "('d, pb_SubscriberEvent) flume \<Rightarrow> 'w env \<Rightarrow> (zref \<Rightarrow> 'w \<Rightarrow> pb_SubscriberEvent list) \<Rightarrow> bool \<Rightarrow> instant \<Rightarrow>
   network \<Rightarrow> stream_item \<Rightarrow> ('ch, 'c, 'd, 'w) pubsub \<Rightarrow> ('ch, 'c, 'd, 'w) pubsub option" where
  "pubsub_subscriber_step F E offered pick now net item W =
     (case subscriber_call (pbs_subscriber W) of
        Some (c, r) \<Rightarrow>
          (case deliver E now net r (pbs_server W) of (a, s) \<Rightarrow>
             map_option (\<lambda>B. W\<lparr>pbs_subscriber := B, pbs_server := s, pbs_stream := map_option (\<lambda>r. (r, 0)) (as_stream a)\<rparr>)
               (subscriber_event_step F pick (as_handle a) (as_unit a) MsgEnd (pbs_subscriber W)))
      | None \<Rightarrow>
          if reading (pbs_subscriber W)
          then (case stream_message (\<lambda>r. offered r (session (pbs_server W))) item (pbs_stream W) of
                  None \<Rightarrow> None
                | Some (msg, stream) \<Rightarrow>
                    map_option (\<lambda>B. W\<lparr>pbs_subscriber := B, pbs_stream := stream\<rparr>)
                      (subscriber_event_step F pick (Inr 0) (Inr ()) msg (pbs_subscriber W)))
          else map_option (\<lambda>B. W\<lparr>pbs_subscriber := B\<rparr>)
                 (subscriber_event_step F pick (Inr 0) (Inr ()) MsgEnd (pbs_subscriber W)))"

text \<open>
  What may happen: the applications call their objects or change their sessions (\<open>PubDo\<close>, \<open>SubDo\<close>), the workers
  move, Zenoh hands its sample number \<open>n\<close> to the task with the sender \<open>tx\<close>, and the plugin handles anything
  that publishes nothing: requests of any client, queries, ticks of the cleanup task.
\<close>

datatype 'ch pubsub_input =
    PubDo "'ch publisher_input"
  | PubWorker bool instant network
  | SubDo "'ch subscriber_input"
  | SubWorker bool instant network stream_item
  | ZenohDelivers zref nat
  | PluginHandles server_event

fun pubsub_step ::
  "('d, pb_SubscriberEvent) flume \<Rightarrow> ('c, PublisherCommand) flume \<Rightarrow> 'w env \<Rightarrow> ('w \<Rightarrow> z_sample list) \<Rightarrow>
   (zref \<Rightarrow> 'w \<Rightarrow> pb_SubscriberEvent list) \<Rightarrow> 'ch pubsub_input \<Rightarrow> ('ch, 'c, 'd, 'w) pubsub \<Rightarrow>
   ('ch, 'c, 'd, 'w) pubsub option" where
  "pubsub_step F G E samples offered (PubDo i) W =
     (case i of
        PiWorker _ _ _ \<Rightarrow> None
      | _ \<Rightarrow> map_option (\<lambda>P. W\<lparr>pbs_publisher := P\<rparr>) (publisher_step G i (pbs_publisher W)))"
| "pubsub_step F G E samples offered (PubWorker pick now net) W = pubsub_publisher_step G E pick now net W"
| "pubsub_step F G E samples offered (SubDo i) W =
     (case i of
        UiWorker _ _ _ _ \<Rightarrow> None
      | _ \<Rightarrow> map_option (\<lambda>B. W\<lparr>pbs_subscriber := B\<rparr>) (subscriber_step F i (pbs_subscriber W)))"
| "pubsub_step F G E samples offered (SubWorker pick now net item) W =
     pubsub_subscriber_step F E offered pick now net item W"
| "pubsub_step F G E samples offered (ZenohDelivers tx n) W =
     (let s = pbs_server W; zs = samples (session s) in
      if n < length zs then Some (W\<lparr>pbs_server := subscriber_forward E tx (zs ! n) s\<rparr>) else None)"
| "pubsub_step F G E samples offered (PluginHandles ev) W =
     (if quiet ev then Some (W\<lparr>pbs_server := server_step E ev (pbs_server W)\<rparr>) else None)"

definition pubsub_start ::
  "('d, pb_SubscriberEvent) flume \<Rightarrow> ('c, PublisherCommand) flume \<Rightarrow> DeclarePublisherArgs \<Rightarrow> DeclareSubscriberArgs \<Rightarrow>
   bool \<Rightarrow> 'ch Inner \<Rightarrow> 'ch Inner \<Rightarrow> 'w PluginState \<Rightarrow> ('ch, 'c, 'd, 'w) pubsub" where
  "pubsub_start F G pargs sargs has_callback s1 s2 server =
     \<lparr>pbs_publisher = GrpcSession_declare_publisher G pargs s1,
      pbs_subscriber = GrpcSession_declare_subscriber F sargs has_callback s2,
      pbs_server = server, pbs_stream = None\<rparr>"

text \<open>What the publishing application submits, and what the other one gets.\<close>

fun commands_of :: "'ch pubsub_input \<Rightarrow> PublisherCommand list" where
  "commands_of (PubDo (PiPut a)) = [PubPut a]"
| "commands_of (PubDo (PiDelete a)) = [PubDelete a]"
| "commands_of _ = []"

fun delivered ::
  "('d, pb_SubscriberEvent) flume \<Rightarrow> 'ch pubsub_input \<Rightarrow> ('ch, 'c, 'd, 'w) pubsub \<Rightarrow> pb_SubscriberEvent list" where
  "delivered F (SubDo i) W = subscriber_received F i (pbs_subscriber W)"
| "delivered F _ W = []"

section \<open>Nothing is altered or made up\<close>

lemma publisher_args_worker: "publisher_worker_step G pick ha a S = Some S' \<Longrightarrow> pub_args (ps_inner S') = pub_args (ps_inner S)"
  by (cases "ps_worker S") (auto simp: publisher_steps Let_def
      split: option.splits sum.splits if_splits wait_result.splits)

lemma publisher_args_step: "publisher_step G i S = Some S' \<Longrightarrow> pub_args (ps_inner S') = pub_args (ps_inner S)"
  by (cases i) (auto simp: GrpcPublisher_put_def GrpcPublisher_delete_def publisher_undeclare_step_def set_pub_binding_def
      dest: publisher_args_worker split: undeclare_pc.splits if_splits)

lemma publisher_call_request:
  assumes "publisher_call S = Some (c, r)"
  obtains "r = DeclarePublisher (declare_publisher_request (client_id (ps_session S)) (pub_args (ps_inner S)))"
  | h cmd where "r = publisher_request (client_id (ps_session S)) h cmd" "publisher_current (ps_worker S) = Some cmd"
  using assms by (auto simp: publisher_call_def Let_def split: publisher_pc.splits)

lemma subscriber_call_quiet: "subscriber_call B = Some (c, r) \<Longrightarrow> publishes_nothing r"
  by (auto simp: subscriber_call_def Let_def split: event_pc.splits)

locale pubsub_channels =
  evs: subscriber_channel F ev_contents ev_capacity ev_receivers ev_senders +
  cmds: publisher_channel G contents capacity receivers senders +
  zenoh_delivery E samples declared offered
  for F :: "('d, pb_SubscriberEvent) flume" and ev_contents and ev_capacity and ev_receivers and ev_senders
    and G :: "('c, PublisherCommand) flume" and contents and capacity and receivers and senders
    and E :: "'w env" and samples and declared and offered
begin

text \<open>The invariant, for the commands \<open>C\<close> that are submitted at any time.\<close>

definition intact :: "DeclarePublisherArgs \<Rightarrow> PublisherCommand set \<Rightarrow> ('ch, 'c, 'd, 'w) pubsub \<Rightarrow> bool" where
  "intact args C W \<longleftrightarrow>
     world_ok E samples declared offered args C (session (pbs_server W))
     \<and> pub_args (ps_inner (pbs_publisher W)) = args
     \<and> cmds.queue_ok SEND_QUEUE_CAPACITY (ps_queue (pbs_publisher W))
     \<and> set (held (publisher_current (ps_worker (pbs_publisher W))) @ contents (chan (ps_queue (pbs_publisher W)))) \<subseteq> C
     \<and> evs.events_ok (ev_queue (pbs_subscriber W)) (ev_sender (pbs_subscriber W))
     \<and> (\<forall>ev \<in> set (ev_contents (chan (ev_queue (pbs_subscriber W)))). \<exists>cmd \<in> C. event_shows E args cmd ev)"

lemma deliver_keeps:
  assumes "world_ok E samples declared offered args C (session s)"
    and "\<And>now. world_ok E samples declared offered args C (session (snd (handle_request E now r s)))"
  shows "world_ok E samples declared offered args C (session (snd (deliver E now net r s)))"
  using assms by (cases net) simp_all

lemma publisher_side:
  assumes "publisher_step G i P = Some P'" and "cmds.queue_ok SEND_QUEUE_CAPACITY (ps_queue P)"
    and "set (held (publisher_current (ps_worker P)) @ contents (chan (ps_queue P))) \<subseteq> C"
    and "set (publisher_submitted i P) \<subseteq> C"
  shows "cmds.queue_ok SEND_QUEUE_CAPACITY (ps_queue P')
    \<and> set (held (publisher_current (ps_worker P')) @ contents (chan (ps_queue P'))) \<subseteq> C"
proof -
  from subseq_set [OF cmds.pw.step_order [OF assms(2,1)]]
  have "set (held (publisher_current (ps_worker P')) @ contents (chan (ps_queue P'))) \<subseteq>
      set (held (publisher_current (ps_worker P)) @ contents (chan (ps_queue P)) @ publisher_submitted i P)"
    by simp
  with assms(3,4) cmds.pw.step_ok [OF assms(2,1)] show ?thesis by auto
qed

lemma subscriber_side:
  assumes "subscriber_step F i B = Some B'" and "evs.events_ok (ev_queue B) (ev_sender B)"
  shows "evs.events_ok (ev_queue B') (ev_sender B')
    \<and> set (subscriber_received F i B) \<subseteq> set (ev_contents (chan (ev_queue B))) \<union> set (subscriber_streamed i B)
    \<and> set (ev_contents (chan (ev_queue B'))) \<subseteq> set (ev_contents (chan (ev_queue B))) \<union> set (subscriber_streamed i B)"
  using evs.sub.step_ok [OF assms(2,1)] subseq_set [OF evs.sub.step_pipe [OF assms(2,1)]] by simp


lemma intact_step:
  assumes "pubsub_step F G E samples offered i W = Some W'" and "intact args C W" and "set (commands_of i) \<subseteq> C"
  shows "intact args C W'"
    and "\<forall>ev \<in> set (delivered F i W). \<exists>cmd \<in> C. event_shows E args cmd ev"
proof -
  let ?P = "pbs_publisher W" and ?B = "pbs_subscriber W" and ?s = "pbs_server W"
  from assms(2) have inv: "world_ok E samples declared offered args C (session ?s)" "pub_args (ps_inner ?P) = args"
    "cmds.queue_ok SEND_QUEUE_CAPACITY (ps_queue ?P)"
    "set (held (publisher_current (ps_worker ?P)) @ contents (chan (ps_queue ?P))) \<subseteq> C"
    "evs.events_ok (ev_queue ?B) (ev_sender ?B)"
    "\<forall>ev \<in> set (ev_contents (chan (ev_queue ?B))). \<exists>cmd \<in> C. event_shows E args cmd ev"
    unfolding intact_def by blast+
  have pub: "intact args C (W\<lparr>pbs_publisher := P, pbs_server := s\<rparr>)"
    if "publisher_step G j ?P = Some P" "set (publisher_submitted j ?P) \<subseteq> C"
      "world_ok E samples declared offered args C (session s)" for j P s
    using publisher_side [OF that(1) inv(3,4) that(2)] publisher_args_step [OF that(1)] inv that(3)
    unfolding intact_def by simp
  have sub: "intact args C (W\<lparr>pbs_subscriber := B, pbs_server := s, pbs_stream := st\<rparr>)"
    if "subscriber_step F j ?B = Some B" "\<forall>ev \<in> set (subscriber_streamed j ?B). \<exists>cmd \<in> C. event_shows E args cmd ev"
      "world_ok E samples declared offered args C (session s)" for j B s st
    using subscriber_side [OF that(1) inv(5)] that inv unfolding intact_def by (simp add: ball_Un subset_iff) blast
  show "intact args C W'"
  proof (cases i)
    case (PubDo j)
    with assms(1) obtain P where P: "publisher_step G j ?P = Some P" "W' = W\<lparr>pbs_publisher := P, pbs_server := ?s\<rparr>"
      "\<forall>p ha a. j \<noteq> PiWorker p ha a" by (auto split: publisher_input.splits)
    have "set (publisher_submitted j ?P) \<subseteq> C" using assms(3) PubDo P(3) by (cases j) auto
    from pub [OF P(1) this inv(1)] P(2) show ?thesis by simp
  next
    case (PubWorker pick now net)
    note step = assms(1) [unfolded PubWorker pubsub_step.simps pubsub_publisher_step_def]
    show ?thesis
    proof (cases "publisher_call ?P")
      case None
      with step obtain P where P: "publisher_step G (PiWorker pick (Inr 0) (Inr ())) ?P = Some P"
        "W' = W\<lparr>pbs_publisher := P, pbs_server := ?s\<rparr>" by auto
      from pub [OF P(1) _ inv(1)] P(2) show ?thesis by simp
    next
      case (Some cr)
      then obtain c r where cr: "publisher_call ?P = Some (c, r)" by (cases cr) auto
      with step obtain a s P where P: "deliver E now net r ?s = (a, s)" "W' = W\<lparr>pbs_publisher := P, pbs_server := s\<rparr>"
        "publisher_step G (PiWorker pick (as_handle a) (as_unit a)) ?P = Some P" by (auto split: prod.splits)
      have "world_ok E samples declared offered args C (session (snd (handle_request E n r ?s)))" for n
        using publisher_call_request [OF cr]
      proof cases
        case 1
        with declare_publisher_ok [OF inv(1)] inv(2) show ?thesis by simp
      next
        case (2 h cmd)
        with inv(4) have "cmd \<in> C" by simp
        with command_ok [OF inv(1)] 2 show ?thesis by simp
      qed
      with deliver_keeps [OF inv(1), of r now net] P(1) have "world_ok E samples declared offered args C (session s)" by simp
      from pub [OF P(3) _ this] P(2) show ?thesis by simp
    qed
  next
    case (SubDo j)
    with assms(1) obtain B where B: "subscriber_step F j ?B = Some B"
      "W' = W\<lparr>pbs_subscriber := B, pbs_server := ?s, pbs_stream := pbs_stream W\<rparr>" "\<forall>p ha oa m. j \<noteq> UiWorker p ha oa m"
      by (auto split: subscriber_input.splits)
    have "subscriber_streamed j ?B = []" using B(3) by (cases j) auto
    with sub [OF B(1) _ inv(1), of "pbs_stream W"] B(2) show ?thesis by simp
  next
    case (SubWorker pick now net item)
    note step = assms(1) [unfolded SubWorker pubsub_step.simps pubsub_subscriber_step_def]
    show ?thesis
    proof (cases "subscriber_call ?B")
      case (Some cr)
      then obtain c r where cr: "subscriber_call ?B = Some (c, r)" by (cases cr) auto
      with step obtain a s B where B: "deliver E now net r ?s = (a, s)"
        "W' = W\<lparr>pbs_subscriber := B, pbs_server := s, pbs_stream := map_option (\<lambda>r. (r, 0)) (as_stream a)\<rparr>"
        "subscriber_step F (UiWorker pick (as_handle a) (as_unit a) MsgEnd) ?B = Some B" by (auto split: prod.splits)
      from deliver_keeps [OF inv(1) request_ok [OF subscriber_call_quiet [OF cr] inv(1)], of now net] B(1)
      have "world_ok E samples declared offered args C (session s)" by simp
      from sub [OF B(3) _ this] B(2) show ?thesis by simp
    next
      case None
      show ?thesis
      proof (cases "reading ?B")
        case True
        with None step obtain msg st B where B:
          "stream_message (\<lambda>r. offered r (session ?s)) item (pbs_stream W) = Some (msg, st)"
          "W' = W\<lparr>pbs_subscriber := B, pbs_server := ?s, pbs_stream := st\<rparr>"
          "subscriber_step F (UiWorker pick (Inr 0) (Inr ()) msg) ?B = Some B" by (auto split: option.splits prod.splits)
        have "\<exists>cmd \<in> C. event_shows E args cmd ev" if "msg = MsgItem ev" for ev
        proof -
          from B(1) that obtain r where "ev \<in> set (offered r (session ?s))"
            by (auto dest: stream_message_offered)
          with inv(1) show ?thesis by (auto simp: world_ok_def)
        qed
        then have "\<forall>ev \<in> set (subscriber_streamed (UiWorker pick (Inr 0) (Inr ()) msg) ?B). \<exists>cmd \<in> C. event_shows E args cmd ev"
          by (cases msg) (auto split: event_pc.splits)
        from sub [OF B(3) this inv(1)] B(2) show ?thesis by simp
      next
        case False
        with None step obtain B where B: "W' = W\<lparr>pbs_subscriber := B, pbs_server := ?s, pbs_stream := pbs_stream W\<rparr>"
          "subscriber_step F (UiWorker pick (Inr 0) (Inr ()) MsgEnd) ?B = Some B" by auto
        from sub [OF B(2) _ inv(1), of "pbs_stream W"] B(1) show ?thesis by simp
      qed
    qed
  next
    case (ZenohDelivers tx n)
    with assms(1) inv forward_ok [OF inv(1), of "samples (session ?s) ! n" tx] show ?thesis
      by (auto simp: intact_def Let_def split: if_splits)
  next
    case (PluginHandles ev)
    with assms(1) inv quiet_ok [OF _ inv(1), of ev] show ?thesis by (auto simp: intact_def split: if_splits)
  qed
  show "\<forall>ev \<in> set (delivered F i W). \<exists>cmd \<in> C. event_shows E args cmd ev"
  proof (cases i)
    case (SubDo j)
    with assms(1) obtain B where B: "subscriber_step F j ?B = Some B" "\<forall>p ha oa m. j \<noteq> UiWorker p ha oa m"
      by (auto split: subscriber_input.splits)
    have "subscriber_streamed j ?B = []" using B(2) by (cases j) auto
    with subscriber_side [OF B(1) inv(5)] inv(6) SubDo show ?thesis by auto
  qed simp_all
qed

lemma intact_run:
  assumes "intact args C W" and "\<forall>i \<in> set is. set (commands_of i) \<subseteq> C"
  shows "\<forall>ev \<in> set (run_log (pubsub_step F G E samples offered) (delivered F) is W). \<exists>cmd \<in> C. event_shows E args cmd ev"
  using assms
proof (induction "is" arbitrary: W)
  case (Cons i "is")
  show ?case
  proof (cases "pubsub_step F G E samples offered i W")
    case None
    with Cons show ?thesis by (simp add: step_or_stay_def)
  next
    case (Some W')
    from intact_step [OF Some Cons.prems(1)] Cons.prems(2) Cons.IH [of W'] Some show ?thesis
      by (auto simp: step_or_stay_def)
  qed
qed simp

lemma intact_start:
  assumes "samples w = []" and "\<forall>p. declared p w = None" and "\<forall>r. offered r w = []" and "session server = w"
  shows "intact pargs C (pubsub_start F G pargs sargs cb s1 s2 server)"
proof -
  have "cmds.queue_ok SEND_QUEUE_CAPACITY (ps_queue (GrpcSession_declare_publisher G pargs s1))
      \<and> contents (chan (ps_queue (GrpcSession_declare_publisher G pargs s1))) = []
      \<and> publisher_current (ps_worker (GrpcSession_declare_publisher G pargs s1)) = None
      \<and> pub_args (ps_inner (GrpcSession_declare_publisher G pargs s1)) = pargs"
    using cmds.bounded_new cmds.queue_ok_new [of SEND_QUEUE_CAPACITY]
    by (simp add: GrpcSession_declare_publisher_def Let_def case_prod_beta bounded_drop_oldest_def SEND_QUEUE_CAPACITY_def)
  with evs.fresh_subscriber [OF refl, of sargs cb s2] assms show ?thesis
    by (simp add: intact_def pubsub_start_def world_ok_def)
qed

end


section \<open>A lost answer\<close>

lemmas pubsub_publisher_steps = pubsub_publisher_step_def publisher_call_def publisher_steps Let_def
  publisher_is_closed_def wait_step_def ensure_start_def step_or_stay_def

lemma lost_answer_step:
  assumes "ps_worker (pbs_publisher W) = PwCalling cmd c g h" and "is_disconnect_status st"
  shows "pubsub_publisher_step G E pick now (AnswerLost st) W =
    Some (W\<lparr>pbs_publisher := (pbs_publisher W)
              \<lparr>ps_session := mark_disconnected g (ps_session (pbs_publisher W)), ps_worker := PwHead cmd\<rparr>,
           pbs_server := snd (handle_request E now
             (publisher_request (client_id (ps_session (pbs_publisher W))) h cmd) (pbs_server W))\<rparr>)"
  using assms by (simp add: pubsub_publisher_steps as_unit_def)

lemma answered_step:
  assumes "ps_worker (pbs_publisher W) = PwCalling cmd c g h"
    and "handle_request E now (publisher_request (client_id (ps_session (pbs_publisher W))) h cmd) (pbs_server W) =
      (Inr r, s)"
  shows "pubsub_publisher_step G E pick now Answered W =
    Some (W\<lparr>pbs_publisher := publisher_processed (pbs_publisher W), pbs_server := s\<rparr>)"
  using assms by (simp add: pubsub_publisher_steps as_unit_def)

text \<open>From the top of the worker's loop to the call, when the publisher is bound and connected.\<close>

lemma head_to_calling:
  assumes "ps_worker (pbs_publisher W) = PwHead cmd" and "\<not> publisher_is_closed (pbs_publisher W)"
    and "current_connection (ps_session (pbs_publisher W)) = Some (c, g)"
    and "pub_binding (ps_inner (pbs_publisher W)) = \<lparr>b_handle = Some h, b_generation = b, b_locked = False\<rparr>"
  shows "run_steps (pubsub_step F G E samples offered) (map (\<lambda>t. PubWorker False t Answered) [t1, t2, t3, t4]) W =
    W\<lparr>pbs_publisher := (pbs_publisher W)\<lparr>ps_worker := PwCalling cmd c g h\<rparr>\<rparr>"
  using assms by (simp add: pubsub_publisher_steps)

text \<open>The call of Zenoh that a \<^verbatim>\<open>put\<close> with the arguments \<open>a\<close> becomes.\<close>

definition zenoh_put :: "'w env \<Rightarrow> PublisherEntry \<Rightarrow> PublisherPutArgs \<Rightarrow> 'w \<Rightarrow> unit zresult \<times> 'w" where
  "zenoh_put E e a w = z_publisher_put E (pub_publisher e) (ppa_payload a) (opt_encoding E (ppa_encoding a))
     (opt_attachment (ppa_attachment a)) w"

lemma put_of_bound:
  assumes "hm_get (publishers s) h = Some e" and "pub_owner e = cid" and "fst (zenoh_put E e a (session s)) = Inr ()"
  shows "handle_request E now (publisher_request cid h (PubPut a)) s =
    (Inr R_Empty, (touch_client now cid s)\<lparr>session := snd (zenoh_put E e a (session s))\<rparr>)"
  using assms by (cases "zenoh_put E e a (session s)")
    (simp add: respond_def publisher_put_def publisher_put_request_def Let_def awaited_def touch_client_def zenoh_put_def)

text \<open>
  C33: a command whose answer is lost is sent again. Suppose the worker is sending a \<^verbatim>\<open>put\<close> with a handle that
  the plugin knows as this client's, Zenoh accepts every put of that publisher, the request is handled but
  its answer is lost with a disconnect status, and the session then finds the plugin again. With the plugin
  unchanged in between, Zenoh is given the same payload, encoding and attachment twice, and the worker counts
  one command as processed: delivery is at least once, not at most once.
\<close>

theorem lost_answer_duplicates:
  assumes "ps_worker (pbs_publisher W) = PwCalling (PubPut a) c g h"
    and "hm_get (publishers (pbs_server W)) h = Some e"
    and "pub_owner e = client_id (ps_session (pbs_publisher W))"
    and "pub_binding (ps_inner (pbs_publisher W)) = \<lparr>b_handle = Some h, b_generation = b, b_locked = False\<rparr>"
    and "is_disconnect_status st"
    and "current_connection s' = Some (c', g')" and "client_id s' = client_id (ps_session (pbs_publisher W))"
    and "\<not> publisher_is_closed ((pbs_publisher W)\<lparr>ps_session := s'\<rparr>)"
    and "fst (zenoh_put E e a (session (pbs_server W))) = Inr ()"
    and "fst (zenoh_put E e a (snd (zenoh_put E e a (session (pbs_server W))))) = Inr ()"
  shows "\<exists>W'. run_steps (pubsub_step F G E samples offered)
      (PubWorker False ta (AnswerLost st) # PubDo (PiSession s')
        # map (\<lambda>t. PubWorker False t Answered) [tb, tc, td, te] @ [PubWorker False tf Answered]) W = W'
    \<and> session (pbs_server W') = snd (zenoh_put E e a (snd (zenoh_put E e a (session (pbs_server W)))))
    \<and> ps_worker (pbs_publisher W') = PwRecv
    \<and> ps_queue (pbs_publisher W') = processed_one (ps_queue (pbs_publisher W))"
proof -
  let ?cid = "client_id (ps_session (pbs_publisher W))"
  let ?put = "\<lambda>w. snd (zenoh_put E e a w)"
  let ?step = "pubsub_step F G E samples offered"
  define s1 where "s1 = snd (handle_request E ta (publisher_request ?cid h (PubPut a)) (pbs_server W))"
  have s1: "s1 = (touch_client ta ?cid (pbs_server W))\<lparr>session := ?put (session (pbs_server W))\<rparr>"
    unfolding s1_def by (subst put_of_bound [OF assms(2,3) assms(9)]) simp
  define W1 where "W1 = W\<lparr>pbs_server := s1,
    pbs_publisher := (pbs_publisher W)\<lparr>ps_worker := PwHead (PubPut a), ps_session := s'\<rparr>\<rparr>"
  define W2 where "W2 = W1\<lparr>pbs_publisher := (pbs_publisher W1)\<lparr>ps_worker := PwCalling (PubPut a) c' g' h\<rparr>\<rparr>"
  have first: "run_steps ?step (PubWorker False ta (AnswerLost st) # PubDo (PiSession s') # is) W = run_steps ?step is W1" for "is"
    using lost_answer_step [OF assms(1,5), of G E False ta] by (simp add: step_or_stay_def W1_def s1_def)
  have second: "run_steps ?step (map (\<lambda>t. PubWorker False t Answered) [tb, tc, td, te]) W1 = W2"
    unfolding W2_def by (rule head_to_calling) (use assms(4,6,8) in \<open>simp_all add: W1_def publisher_is_closed_def\<close>)
  have entry: "hm_get (publishers s1) h = Some e" using assms(2) by (simp add: s1 touch_client_def)
  have third: "run_steps ?step [PubWorker False tf Answered] W2 =
      W2\<lparr>pbs_publisher := publisher_processed (pbs_publisher W2),
         pbs_server := (touch_client tf ?cid s1)\<lparr>session := ?put (session s1)\<rparr>\<rparr>"
    using answered_step [of W2 "PubPut a" c' g' h E tf, OF _ put_of_bound [of "pbs_server W2" h e]] entry assms(3,7,10)
    by (simp add: W2_def W1_def step_or_stay_def s1)
  show ?thesis
    unfolding first run_steps_append second third
    by (simp add: W2_def W1_def s1 publisher_processed_def touch_client_def Let_def)
qed

section \<open>Witnesses\<close>

text \<open>
  The program \<^verbatim>\<open>examples/pub_sub.rs\<close> on the network of one node: two sessions (with chosen client ids), a
  subscriber whose worker gets ready, one \<^verbatim>\<open>put\<close>, and the event that the subscriber receives.
\<close>

definition example_publisher :: DeclarePublisherArgs where
  "example_publisher = DeclarePublisherArgs_default\<lparr>dpa_key_expr := ''demo/example/value''\<rparr>"

definition example_subscriber :: DeclareSubscriberArgs where
  "example_subscriber = DeclareSubscriberArgs_default\<lparr>dsa_key_expr := ''demo/example/**''\<rparr>"

text \<open>\<^verbatim>\<open>hello from rust\<close>\<close>

definition hello :: bytes where
  "hello = [104, 101, 108, 108, 111, 32, 102, 114, 111, 109, 32, 114, 117, 115, 116]"

definition example_put :: PublisherPutArgs where
  "example_put = PublisherPutArgs_default\<lparr>ppa_payload := hello\<rparr>"

definition example_session :: "string \<Rightarrow> nat Inner" where
  "example_session cid = set_connected 0 (Inner_new (ConnectTcp ''127.0.0.1:7335'') cid)"

definition example_start :: "(nat, PublisherCommand fifo, pb_SubscriberEvent fifo, loop_world) pubsub" where
  "example_start = pubsub_start fifo_flume fifo_flume example_publisher example_subscriber False
     (example_session ''pub'') (example_session ''sub'') (PluginState_new loop_new Config_default)"

definition example_event :: pb_SubscriberEvent where
  "example_event = \<lparr>sevt_sample = Some \<lparr>smp_key_expr = ''demo/example/value'', smp_payload = hello,
     smp_encoding = [], smp_kind = 1, smp_attachment = [], smp_timestamp = [],
     smp_source_info = None\<rparr>\<rparr>"

abbreviation example_step ::
  "nat pubsub_input \<Rightarrow> (nat, PublisherCommand fifo, pb_SubscriberEvent fifo, loop_world) pubsub \<Rightarrow>
   (nat, PublisherCommand fifo, pb_SubscriberEvent fifo, loop_world) pubsub option" where
  "example_step \<equiv> pubsub_step fifo_flume fifo_flume loop_env lw_samples loop_offered"

text \<open>The states after the subscriber's worker has opened its stream and when the publisher's sends the \<^verbatim>\<open>put\<close>.\<close>

definition example_ready :: "(nat, PublisherCommand fifo, pb_SubscriberEvent fifo, loop_world) pubsub" where
  "example_ready = example_start
     \<lparr>pbs_subscriber := (pbs_subscriber example_start)
        \<lparr>ev_binding := \<lparr>b_handle = Some 1, b_generation = 1, b_locked = False\<rparr>, ev_stream_ready := True,
         ev_ready_epoch := 1, ev_worker := EwReading 1 1 0\<rparr>,
      pbs_server := (pbs_server example_start)
        \<lparr>session := loop_new\<lparr>lw_next := 3, lw_receivers := [(2, 1)]\<rparr>, next_handle := 2,
         live_clients := [(''sub'', 10)],
         subscribers := [(1, \<lparr>sub_owner = ''sub'', sub_subscriber = 0, sub_events = 1\<rparr>)]\<rparr>,
      pbs_stream := Some (2, 0)\<rparr>"

definition example_calling :: "(nat, PublisherCommand fifo, pb_SubscriberEvent fifo, loop_world) pubsub" where
  "example_calling = example_ready
     \<lparr>pbs_publisher := (pbs_publisher example_start)
        \<lparr>ps_inner := (ps_inner (pbs_publisher example_start))
           \<lparr>pub_binding := \<lparr>b_handle = Some 2, b_generation = 1, b_locked = False\<rparr>\<rparr>,
         ps_queue := (ps_queue (pbs_publisher example_start))\<lparr>pending := 1\<rparr>,
         ps_worker := PwCalling (PubPut example_put) 0 1 2\<rparr>,
      pbs_server := (pbs_server example_ready)
        \<lparr>session := loop_new\<lparr>lw_next := 4, lw_receivers := [(2, 1)],
           lw_publishers := [(3, publisher_params_of loop_env example_publisher)]\<rparr>,
         next_handle := 3, live_clients := [(''pub'', 20), (''sub'', 10)],
         publishers := [(2, \<lparr>pub_owner = ''pub'', pub_publisher = 3\<rparr>)]\<rparr>\<rparr>"

declare push.simps [code]

lemma example_gets_ready:
  "run_steps example_step (replicate 7 (SubWorker False 10 Answered StreamEnd)) example_start = example_ready"
  by code_simp

lemma example_submits:
  "run_steps example_step (PubDo (PiPut example_put) # replicate 4 (PubWorker False 20 Answered)) example_ready =
     example_ready\<lparr>pbs_publisher := (pbs_publisher example_start)
       \<lparr>ps_queue := (ps_queue (pbs_publisher example_start))\<lparr>pending := 1\<rparr>,
        ps_worker := PwEnsure (PubPut example_put) 0 1\<rparr>\<rparr>"
  by code_simp

lemma example_declares:
  "run_steps example_step (replicate 2 (PubWorker False 20 Answered))
     (example_ready\<lparr>pbs_publisher := (pbs_publisher example_start)
       \<lparr>ps_queue := (ps_queue (pbs_publisher example_start))\<lparr>pending := 1\<rparr>,
        ps_worker := PwEnsure (PubPut example_put) 0 1\<rparr>\<rparr>) = example_calling"
  by code_simp

lemma example_receives:
  "run_log example_step (delivered fifo_flume)
     [PubWorker False 20 Answered, ZenohDelivers 1 0, SubWorker False 30 Answered (NextEvent 0), SubDo UiRecv]
     example_calling = [example_event]"
  by code_simp

definition example_inputs :: "nat pubsub_input list" where
  "example_inputs = (replicate 7 (SubWorker False 10 Answered StreamEnd) @ (PubDo (PiPut example_put)
     # replicate 4 (PubWorker False 20 Answered)) @ replicate 2 (PubWorker False 20 Answered))
     @ [PubWorker False 20 Answered, ZenohDelivers 1 0, SubWorker False 30 Answered (NextEvent 0), SubDo UiRecv]"

lemma example_runs: "example_event \<in> set (run_log example_step (delivered fifo_flume) example_inputs example_start)"
proof -
  have "run_steps example_step (replicate 7 (SubWorker False 10 Answered StreamEnd) @ (PubDo (PiPut example_put)
      # replicate 4 (PubWorker False 20 Answered)) @ replicate 2 (PubWorker False 20 Answered)) example_start = example_calling"
    by (simp only: run_steps_append example_gets_ready example_submits example_declares)
  then show ?thesis
    unfolding example_inputs_def run_log_append example_receives [symmetric] by (simp only: example_receives) simp
qed


theorem lost_answer_duplicates_witness:
  "\<exists>W :: (nat, PublisherCommand fifo, pb_SubscriberEvent fifo, loop_world) pubsub.
     lw_samples (session (pbs_server W)) =
     (let z = \<lparr>zs_key_expr = ''demo/example/value'', zs_payload = hello, zs_encoding = [], zs_kind = ZPut,
                zs_attachment = None, zs_timestamp = None\<rparr> in [z, z])
     \<and> ps_worker (pbs_publisher W) = PwRecv"
proof -
  let ?again = "set_connected 2 (example_session ''pub'')"
  have W: "ps_worker (pbs_publisher example_calling) = PwCalling (PubPut example_put) 0 1 2"
    "hm_get (publishers (pbs_server example_calling)) 2 = Some \<lparr>pub_owner = ''pub'', pub_publisher = 3\<rparr>"
    "pub_binding (ps_inner (pbs_publisher example_calling)) = \<lparr>b_handle = Some 2, b_generation = 1, b_locked = False\<rparr>"
    by (simp_all add: example_calling_def hm_get_def)
  have s: "client_id (ps_session (pbs_publisher example_calling)) = ''pub''"
    "client_id ?again = ''pub''" "current_connection ?again = Some (2, 2)" "\<not> is_closed ?again"
    "\<not> pub_closed (ps_inner (pbs_publisher example_calling))"
    by (simp_all add: example_calling_def example_ready_def example_start_def pubsub_start_def example_session_def
        GrpcSession_declare_publisher_def alloc_local_handle_def set_connected_def Inner_new_def
        notify_connection_def current_connection_def is_closed_def Let_def)
  have world: "session (pbs_server example_calling) = loop_new\<lparr>lw_next := 4, lw_receivers := [(2, 1)],
      lw_publishers := [(3, publisher_params_of loop_env example_publisher)]\<rparr>"
    by (simp add: example_calling_def)
  let ?e = "\<lparr>pub_owner = ''pub'', pub_publisher = 3\<rparr>"
  let ?put = "\<lambda>w. zenoh_put loop_env ?e example_put w"
  let ?z = "\<lparr>zs_key_expr = ''demo/example/value'', zs_payload = hello, zs_encoding = [], zs_kind = ZPut,
    zs_attachment = None, zs_timestamp = None\<rparr>"
  have puts: "fst (?put (session (pbs_server example_calling))) = Inr ()"
    "fst (?put (snd (?put (session (pbs_server example_calling))))) = Inr ()"
    "lw_samples (snd (?put (snd (?put (session (pbs_server example_calling)))))) = [?z, ?z]"
    by (simp_all add: world zenoh_put_def loop_env_def loop_publish_def loop_declared_def loop_new_def
        publisher_params_of_def example_publisher_def example_put_def DeclarePublisherArgs_default_def
        PublisherPutArgs_default_def opt_encoding_def opt_attachment_def unwrap_or_def)
  have "pub_owner ?e = client_id (ps_session (pbs_publisher example_calling))"
    "is_disconnect_status \<lparr>st_code = Unavailable, st_message = []\<rparr>"
    "client_id ?again = client_id (ps_session (pbs_publisher example_calling))"
    "\<not> publisher_is_closed ((pbs_publisher example_calling)\<lparr>ps_session := ?again\<rparr>)"
    by (simp_all add: s publisher_is_closed_def is_disconnect_status_def)
  from lost_answer_duplicates [OF W(1,2) this(1) W(3) this(2) s(3) this(3,4) puts(1,2), where F = fifo_flume
      and G = fifo_flume and samples = lw_samples and offered = loop_offered and ta = 1 and tb = 2 and tc = 3
      and td = 4 and te = 5 and tf = 6]
  obtain W :: "(nat, PublisherCommand fifo, pb_SubscriberEvent fifo, loop_world) pubsub"
    where "session (pbs_server W) = snd (?put (snd (?put (session (pbs_server example_calling)))))"
      "ps_worker (pbs_publisher W) = PwRecv" by blast
  then show ?thesis by (intro exI [of _ W]) (simp only: puts(3) Let_def simp_thms)
qed

end
