(* ===== verification/Answers_Server.thy ===== *)
theory Answers_Server
  imports End_To_End Server_World Zenoh_Delivery
begin

text \<open>
  The plugin gives every answer to the query it was meant for. \<open>answers_ok A D s\<close>, for the queries \<open>D\<close> that
  the plugin has dispatched so far with their ids and the answers \<open>A\<close> that may be given for an id: ids are
  distinct, an in-flight query is the one dispatched under its id, what Zenoh was answered is an answer of \<open>A\<close>
  given to the query of its id, and what a receiver is offered is a dispatched query.
\<close>

section \<open>Answers\<close>

text \<open>The answer in a command of the client core, with the id of the query.\<close>

fun answer_of :: "'w env \<Rightarrow> QueryableCommand \<Rightarrow> (u64 \<times> z_answer) option" where
  "answer_of E (QcReply i a) =
     Some (qi_query_id i, AnReply (ra_key_expr a) (ra_payload a) (opt_encoding E (ra_encoding a))
       (opt_attachment (ra_attachment a)))"
| "answer_of E (QcReplyErr i a) = Some (qi_query_id i, AnErr (rea_payload a) (opt_encoding E (rea_encoding a)))"
| "answer_of E (QcReplyDelete i a) =
     Some (qi_query_id i, AnDelete (rda_key_expr a) (opt_attachment (rda_attachment a)))"
| "answer_of E (QcFinish i) = None"

definition query_event :: "'w env \<Rightarrow> u64 \<times> z_query \<Rightarrow> pb_QueryableEvent" where
  "query_event E d = \<lparr>qevt_query = Some (encode_query E (fst d) (snd d))\<rparr>"

definition answers_world ::
  "'w env \<Rightarrow> ('w \<Rightarrow> (zref \<times> z_answer) list) \<Rightarrow> (zref \<Rightarrow> 'w \<Rightarrow> pb_QueryableEvent list) \<Rightarrow>
   (u64 \<times> z_answer) set \<Rightarrow> (u64 \<times> z_query) list \<Rightarrow> 'w \<Rightarrow> bool" where
  "answers_world E answers offered A D w \<longleftrightarrow>
     (\<forall>x \<in> set (answers w). \<exists>d \<in> set D. zq_ref (snd d) = fst x \<and> (fst d, snd x) \<in> A)
     \<and> (\<forall>r. set (offered r w) \<subseteq> query_event E ` set D)"

definition inflight_ok :: "(u64 \<times> z_query) list \<Rightarrow> (u64, InFlightQuery) hashmap \<Rightarrow> bool" where
  "inflight_ok D m \<longleftrightarrow> (\<forall>(q, e) \<in> set m. (q, ifq_query e) \<in> set D)"

definition answers_ok ::
  "'w env \<Rightarrow> ('w \<Rightarrow> (zref \<times> z_answer) list) \<Rightarrow> (zref \<Rightarrow> 'w \<Rightarrow> pb_QueryableEvent list) \<Rightarrow>
   (u64 \<times> z_answer) set \<Rightarrow> (u64 \<times> z_query) list \<Rightarrow> 'w PluginState \<Rightarrow> bool" where
  "answers_ok E answers offered A D s \<longleftrightarrow>
     answers_world E answers offered A D (session s) \<and> inflight_ok D (inflight_queries s)
     \<and> distinct (map fst D) \<and> (\<forall>d \<in> set D. fst d < next_query_id s)"

text \<open>What an event of the server dispatches, and the requests that answer a query.\<close>

fun dispatches :: "server_event \<Rightarrow> 'w PluginState \<Rightarrow> (u64 \<times> z_query) list" where
  "dispatches (QueryArrived h ow tx z) s = [(next_query_id s, z)]"
| "dispatches _ s = []"

fun is_answer :: "server_event \<Rightarrow> bool" where
  "is_answer (Rpc now (Reply r)) = True"
| "is_answer (Rpc now (ReplyErr r)) = True"
| "is_answer (Rpc now (ReplyDelete r)) = True"
| "is_answer _ = False"

section \<open>What the parts of the handlers keep\<close>

lemma inflight_ok_retain: "inflight_ok D m \<Longrightarrow> inflight_ok D (hm_retain P m)"
  by (auto simp: inflight_ok_def hm_retain_def)

lemma inflight_ok_remove: "inflight_ok D m \<Longrightarrow> inflight_ok D (hm_remove k m)"
  by (auto simp: inflight_ok_def hm_remove_def)

lemma inflight_ok_insert:
  "inflight_ok D m \<Longrightarrow> inflight_ok (D @ [(q, ifq_query e)]) (hm_insert q e m)"
  by (auto simp: inflight_ok_def hm_insert_def hm_remove_def)

lemma inflight_ok_get: "inflight_ok D m \<Longrightarrow> hm_get m q = Some e \<Longrightarrow> (q, ifq_query e) \<in> set D"
  by (auto simp: inflight_ok_def hm_get_def dest: map_of_SomeD)

context zenoh_queries
begin

lemma silent_keeps:
  "answers_nothing answers offered w w' \<Longrightarrow> answers_world E answers offered A D w \<Longrightarrow>
   answers_world E answers offered A D w'"
  by (fastforce simp: answers_nothing_def answers_world_def)

lemmas silent_ok = silent_calls [THEN silent_keeps]

end

sublocale zenoh_queries \<subseteq> kept: kept_world E "answers_world E answers offered A D" for A D
  by unfold_locales (simp_all add: silent_ok)

section \<open>The steps of the plugin\<close>

context zenoh_queries
begin

lemma answered_ok:
  assumes "answers_once answers offered (zref, a) w w'" and "answers_world E answers offered A D w"
    and "(q, z) \<in> set D" and "zq_ref z = zref" and "(q, a) \<in> A"
  shows "answers_world E answers offered A D w'"
proof -
  from assms(3-5) have new: "\<exists>d \<in> set D. zq_ref (snd d) = zref \<and> (fst d, a) \<in> A" by force
  from assms(1,2) have "\<And>r. set (offered r w') \<subseteq> query_event E ` set D"
    unfolding answers_once_def answers_world_def by blast
  moreover have "\<exists>d \<in> set D. zq_ref (snd d) = fst x \<and> (fst d, snd x) \<in> A" if "x \<in> set (answers w')" for x
  proof (cases "x \<in> set (answers w)")
    case True
    with assms(2) show ?thesis unfolding answers_world_def by blast
  next
    case False
    with that assms(1) have "x = (zref, a)" by (auto simp: answers_once_def)
    with new show ?thesis by simp
  qed
  ultimately show ?thesis unfolding answers_world_def by blast
qed

text \<open>The requests that answer nothing.\<close>

lemma request_world:
  assumes "\<not> is_answer (Rpc now r)" and "answers_world E answers offered A D (session s)"
  shows "answers_world E answers offered A D (session (snd (handle_request E now r s)))"
  using assms
  by (cases r) (simp_all add: handlers respond_def Let_def case_prod_beta alloc_handle_def awaited_def
      silent_ok kept.released_kept kept.inserted_kept kept.retained_kept kept.cleanup_kept
      split: option.split sum.split)

lemma cleanup_inflight: "inflight_ok D (inflight_queries s) \<Longrightarrow> inflight_ok D (inflight_queries (cleanup_client E c s))"
  by (simp add: cleanup_client_tables inflight_ok_retain)

lemma cleanups_inflight:
  "inflight_ok D (inflight_queries s) \<Longrightarrow> inflight_ok D (inflight_queries (fold (cleanup_client E) cs s))"
  by (induction cs arbitrary: s) (simp_all add: cleanup_inflight)

lemma request_inflight:
  "inflight_ok D (inflight_queries s) \<Longrightarrow> inflight_ok D (inflight_queries (snd (handle_request E now r s)))"
  by (cases r) (simp_all add: handlers respond_def Let_def case_prod_beta alloc_handle_def awaited_def
      inflight_ok_retain inflight_ok_remove cleanup_inflight split: option.split sum.split)

lemma counter_of_step:
  "\<not> queries ev \<Longrightarrow> next_query_id (server_step E ev s) = next_query_id s"
  by (simp add: step_next_query_id)

text \<open>A query that arrives gets a new id.\<close>

lemma dispatch_ok:
  assumes "answers_ok E answers offered A D s" and "next_query_id s \<noteq> -1"
  shows "answers_ok E answers offered A (D @ [(next_query_id s, z)]) (queryable_dispatch E h ow tx z s)"
proof -
  let ?q = "next_query_id s" and ?D = "D @ [(next_query_id s, z)]"
  define s1 where "s1 = snd (dispatch_store E h ow z s)"
  from assms(1) have world: "answers_world E answers offered A D (session s)" and table: "inflight_ok D (inflight_queries s)"
    and ids: "distinct (map fst D)" "\<forall>d \<in> set D. fst d < ?q" by (auto simp: answers_ok_def)
  have grow: "answers_world E answers offered A ?D w" if "answers_world E answers offered A D w" for w
    using that unfolding answers_world_def by auto
  have s1: "session s1 = replaced (drop_query E) (inflight_queries s) ?q (session s)"
    "inflight_queries s1 = hm_insert ?q \<lparr>ifq_owner = ow, ifq_handle = h, ifq_query = z\<rparr> (inflight_queries s)"
    by (simp_all add: s1_def dispatch_store_def alloc_query_id_def)
  have w1: "answers_world E answers offered A ?D (session s1)"
    unfolding s1(1) by (intro grow kept.replaced_kept kept.released_kept world)
  have "answers_world E answers offered A ?D (bc_send_query E tx (query_event E (?q, z)) (session s1))"
  proof -
    have new: "query_event E (?q, z) \<in> query_event E ` set ?D" by simp
    note sent = send_query_law [of tx "query_event E (?q, z)" "session s1"]
    have "set (offered r (bc_send_query E tx (query_event E (?q, z)) (session s1))) \<subseteq> query_event E ` set ?D" for r
      using sent w1 new unfolding answers_world_def by blast
    with sent w1 show ?thesis unfolding answers_world_def by simp
  qed
  moreover have "session (queryable_dispatch E h ow tx z s) = bc_send_query E tx (query_event E (?q, z)) (session s1)"
    by (simp add: queryable_dispatch_def case_prod_beta dispatch_send_def s1_def dispatch_store_def alloc_query_id_def
        query_event_def)
  moreover have "inflight_queries (queryable_dispatch E h ow tx z s) = inflight_queries s1"
    by (simp add: queryable_dispatch_def case_prod_beta dispatch_send_def s1_def dispatch_store_def alloc_query_id_def)
  moreover have "inflight_ok ?D (inflight_queries s1)"
    unfolding s1(2) using inflight_ok_insert [OF table, of ?q "\<lparr>ifq_owner = ow, ifq_handle = h, ifq_query = z\<rparr>"] by simp
  moreover have "distinct (map fst ?D)" using ids by auto
  moreover have "\<forall>d \<in> set ?D. fst d < ?q + 1"
    using ids(2) u64_less_Suc [OF _ assms(2)] u64_self_less_Suc [OF assms(2)] by auto
  ultimately show ?thesis by (simp add: answers_ok_def)
qed

lemma step_answers_ok:
  assumes "\<not> is_answer ev" and "answers_ok E answers offered A D s" and "next_query_id s \<noteq> -1"
  shows "answers_ok E answers offered A (D @ dispatches ev s) (server_step E ev s)"
proof (cases ev)
  case (Rpc now r)
  with assms show ?thesis
    using request_world [of now r A D s] request_inflight [of D s now r] counter_of_step [of ev s]
    by (simp add: answers_ok_def)
next
  case (Tick now)
  with assms(2) counter_of_step [of ev s] kept.tick_kept [of A D s now] show ?thesis
    by (simp add: answers_ok_def cleanup_tick_def cleanups_inflight)
next
  case (QueryArrived h ow tx z)
  with dispatch_ok [OF assms(2,3)] show ?thesis by simp
next
  case (SampleArrived tx z)
  with assms(2) show ?thesis by (simp add: answers_ok_def subscriber_forward_def silent_ok)
qed

text \<open>A command of the client core answers the query that was dispatched under its id, if it is in flight.\<close>

lemma command_answers_ok:
  assumes "answers_ok E answers offered A D s" and "\<And>x. answer_of E cmd = Some x \<Longrightarrow> x \<in> A"
  shows "answers_ok E answers offered A D (snd (handle_request E now (reply_command_request cid cmd) s))"
proof -
  have found: "(q, ifq_query e) \<in> set D" if "inflight_query c h q (touch_client now c s) = Inr e" for c h q e
    using that assms(1) by (auto simp: inflight_query_Inr answers_ok_def dest: inflight_ok_get)
  have world: "answers_world E answers offered A D (session s)" using assms(1) by (simp add: answers_ok_def)
  have counter: "next_query_id (snd (handle_request E now (reply_command_request cid cmd) s)) = next_query_id s"
    using counter_of_step [of "Rpc now (reply_command_request cid cmd)" s] by (cases cmd) simp_all
  have "answers_world E answers offered A D (session (snd (handle_request E now (reply_command_request cid cmd) s)))"
  proof (cases cmd)
    case (QcReply i a)
    with assms(2) show ?thesis
      by (auto simp: respond_def queryable_reply_def reply_request_def Let_def awaited_def world
          intro: answered_ok [OF reply_law world found] split: sum.split)
  next
    case (QcReplyErr i a)
    with assms(2) show ?thesis
      by (auto simp: respond_def queryable_reply_err_def reply_err_request_def Let_def awaited_def world
          intro: answered_ok [OF reply_err_law world found] split: sum.split)
  next
    case (QcReplyDelete i a)
    with assms(2) show ?thesis
      by (auto simp: respond_def queryable_reply_delete_def reply_delete_request_def Let_def awaited_def world
          intro: answered_ok [OF reply_del_law world found] split: sum.split)
  next
    case (QcFinish i)
    with request_world [of now "reply_command_request cid cmd" A D s] world show ?thesis by simp
  qed
  with assms(1) request_inflight [of D s now "reply_command_request cid cmd"] counter show ?thesis
    by (simp add: answers_ok_def)
qed

end

end
