(* ===== verification/Answers.thy ===== *)
theory Answers
  imports Answers_Server Network
begin

text \<open>
  Queries and their answers end to end: a queryable of the client core whose workers talk to the plugin, and
  Zenoh, which gives the plugin queries and takes their answers. The machine \<open>answer_step\<close> lets one of them
  move; the network may lose a request or its answer, and a stream of queries may lose events or break.
\<close>

section \<open>The composed system\<close>

record ('ch, 'c, 'd, 'w) answering =
  an_queryable :: "('ch, 'c, 'd) queryable_sys"
  an_server :: "'w PluginState"
  an_stream :: "(zref \<times> nat) option"

text \<open>
  What may happen: the application calls its queryable or answers a query, or its session changes (\<open>AppDo\<close>),
  the workers move, and the plugin handles a sample, a query, a tick of the cleanup task or a request of
  anybody that is not an answer (\<open>PluginDoes\<close>).
\<close>

datatype 'ch answer_input =
    AppDo "'ch queryable_input"
  | EventWorker bool instant network stream_item
  | ReplyWorker bool instant network
  | PluginDoes server_event

definition answer_event_step ::
  "('c, QueryableEventEnvelope) flume \<Rightarrow> 'w env \<Rightarrow> (zref \<Rightarrow> 'w \<Rightarrow> pb_QueryableEvent list) \<Rightarrow> bool \<Rightarrow> instant \<Rightarrow>
   network \<Rightarrow> stream_item \<Rightarrow> ('ch, 'c, 'd, 'w) answering \<Rightarrow> ('ch, 'c, 'd, 'w) answering option" where
  "answer_event_step F E offered pick now net item W =
     (case queryable_call (an_queryable W) of
        Some (c, r) \<Rightarrow>
          (case deliver E now net r (an_server W) of (a, s) \<Rightarrow>
             map_option (\<lambda>Q. W\<lparr>an_queryable := Q, an_server := s, an_stream := map_option (\<lambda>r. (r, 0)) (as_stream a)\<rparr>)
               (queryable_event_step F pick (as_handle a) (as_unit a) MsgEnd (an_queryable W)))
      | None \<Rightarrow>
          if reading (an_queryable W)
          then (case stream_message (\<lambda>r. offered r (session (an_server W))) item (an_stream W) of
                  None \<Rightarrow> None
                | Some (msg, stream) \<Rightarrow>
                    map_option (\<lambda>Q. W\<lparr>an_queryable := Q, an_stream := stream\<rparr>)
                      (queryable_event_step F pick (Inr 0) (Inr ()) msg (an_queryable W)))
          else map_option (\<lambda>Q. W\<lparr>an_queryable := Q\<rparr>)
                 (queryable_event_step F pick (Inr 0) (Inr ()) MsgEnd (an_queryable W)))"

definition answer_reply_step ::
  "('d, QueryableCommand) flume \<Rightarrow> 'w env \<Rightarrow> bool \<Rightarrow> instant \<Rightarrow> network \<Rightarrow> ('ch, 'c, 'd, 'w) answering \<Rightarrow>
   ('ch, 'c, 'd, 'w) answering option" where
  "answer_reply_step G E pick now net W =
     (case reply_call (an_queryable W) of
        None \<Rightarrow> map_option (\<lambda>Q. W\<lparr>an_queryable := Q\<rparr>) (reply_worker_step G pick (Inr ()) (an_queryable W))
      | Some (c, r) \<Rightarrow>
          (case deliver E now net r (an_server W) of (a, s) \<Rightarrow>
             map_option (\<lambda>Q. W\<lparr>an_queryable := Q, an_server := s\<rparr>)
               (reply_worker_step G pick (as_unit a) (an_queryable W))))"

fun is_worker :: "'ch queryable_input \<Rightarrow> bool" where
  "is_worker (QiEvents _ _ _ _) = True"
| "is_worker (QiWorker _ _) = True"
| "is_worker _ = False"

fun answer_step ::
  "('c, QueryableEventEnvelope) flume \<Rightarrow> ('d, QueryableCommand) flume \<Rightarrow> 'w env \<Rightarrow>
   (zref \<Rightarrow> 'w \<Rightarrow> pb_QueryableEvent list) \<Rightarrow> 'ch answer_input \<Rightarrow> ('ch, 'c, 'd, 'w) answering \<Rightarrow>
   ('ch, 'c, 'd, 'w) answering option" where
  "answer_step F G E offered (AppDo i) W =
     (if is_worker i then None
      else map_option (\<lambda>Q. W\<lparr>an_queryable := Q\<rparr>) (queryable_step F G i (an_queryable W)))"
| "answer_step F G E offered (EventWorker pick now net item) W = answer_event_step F E offered pick now net item W"
| "answer_step F G E offered (ReplyWorker pick now net) W = answer_reply_step G E pick now net W"
| "answer_step F G E offered (PluginDoes ev) W =
     (if is_answer ev then None else Some (W\<lparr>an_server := server_step E ev (an_server W)\<rparr>))"

definition answer_start ::
  "('c, QueryableEventEnvelope) flume \<Rightarrow> ('d, QueryableCommand) flume \<Rightarrow> DeclareQueryableArgs \<Rightarrow> bool \<Rightarrow>
   'ch Inner \<Rightarrow> 'w PluginState \<Rightarrow> ('ch, 'c, 'd, 'w) answering" where
  "answer_start F G args has_callback s server =
     \<lparr>an_queryable = GrpcSession_declare_queryable F G args has_callback s, an_server = server, an_stream = None\<rparr>"

text \<open>The answer that the application gives, with the id of its query; what it receives; what the plugin dispatches.\<close>

fun answer_given :: "'w env \<Rightarrow> 'ch answer_input \<Rightarrow> (u64 \<times> z_answer) option" where
  "answer_given E (AppDo (QiReply a)) =
     Some (ra_query_id a, AnReply (ra_key_expr a) (ra_payload a) (opt_encoding E (ra_encoding a))
       (opt_attachment (ra_attachment a)))"
| "answer_given E (AppDo (QiReplyErr a)) = Some (rea_query_id a, AnErr (rea_payload a) (opt_encoding E (rea_encoding a)))"
| "answer_given E (AppDo (QiReplyDelete a)) =
     Some (rda_query_id a, AnDelete (rda_key_expr a) (opt_attachment (rda_attachment a)))"
| "answer_given E (AppDo (QiQueryReply q k p e at ts)) =
     Some (qry_query_id (gq_inner q), AnReply k p (opt_encoding E e) (opt_attachment at))"
| "answer_given E (AppDo (QiQueryReplyErr q p e)) = Some (qry_query_id (gq_inner q), AnErr p (opt_encoding E e))"
| "answer_given E (AppDo (QiQueryReplyDelete q k at ts)) =
     Some (qry_query_id (gq_inner q), AnDelete k (opt_attachment at))"
| "answer_given E _ = None"

fun query_seen ::
  "('c, QueryableEventEnvelope) flume \<Rightarrow> 'ch answer_input \<Rightarrow> ('ch, 'c, 'd, 'w) answering \<Rightarrow> pb_QueryableEvent list" where
  "query_seen F (AppDo i) W = map env_event (query_received F i (an_queryable W))"
| "query_seen F _ W = []"

fun query_dispatched :: "'ch answer_input \<Rightarrow> ('ch, 'c, 'd, 'w) answering \<Rightarrow> (u64 \<times> z_query) list" where
  "query_dispatched (PluginDoes ev) W = dispatches ev (an_server W)"
| "query_dispatched _ W = []"

section \<open>The client side\<close>

text \<open>The identities of active queries are filed under their ids.\<close>

definition active_ok :: "('ch, 'c, 'd) queryable_sys \<Rightarrow> bool" where
  "active_ok S \<longleftrightarrow> (\<forall>(q, i) \<in> set (qb_active S). qi_query_id i = q)"

lemma active_ok_changes:
  "active_ok S \<Longrightarrow> active_ok (remember_query i S)" "active_ok S \<Longrightarrow> active_ok (forget_query q S)"
  "active_ok S \<Longrightarrow> active_ok (mark_query_stale i S)"
  by (auto simp: active_ok_def remember_query_def forget_query_def mark_query_stale_def hm_insert_def hm_remove_def)

lemma active_ok_same: "qb_active S' = qb_active S \<Longrightarrow> active_ok S' = active_ok S"
  by (simp add: active_ok_def)

lemma query_from_event_active: "query_from_event ev S = (r, S') \<Longrightarrow> active_ok S \<Longrightarrow> active_ok S'"
  by (auto simp: query_from_event_def Let_def active_ok_changes split: option.splits)

lemma reply_worker_active:
  assumes "reply_worker_step G pick a S = Some S'" and "active_ok S"
  shows "active_ok S'"
  using assms active_ok_changes [OF assms(2)]
  by (auto simp: reply_worker_step_def reply_processed_def ev_mark_disconnected_def ev_log_def
      active_ok_same [of "_\<lparr>qb_worker := _\<rparr>"] split: reply_pc.splits option.splits
      sum.splits if_splits wait_result.splits QueryableCommand.splits)

lemma submitted_answers:
  assumes "cmd \<in> set (reply_submitted i S)" and "active_ok S" and "answer_of E cmd = Some x"
  shows "answer_given E (AppDo i) = Some x"
proof -
  have "qi_query_id j = q" if "query_identity q S = Some j" for q j
    using that assms(2) by (auto simp: query_identity_def active_ok_def hm_get_def dest: map_of_SomeD)
  with assms(1,3) show ?thesis
    by (cases i) (auto simp: by_id_def held_def finish_commands_def GrpcQuery_identity_def split: option.splits if_splits)
qed

lemma answering_active:
  assumes "queryable_step F G i S = Some S'" and "active_ok S"
  shows "active_ok S'"
proof (cases i)
  case (QiEvents pick ha oa msg)
  with assms query_event_write_side [of F pick ha oa msg S S'] show ?thesis by (simp add: active_ok_def)
next
  case (QiWorker pick a)
  with assms show ?thesis by (auto intro: reply_worker_active)
next
  case QiRecv
  with assms show ?thesis
    by (auto simp: GrpcQueryable_recv_def active_ok_same [of "_\<lparr>ev_queue := _\<rparr>"] split: sum.splits option.splits
        elim!: query_from_event_active)
next
  case QiTryRecv
  with assms show ?thesis
    by (auto simp: GrpcQueryable_try_recv_def active_ok_same [of "_\<lparr>ev_queue := _\<rparr>"] apfst_def map_prod_def
        split: sum.splits option.splits recv_outcome.splits prod.splits elim!: query_from_event_active)
next
  case (QiDispatch panics)
  with assms show ?thesis
    by (auto simp: queryable_dispatch_event_def active_ok_same [of "_\<lparr>ev_queue := _\<rparr>"]
        active_ok_same [of "_\<lparr>ev_session := _\<rparr>"] split: sum.splits option.splits prod.splits if_splits
        elim!: query_from_event_active)
next
  case (QiUndeclare a)
  with assms show ?thesis
    by (auto simp: queryable_undeclare_step_def close_queue_def active_ok_def split: undeclare_pc.splits if_splits)
next
  case (QiSession s)
  with assms show ?thesis by (auto simp: active_ok_def)
qed (use assms answer_step [OF assms(1)] in \<open>auto simp: active_ok_def\<close>)

section \<open>Every answer reaches its query\<close>

lemma queryable_call_no_answer: "queryable_call Q = Some (c, r) \<Longrightarrow> \<not> is_answer (Rpc now r) \<and> \<not> queries (Rpc now r)"
  by (auto simp: queryable_call_def Let_def split: event_pc.splits)

locale answer_channels =
  queryable_channels F ev_contents ev_capacity ev_receivers ev_senders G contents capacity receivers senders +
  zenoh_queries E answers offered
  for F :: "('c, QueryableEventEnvelope) flume" and ev_contents and ev_capacity and ev_receivers and ev_senders
    and G :: "('d, QueryableCommand) flume" and contents and capacity and receivers and senders
    and E :: "'w env" and answers and offered
begin

text \<open>The invariant of the client, for the answers \<open>A\<close> that are given and the queries \<open>D\<close> dispatched so far.\<close>

definition client_ok :: "(u64 \<times> z_answer) set \<Rightarrow> (u64 \<times> z_query) list \<Rightarrow> ('ch, 'c, 'd) queryable_sys \<Rightarrow> bool" where
  "client_ok A D Q \<longleftrightarrow>
     active_ok Q \<and> cmds.queue_ok SEND_QUEUE_CAPACITY (qb_write Q)
     \<and> (\<forall>cmd \<in> set (held (reply_current (qb_worker Q)) @ contents (chan (qb_write Q))).
          \<forall>x. answer_of E cmd = Some x \<longrightarrow> x \<in> A)
     \<and> evs.events_ok (ev_queue Q) (ev_sender Q)
     \<and> env_event ` set (ev_contents (chan (ev_queue Q))) \<subseteq> query_event E ` set D"

lemma client_okD:
  assumes "client_ok A D Q"
  shows "active_ok Q" "cmds.queue_ok SEND_QUEUE_CAPACITY (qb_write Q)" "evs.events_ok (ev_queue Q) (ev_sender Q)"
    "env_event ` set (ev_contents (chan (ev_queue Q))) \<subseteq> query_event E ` set D"
    "\<And>cmd x. cmd \<in> set (held (reply_current (qb_worker Q)) @ contents (chan (qb_write Q))) \<Longrightarrow>
      answer_of E cmd = Some x \<Longrightarrow> x \<in> A"
  using assms by (simp_all only: client_ok_def)

lemma client_ok_grows: "client_ok A D Q \<Longrightarrow> client_ok A (D @ D') Q"
  unfolding client_ok_def by (auto simp: image_Un)

lemma client_step:
  assumes "queryable_step F G i Q = Some Q'" and "client_ok A D Q"
    and "\<And>x. answer_given E (AppDo i) = Some x \<Longrightarrow> x \<in> A"
    and "env_event ` set (query_streamed i Q) \<subseteq> query_event E ` set D"
  shows "client_ok A D Q'" and "env_event ` set (query_received F i Q) \<subseteq> query_event E ` set D"
proof -
  note ok = client_okD [OF assms(2)]
  from subseq_set [OF rw.step_order [OF ok(2) assms(1)]]
  have cmds: "set (held (reply_current (qb_worker Q')) @ contents (chan (qb_write Q'))) \<subseteq>
      set (held (reply_current (qb_worker Q)) @ contents (chan (qb_write Q))) \<union> set (reply_submitted i Q)" by auto
  have x: "x \<in> A" if "cmd \<in> set (held (reply_current (qb_worker Q')) @ contents (chan (qb_write Q')))"
    "answer_of E cmd = Some x" for cmd x
  proof (cases "cmd \<in> set (reply_submitted i Q)")
    case True
    from assms(3) [OF submitted_answers [OF this ok(1) that(2)]] show ?thesis .
  next
    case False
    with that(1) cmds have "cmd \<in> set (held (reply_current (qb_worker Q)) @ contents (chan (qb_write Q)))" by blast
    from ok(5) [OF this that(2)] show ?thesis .
  qed
  have im: "env_event ` (set (query_received F i Q) \<union> set (ev_contents (chan (ev_queue Q')))) \<subseteq> query_event E ` set D"
  proof -
    from subseq_set [OF qe.step_pipe [OF ok(3) assms(1)]]
    have "set (query_received F i Q) \<union> set (ev_contents (chan (ev_queue Q'))) \<subseteq>
        set (ev_contents (chan (ev_queue Q))) \<union> set (query_streamed i Q)" by simp
    then have "env_event ` (set (query_received F i Q) \<union> set (ev_contents (chan (ev_queue Q')))) \<subseteq>
        env_event ` set (ev_contents (chan (ev_queue Q))) \<union> env_event ` set (query_streamed i Q)"
      by (metis image_Un image_mono)
    from subset_trans [OF this Un_least [OF ok(4) assms(4)]] show ?thesis .
  qed
  show "client_ok A D Q'" unfolding client_ok_def
  proof (intro conjI ballI allI impI)
    show "active_ok Q'" by (rule answering_active [OF assms(1) ok(1)])
    show "cmds.queue_ok SEND_QUEUE_CAPACITY (qb_write Q')" by (rule rw.step_ok [OF ok(2) assms(1)])
    show "evs.events_ok (ev_queue Q') (ev_sender Q')" by (rule qe.step_ok [OF ok(3) assms(1)])
    show "env_event ` set (ev_contents (chan (ev_queue Q'))) \<subseteq> query_event E ` set D"
      using im by (simp only: image_Un Un_subset_iff)
  qed (rule x)
  show "env_event ` set (query_received F i Q) \<subseteq> query_event E ` set D"
    using im by (simp only: image_Un Un_subset_iff)
qed

lemma request_counter: "next_query_id (snd (handle_request E now r s)) = next_query_id s"
  using counter_of_step [of "Rpc now r" s] by simp

lemma deliver_counter: "next_query_id (snd (deliver E now net r s)) = next_query_id s"
  by (cases net) (simp_all add: request_counter)

lemma answer_counter:
  assumes "answer_step F G E offered i W = Some W'"
  shows "unat (next_query_id (an_server W')) \<le> Suc (unat (next_query_id (an_server W)))"
proof -
  have "next_query_id (an_server W') = next_query_id (an_server W)
      \<or> next_query_id (an_server W') = next_query_id (an_server W) + 1"
  proof (cases i)
    case (EventWorker pick now net item)
    with assms deliver_counter [of now net _ "an_server W"] show ?thesis
      by (auto simp: answer_event_step_def split: option.splits prod.splits if_splits) (metis snd_conv)
  next
    case (ReplyWorker pick now net)
    with assms deliver_counter [of now net _ "an_server W"] show ?thesis
      by (auto simp: answer_reply_step_def split: option.splits prod.splits) (metis snd_conv)
  qed (use assms in \<open>auto simp: step_next_query_id split: if_splits\<close>)
  then show ?thesis by (auto simp: unat_word_ariths)
qed

definition run_ok :: "(u64 \<times> z_answer) set \<Rightarrow> (u64 \<times> z_query) list \<Rightarrow> ('ch, 'c, 'd, 'w) answering \<Rightarrow> bool" where
  "run_ok A D W \<longleftrightarrow> client_ok A D (an_queryable W) \<and> answers_ok E answers offered A D (an_server W)"

lemma deliver_answers_ok:
  assumes "answers_ok E answers offered A D s"
    and "answers_ok E answers offered A D (snd (handle_request E now r s))"
  shows "answers_ok E answers offered A D (snd (deliver E now net r s))"
  using assms by (cases net) simp_all

lemma run_step:
  assumes "answer_step F G E offered i W = Some W'" and "run_ok A D W" and "next_query_id (an_server W) \<noteq> -1"
    and "\<And>x. answer_given E i = Some x \<Longrightarrow> x \<in> A"
  shows "run_ok A (D @ query_dispatched i W) W'" and "set (query_seen F i W) \<subseteq> query_event E ` set D"
proof -
  let ?Q = "an_queryable W" and ?s = "an_server W"
  from assms(2) have client: "client_ok A D ?Q" and server: "answers_ok E answers offered A D ?s"
    by (auto simp: run_ok_def)
  show "run_ok A (D @ query_dispatched i W) W'"
  proof (cases i)
    case (AppDo j)
    with assms(1) obtain Q where Q: "\<not> is_worker j" "queryable_step F G j ?Q = Some Q" "W' = W\<lparr>an_queryable := Q\<rparr>"
      by (auto split: if_splits)
    from Q(1) have "query_streamed j ?Q = []" by (cases j) auto
    with client_step(1) [OF Q(2) client] assms(4) AppDo server Q(3) show ?thesis by (simp add: run_ok_def)
  next
    case (EventWorker pick now net item)
    note step = assms(1) [unfolded EventWorker answer_step.simps answer_event_step_def]
    have client': "client_ok A D Q"
      if "queryable_event_step F pick ha oa msg ?Q = Some Q"
        "\<And>ev. msg = MsgItem ev \<Longrightarrow> ev \<in> query_event E ` set D" for ha oa msg Q
    proof -
      have "env_event ` set (streams envelope msg ?Q) \<subseteq> query_event E ` set D"
        using that(2) by (cases msg) (auto simp: streams_def envelope_def split: event_pc.splits)
      with client_step(1) [of "QiEvents pick ha oa msg" ?Q Q A D] that(1) client show ?thesis by simp
    qed
    show ?thesis
    proof (cases "queryable_call ?Q")
      case (Some cr)
      then obtain c r where cr: "queryable_call ?Q = Some (c, r)" by (cases cr) auto
      with step obtain a s Q where Q: "deliver E now net r ?s = (a, s)"
        "W' = W\<lparr>an_queryable := Q, an_server := s, an_stream := map_option (\<lambda>r. (r, 0)) (as_stream a)\<rparr>"
        "queryable_event_step F pick (as_handle a) (as_unit a) MsgEnd ?Q = Some Q" by (auto split: prod.splits)
      have "dispatches (Rpc now r) ?s = []" by simp
      with step_answers_ok [of "Rpc now r" A D ?s] queryable_call_no_answer [OF cr, of now] server assms(3)
      have "answers_ok E answers offered A D (snd (handle_request E now r ?s))" by simp
      from deliver_answers_ok [OF server this, of net] Q(1) have "answers_ok E answers offered A D s" by simp
      with client' [OF Q(3)] Q(2) EventWorker show ?thesis by (simp add: run_ok_def)
    next
      case None
      show ?thesis
      proof (cases "reading ?Q")
        case True
        with None step obtain msg st Q where Q:
          "stream_message (\<lambda>r. offered r (session ?s)) item (an_stream W) = Some (msg, st)"
          "W' = W\<lparr>an_queryable := Q, an_stream := st\<rparr>"
          "queryable_event_step F pick (Inr 0) (Inr ()) msg ?Q = Some Q" by (auto split: option.splits prod.splits)
        have "ev \<in> query_event E ` set D" if "msg = MsgItem ev" for ev
        proof -
          from stream_message_offered [OF Q(1) [unfolded that]] obtain r where "ev \<in> set (offered r (session ?s))" by blast
          with server show ?thesis unfolding answers_ok_def answers_world_def by blast
        qed
        with client' [OF Q(3)] Q(2) EventWorker server show ?thesis by (simp add: run_ok_def)
      next
        case False
        with None step obtain Q where Q: "W' = W\<lparr>an_queryable := Q\<rparr>"
          "queryable_event_step F pick (Inr 0) (Inr ()) MsgEnd ?Q = Some Q" by auto
        with client' [OF Q(2)] EventWorker server show ?thesis by (simp add: run_ok_def)
      qed
    qed
  next
    case (ReplyWorker pick now net)
    note step = assms(1) [unfolded ReplyWorker answer_step.simps answer_reply_step_def]
    have client': "client_ok A D Q" if "reply_worker_step G pick a ?Q = Some Q" for a Q
      using client_step(1) [of "QiWorker pick a" ?Q Q A D] that client by simp
    show ?thesis
    proof (cases "reply_call ?Q")
      case None
      with step obtain Q where Q: "W' = W\<lparr>an_queryable := Q\<rparr>" "reply_worker_step G pick (Inr ()) ?Q = Some Q" by auto
      with client' [OF Q(2)] ReplyWorker server show ?thesis by (simp add: run_ok_def)
    next
      case (Some cr)
      then obtain c cmd g where cr: "qb_worker ?Q = QwCalling cmd c g"
        "cr = (c, reply_command_request (client_id (ev_session ?Q)) cmd)"
        by (auto simp: reply_call_def split: reply_pc.splits)
      with step Some obtain a s Q where Q:
        "deliver E now net (reply_command_request (client_id (ev_session ?Q)) cmd) ?s = (a, s)"
        "W' = W\<lparr>an_queryable := Q, an_server := s\<rparr>" "reply_worker_step G pick (as_unit a) ?Q = Some Q"
        by (auto split: prod.splits)
      have "x \<in> A" if "answer_of E cmd = Some x" for x
      proof -
        have "cmd \<in> set (held (reply_current (qb_worker ?Q)) @ contents (chan (qb_write ?Q)))"
          by (simp add: cr(1) held_def)
        from client_okD(5) [OF client this that] show ?thesis .
      qed
      from deliver_answers_ok [OF server command_answers_ok [OF server this], where net = net] Q(1)
      have "answers_ok E answers offered A D s" by (metis snd_conv)
      with client' [OF Q(3)] Q(2) ReplyWorker show ?thesis by (simp add: run_ok_def)
    qed
  next
    case (PluginDoes ev)
    with assms(1,3) step_answers_ok [OF _ server, of ev] client client_ok_grows show ?thesis
      by (auto simp: run_ok_def split: if_splits)
  qed
  show "set (query_seen F i W) \<subseteq> query_event E ` set D"
  proof (cases i)
    case (AppDo j)
    with assms(1) obtain Q where Q: "\<not> is_worker j" "queryable_step F G j ?Q = Some Q" by (auto split: if_splits)
    from Q(1) have "query_streamed j ?Q = []" by (cases j) auto
    with client_step(2) [OF Q(2) client] assms(4) AppDo show ?thesis by simp
  qed simp_all
qed

lemma run_answers:
  assumes "run_ok A D W" and "unat (next_query_id (an_server W)) + length is < 2 ^ 64 - 1"
    and "\<forall>i \<in> set is. \<forall>x. answer_given E i = Some x \<longrightarrow> x \<in> A"
  shows "run_ok A (D @ run_log (answer_step F G E offered) query_dispatched is W) (run_steps (answer_step F G E offered) is W)
    \<and> set (run_log (answer_step F G E offered) (query_seen F) is W) \<subseteq>
        query_event E ` set (D @ run_log (answer_step F G E offered) query_dispatched is W)"
  using assms
proof (induction "is" arbitrary: D W)
  case (Cons i "is")
  show ?case
  proof (cases "answer_step F G E offered i W")
    case None
    with Cons show ?thesis by (simp add: step_or_stay_def)
  next
    case (Some W')
    from Cons.prems(2) have "next_query_id (an_server W) \<noteq> -1" by (rule not_exhausted)
    note step = run_step [OF Some Cons.prems(1) this] 
    from Cons.prems(3) have given: "\<And>x. answer_given E i = Some x \<Longrightarrow> x \<in> A" by (metis list.set_intros(1))
    from answer_counter [OF Some] Cons.prems(2) have "unat (next_query_id (an_server W')) + length is < 2 ^ 64 - 1" by simp
    from Cons.IH [OF step(1) [OF given] this] Cons.prems(3) step(2) [OF given] Some show ?thesis
      by (auto simp: step_or_stay_def image_Un)
  qed
qed simp

lemma run_start:
  assumes "inflight_queries s = []" and "answers (session s) = []" and "\<forall>r. offered r (session s) = []"
  shows "run_ok A [] (answer_start F G args cb si s)"
  using assms fresh_queryable [OF refl, of args cb si]
  by (simp add: run_ok_def client_ok_def active_ok_def answers_ok_def answers_world_def inflight_ok_def
      answer_start_def held_def GrpcSession_declare_queryable_def Let_def case_prod_beta)

lemma run_from_start:
  assumes "inflight_queries server = []" and "answers (session server) = []" and "\<forall>r. offered r (session server) = []"
    and "unat (next_query_id server) + length is < 2 ^ 64 - 1"
    and "start = answer_start F G args has_callback session0 server"
    and "D = run_log (answer_step F G E offered) query_dispatched is start"
  shows "distinct (map fst D)
    \<and> (\<forall>ev \<in> set (run_log (answer_step F G E offered) (query_seen F) is start).
         \<exists>q z. (q, z) \<in> set D \<and> qevt_query ev = Some (encode_query E q z))
    \<and> (\<forall>(r, a) \<in> set (answers (session (an_server (run_steps (answer_step F G E offered) is start)))).
         \<exists>q z. (q, z) \<in> set D \<and> zq_ref z = r \<and> (\<exists>i \<in> set is. answer_given E i = Some (q, a)))"
proof -
  let ?A = "{x. \<exists>i \<in> set is. answer_given E i = Some x}"
  have given: "\<forall>i \<in> set is. \<forall>x. answer_given E i = Some x \<longrightarrow> x \<in> ?A" by blast
  have n: "unat (next_query_id (an_server start)) + length is < 2 ^ 64 - 1"
    using assms(4) by (simp add: assms(5) answer_start_def)
  have ok: "run_ok ?A [] start" unfolding assms(5) by (rule run_start [OF assms(1-3)])
  from run_answers [OF ok n given] have final: "run_ok ?A D (run_steps (answer_step F G E offered) is start)"
    and seen: "set (run_log (answer_step F G E offered) (query_seen F) is start) \<subseteq> query_event E ` set D"
    by (simp_all add: assms(6))
  have "\<exists>q z. (q, z) \<in> set D \<and> qevt_query ev = Some (encode_query E q z)"
    if "ev \<in> set (run_log (answer_step F G E offered) (query_seen F) is start)" for ev
  proof -
    from subsetD [OF seen that] obtain d where "d \<in> set D" "ev = query_event E d" by (rule imageE)
    then show ?thesis by (intro exI [of _ "fst d"] exI [of _ "snd d"]) (simp add: query_event_def)
  qed
  moreover from final have "distinct (map fst D)" by (simp add: run_ok_def answers_ok_def)
  moreover have "\<exists>q z. (q, z) \<in> set D \<and> zq_ref z = fst x \<and> (\<exists>i \<in> set is. answer_given E i = Some (q, snd x))"
    if "x \<in> set (answers (session (an_server (run_steps (answer_step F G E offered) is start))))" for x
  proof -
    from final have "answers_world E answers offered ?A D (session (an_server (run_steps (answer_step F G E offered) is start)))"
      by (simp only: run_ok_def answers_ok_def)
    with that have "\<exists>d \<in> set D. zq_ref (snd d) = fst x \<and> (fst d, snd x) \<in> ?A"
      unfolding answers_world_def by (elim conjE) (rule bspec)
    then obtain d where "d \<in> set D" "zq_ref (snd d) = fst x" "(fst d, snd x) \<in> ?A" by blast
    then show ?thesis by (intro exI [of _ "fst d"] exI [of _ "snd d"]) simp
  qed
  ultimately show ?thesis by (simp add: split_beta)
qed

end

text \<open>
  C3: every answer reaches its query. Start with a plugin that has no query in flight, a Zenoh that has
  not been answered yet and a new queryable of the client core. Whatever the application does, whatever requests,
  answers and events the network loses, however the session reconnects, and whatever else the plugin does
  meanwhile (queries for any queryable, requests of other clients, cleanups), as long as nobody else answers
  queries: the ids of the dispatched queries are distinct; every event that the application receives shows one
  of them, with its selector, key expression, parameters and data; and every answer that Zenoh got for a query
  was given by the application for the id of that very query, with exactly its key expression, payload,
  encoding and attachment.
\<close>

theorem answers_reach_their_query:
  assumes "zenoh_queries E answers offered"
    and "bounded_channel F ec ecap er es" and "bounded_channel G contents capacity receivers senders"
    and "inflight_queries server = []" and "answers (session server) = []" and "\<forall>r. offered r (session server) = []"
    and "unat (next_query_id server) + length is < 2 ^ 64 - 1"
    and "start = answer_start F G args has_callback session0 server"
    and "D = run_log (answer_step F G E offered) query_dispatched is start"
  shows "distinct (map fst D)
    \<and> (\<forall>ev \<in> set (run_log (answer_step F G E offered) (query_seen F) is start).
         \<exists>q z. (q, z) \<in> set D \<and> qevt_query ev = Some (encode_query E q z))
    \<and> (\<forall>(r, a) \<in> set (answers (session (an_server (run_steps (answer_step F G E offered) is start)))).
         \<exists>q z. (q, z) \<in> set D \<and> zq_ref z = r \<and> (\<exists>i \<in> set is. answer_given E i = Some (q, a)))"
proof -
  have "answer_channels F ec ecap er es G contents capacity receivers senders E answers offered"
    by (intro answer_channels.intro queryable_channels.intro assms(1-3))
  from answer_channels.run_from_start [OF this assms(4-9)] show ?thesis .
qed


section \<open>Witness\<close>

text \<open>
  The answering side of \<^verbatim>\<open>examples/queryable.rs\<close> on the network of one node, with a chosen client id: the worker
  of the queryable gets ready, a query arrives, the application replies to it and finishes it.
\<close>

definition example_queryable :: DeclareQueryableArgs where
  "example_queryable = DeclareQueryableArgs_default\<lparr>dqa_key_expr := ''demo/query/**''\<rparr>"

definition arriving_query :: z_query where
  "arriving_query = \<lparr>zq_ref = 7, zq_selector = ''demo/query/value'', zq_key_expr = ''demo/query/value'',
     zq_parameters = [], zq_payload = None, zq_encoding = None, zq_attachment = None\<rparr>"

text \<open>\<^verbatim>\<open>reply from rust\<close>\<close>

definition reply_payload :: bytes where
  "reply_payload = [114, 101, 112, 108, 121, 32, 102, 114, 111, 109, 32, 114, 117, 115, 116]"

definition received_query :: GrpcQuery where
  "received_query = \<lparr>gq_inner = encode_query loop_env 1 arriving_query, gq_remote_handle = 1, gq_finished = False\<rparr>"

definition example_reply :: "nat queryable_input" where
  "example_reply = QiQueryReply received_query ''demo/query/value'' reply_payload ''text/plain'' [] []"

definition answering_start ::
  "(nat, QueryableEventEnvelope fifo, QueryableCommand fifo, loop_world) answering" where
  "answering_start = answer_start fifo_flume fifo_flume example_queryable False
     (set_connected 0 (Inner_new (ConnectTcp ''127.0.0.1:7335'') ''app'')) (PluginState_new loop_new Config_default)"

abbreviation answering_step ::
  "nat answer_input \<Rightarrow> (nat, QueryableEventEnvelope fifo, QueryableCommand fifo, loop_world) answering \<Rightarrow>
   (nat, QueryableEventEnvelope fifo, QueryableCommand fifo, loop_world) answering option" where
  "answering_step \<equiv> answer_step fifo_flume fifo_flume loop_env loop_queries"

text \<open>The states after the worker has opened its stream, and when the application has received the query.\<close>

definition answering_ready :: "(nat, QueryableEventEnvelope fifo, QueryableCommand fifo, loop_world) answering" where
  "answering_ready = answering_start
     \<lparr>an_queryable := (an_queryable answering_start)
        \<lparr>ev_binding := \<lparr>b_handle = Some 1, b_generation = 1, b_locked = False\<rparr>, ev_stream_ready := True,
         ev_ready_epoch := 1, ev_worker := EwReading 1 1 0\<rparr>,
      an_server := (an_server answering_start)
        \<lparr>session := loop_new\<lparr>lw_next := 3, lw_receivers := [(2, 1)]\<rparr>, next_handle := 2,
         live_clients := [(''app'', 10)],
         queryables := [(1, \<lparr>qbl_owner = ''app'', qbl_queryable = 0, qbl_events = 1\<rparr>)]\<rparr>,
      an_stream := Some (2, 0)\<rparr>"

definition answering_received :: "(nat, QueryableEventEnvelope fifo, QueryableCommand fifo, loop_world) answering" where
  "answering_received = answering_ready
     \<lparr>an_queryable := (an_queryable answering_ready)
        \<lparr>ev_queue := (ev_queue (an_queryable answering_start))\<lparr>pending := 1\<rparr>, ev_worker := EwSelect 1 1,
         qb_active := [(1, \<lparr>qi_remote_handle = 1, qi_query_id = 1\<rparr>)]\<rparr>,
      an_server := (an_server answering_ready)
        \<lparr>session := loop_new\<lparr>lw_next := 3, lw_receivers := [(2, 1)],
           lw_queries := [(2, query_event loop_env (1, arriving_query))]\<rparr>,
         next_query_id := 2,
         inflight_queries := [(1, \<lparr>ifq_owner = ''app'', ifq_handle = 1, ifq_query = arriving_query\<rparr>)]\<rparr>,
      an_stream := Some (2, 1)\<rparr>"

declare push.simps [code]

lemma answering_gets_ready:
  "run_steps answering_step (replicate 7 (EventWorker False 10 Answered StreamEnd)) answering_start = answering_ready"
  by code_simp

lemma answering_receives:
  "run_steps answering_step
     [PluginDoes (QueryArrived 1 ''app'' 1 arriving_query), EventWorker False 20 Answered (NextEvent 0), AppDo QiRecv]
     answering_ready = answering_received"
  by code_simp

lemma answering_replies:
  "lw_answers (session (an_server
     (run_steps answering_step (AppDo example_reply # replicate 6 (ReplyWorker False 30 Answered)) answering_received))) =
   [(7, AnReply ''demo/query/value'' reply_payload (Some ''text/plain'') None)]"
  by code_simp

definition answering_inputs :: "nat answer_input list" where
  "answering_inputs = replicate 7 (EventWorker False 10 Answered StreamEnd)
     @ [PluginDoes (QueryArrived 1 ''app'' 1 arriving_query), EventWorker False 20 Answered (NextEvent 0), AppDo QiRecv]
     @ AppDo example_reply # replicate 6 (ReplyWorker False 30 Answered)"

theorem answers_reach_their_query_witness:
  "lw_answers (session (an_server (run_steps answering_step answering_inputs answering_start))) =
     [(7, AnReply ''demo/query/value'' reply_payload (Some ''text/plain'') None)]
   \<and> (\<exists>q z. (q, z) \<in> set (run_log answering_step query_dispatched answering_inputs answering_start) \<and> zq_ref z = 7
        \<and> (\<exists>i \<in> set answering_inputs. answer_given loop_env i =
              Some (q, AnReply ''demo/query/value'' reply_payload (Some ''text/plain'') None)))"
proof -
  have all: "lw_answers (session (an_server (run_steps answering_step answering_inputs answering_start))) =
     [(7, AnReply ''demo/query/value'' reply_payload (Some ''text/plain'') None)]"
    unfolding answering_inputs_def run_steps_append answering_gets_ready answering_receives
    by (rule answering_replies)
  have n: "unat (next_query_id (PluginState_new loop_new Config_default)) + length answering_inputs < 2 ^ 64 - 1"
    by (simp add: PluginState_new_def answering_inputs_def)
  have "inflight_queries (PluginState_new loop_new Config_default) = []"
    "lw_answers (session (PluginState_new loop_new Config_default)) = []"
    "\<forall>r. loop_queries r (session (PluginState_new loop_new Config_default)) = []"
    by (simp_all add: PluginState_new_def loop_new_def loop_queries_def)
  from answers_reach_their_query [OF loop_qs.zenoh_queries_axioms fifo.bounded_channel_axioms
      fifo.bounded_channel_axioms this n answering_start_def refl]
  show ?thesis by (simp add: all)
qed

end
