(* ===== verification/Server_Locks.thy ===== *)
theory Server_Locks
  imports Server_Leases Client_Worker
begin

text \<open>
  The plugin between its locks. A declaration and the cleanup of a client take several locks one after
  the other and wait for Zenoh in between (\<^verbatim>\<open>declare_publisher\<close> and its like, \<^verbatim>\<open>cleanup_client\<close> and the
  cleanup task in \<^verbatim>\<open>zenoh-plugin-grpc/src/lib.rs\<close>), so other handlers run between their steps. Here each
  of them is a task that moves one lock section at a time, tasks interleave freely, and the other
  handlers, which take one lock of a table of objects after the touch of the client, are atomic as in
  \<open>Server\<close>.
  Waiting for Zenoh after the last access to a table is part of that access.

  Shown are that a task that is not disturbed does what the atomic definitions of \<open>Server\<close> say, that the
  invariant of the tables holds in every interleaving, that a cleanup releases what the client had,
  and that a declaration which overlaps a cleanup leaves an object behind that nobody will clean up.
\<close>

section \<open>Tasks\<close>

text \<open>An object that Zenoh has declared and that is not in its table yet.\<close>

datatype new_object =
    NewPublisher PublisherEntry | NewSubscriber SubscriberEntry
  | NewQueryable QueryableEntry | NewQuerier QuerierEntry

text \<open>
  A declaration: before the touch, before \<^verbatim>\<open>alloc_handle\<close>, before Zenoh's declaration, before the insertion.
  A cleanup: before the stale clients are collected, before the next client's lease is removed, before
  the handles of a table are collected, with handles to remove, before the in-flight queries are
  dropped. The list of strings holds the clients that come after.
\<close>

datatype task =
    L_Declare instant request
  | L_Alloc request
  | L_Await request u64
  | L_Insert u64 new_object
  | L_Collect instant
  | L_Clients "string list"
  | L_Scan string obj_kind "string list"
  | L_Drain string obj_kind "u64 list" "string list"
  | L_Retain string "string list"
  | L_Done

fun declare_object :: "'w env \<Rightarrow> request \<Rightarrow> 'w \<Rightarrow> new_object option \<times> 'w" where
  "declare_object E (DeclarePublisher req) w =
     (case z_declare_publisher E
        \<lparr>zpub_key_expr = dpub_key_expr req, zpub_encoding = encoding_from E (dpub_encoding req),
         zpub_congestion_control = map_congestion_control (dpub_congestion_control req),
         zpub_priority = map_priority (dpub_priority req), zpub_express = dpub_express req,
         zpub_reliability = map_reliability (dpub_reliability req),
         zpub_allowed_destination = map_locality (dpub_allowed_destination req)\<rparr> w of
        (Inl _, w) \<Rightarrow> (None, w)
      | (Inr publisher, w) \<Rightarrow>
          (Some (NewPublisher \<lparr>pub_owner = dpub_client_id req, pub_publisher = publisher\<rparr>), w))"
| "declare_object E (DeclareSubscriber req) w =
     (case z_declare_subscriber E (dsub_key_expr req) (map_locality (dsub_allowed_origin req)) 256 w of
        (Inl _, w) \<Rightarrow> (None, w)
      | (Inr subscriber, w) \<Rightarrow>
          (let (tx, w) = bc_channel E 256 w in
           (Some (NewSubscriber
              \<lparr>sub_owner = dsub_client_id req, sub_subscriber = subscriber, sub_events = tx\<rparr>), w)))"
| "declare_object E (DeclareQueryable req) w =
     (case z_declare_queryable E (dqbl_key_expr req) (dqbl_complete req)
             (map_locality (dqbl_allowed_origin req)) 256 w of
        (Inl _, w) \<Rightarrow> (None, w)
      | (Inr queryable, w) \<Rightarrow>
          (let (tx, w) = bc_channel E 256 w in
           (Some (NewQueryable
              \<lparr>qbl_owner = dqbl_client_id req, qbl_queryable = queryable, qbl_events = tx\<rparr>), w)))"
| "declare_object E (DeclareQuerier req) w =
     (case z_declare_querier E
        \<lparr>zqr_key_expr = dqr_key_expr req, zqr_target = map_query_target (dqr_target req),
         zqr_consolidation = map_consolidation (dqr_consolidation req),
         zqr_allowed_destination = map_locality (dqr_allowed_destination req),
         zqr_timeout = opt_timeout (dqr_timeout_ms req)\<rparr> w of
        (Inl _, w) \<Rightarrow> (None, w)
      | (Inr querier, w) \<Rightarrow> (Some (NewQuerier \<lparr>qr_owner = dqr_client_id req, qr_querier = querier\<rparr>), w))"
| "declare_object E _ w = (None, w)"

fun insert_object :: "'w env \<Rightarrow> u64 \<Rightarrow> new_object \<Rightarrow> 'w PluginState \<Rightarrow> 'w PluginState" where
  "insert_object E h (NewPublisher e) s = insert_publisher E h e s"
| "insert_object E h (NewSubscriber e) s = insert_subscriber E h e s"
| "insert_object E h (NewQueryable e) s = insert_queryable E h e s"
| "insert_object E h (NewQuerier e) s = insert_querier E h e s"

fun owned_handles :: "obj_kind \<Rightarrow> string \<Rightarrow> 'w PluginState \<Rightarrow> u64 list" where
  "owned_handles KPublisher c s = hm_keys_where (\<lambda>e. pub_owner e = c) (publishers s)"
| "owned_handles KSubscriber c s = hm_keys_where (\<lambda>e. sub_owner e = c) (subscribers s)"
| "owned_handles KQueryable c s = hm_keys_where (\<lambda>e. qbl_owner e = c) (queryables s)"
| "owned_handles KQuerier c s = hm_keys_where (\<lambda>e. qr_owner e = c) (queriers s)"

fun remove_objects :: "'w env \<Rightarrow> obj_kind \<Rightarrow> u64 list \<Rightarrow> 'w PluginState \<Rightarrow> 'w PluginState" where
  "remove_objects E KPublisher hs s =
     (let (m, w) = remove_entries (release_publisher E) hs (publishers s, session s) in
      s\<lparr>publishers := m, session := w\<rparr>)"
| "remove_objects E KSubscriber hs s =
     (let (m, w) = remove_entries (release_subscriber E) hs (subscribers s, session s) in
      s\<lparr>subscribers := m, session := w\<rparr>)"
| "remove_objects E KQueryable hs s =
     (let (m, w) = remove_entries (release_queryable E) hs (queryables s, session s) in
      s\<lparr>queryables := m, session := w\<rparr>)"
| "remove_objects E KQuerier hs s =
     (let (m, w) = remove_entries (release_querier E) hs (queriers s, session s) in
      s\<lparr>queriers := m, session := w\<rparr>)"

text \<open>The tables in the order of \<^verbatim>\<open>cleanup_client\<close>.\<close>

fun after_table :: "string \<Rightarrow> obj_kind \<Rightarrow> string list \<Rightarrow> task" where
  "after_table c KPublisher cs = L_Scan c KSubscriber cs"
| "after_table c KSubscriber cs = L_Scan c KQueryable cs"
| "after_table c KQueryable cs = L_Scan c KQuerier cs"
| "after_table c KQuerier cs = L_Retain c cs"

fun task_step :: "'w env \<Rightarrow> task \<Rightarrow> 'w PluginState \<Rightarrow> task \<times> 'w PluginState" where
  "task_step E (L_Declare now r) s = (L_Alloc r, touch_client now (requester r) s)"
| "task_step E (L_Alloc r) s = (let (h, s) = alloc_handle s in (L_Await r h, s))"
| "task_step E (L_Await r h) s =
     (case declare_object E r (session s) of
        (None, w) \<Rightarrow> (L_Done, s\<lparr>session := w\<rparr>)
      | (Some e, w) \<Rightarrow> (L_Insert h e, s\<lparr>session := w\<rparr>))"
| "task_step E (L_Insert h e) s = (L_Done, insert_object E h e s)"
| "task_step E (L_Collect now) s = (L_Clients (collect_stale_clients now s), s)"
| "task_step E (L_Clients []) s = (L_Done, s)"
| "task_step E (L_Clients (c # cs)) s =
     (L_Scan c KPublisher cs, s\<lparr>live_clients := hm_remove c (live_clients s)\<rparr>)"
| "task_step E (L_Scan c k cs) s = (L_Drain c k (owned_handles k c s) cs, s)"
| "task_step E (L_Drain c k [] cs) s = (after_table c k cs, s)"
| "task_step E (L_Drain c k (h # hs) cs) s = (L_Drain c k hs cs, remove_objects E k [h] s)"
| "task_step E (L_Retain c cs) s = (L_Clients cs, retain_inflight E (\<lambda>q. ifq_owner q \<noteq> c) s)"
| "task_step E L_Done s = (L_Done, s)"

section \<open>Interleaving\<close>

record 'w lock_sys =
  lk_state :: "'w PluginState"
  lk_tasks :: "task list"

definition lock_start :: "'w \<Rightarrow> Config \<Rightarrow> 'w lock_sys" where
  "lock_start w c = \<lparr>lk_state = PluginState_new w c, lk_tasks = []\<rparr>"

text \<open>
  A declaration, a tick of the cleanup task or a request to clean up a client starts a task; another
  event is handled at once; or a task moves.
\<close>

datatype lock_input =
    LkDeclare instant request | LkTick instant | LkCleanup string | LkEvent server_event | LkStep nat

fun is_declaration :: "request \<Rightarrow> bool" where
  "is_declaration (DeclarePublisher _) = True"
| "is_declaration (DeclareSubscriber _) = True"
| "is_declaration (DeclareQueryable _) = True"
| "is_declaration (DeclareQuerier _) = True"
| "is_declaration _ = False"

fun at_once :: "server_event \<Rightarrow> bool" where
  "at_once (Rpc _ (CleanupClient _)) = False"
| "at_once (Rpc _ r) = (\<not> is_declaration r)"
| "at_once (Tick _) = False"
| "at_once _ = True"

definition spawn :: "task \<Rightarrow> 'w lock_sys \<Rightarrow> 'w lock_sys" where
  "spawn t X = X\<lparr>lk_tasks := lk_tasks X @ [t]\<rparr>"

fun lock_step :: "'w env \<Rightarrow> lock_input \<Rightarrow> 'w lock_sys \<Rightarrow> 'w lock_sys option" where
  "lock_step E (LkDeclare now r) X = (if is_declaration r then Some (spawn (L_Declare now r) X) else None)"
| "lock_step E (LkTick now) X = Some (spawn (L_Collect now) X)"
| "lock_step E (LkCleanup c) X = Some (spawn (L_Clients [c]) X)"
| "lock_step E (LkEvent ev) X =
     (if at_once ev then Some (X\<lparr>lk_state := server_step E ev (lk_state X)\<rparr>) else None)"
| "lock_step E (LkStep i) X =
     (if i < length (lk_tasks X)
      then (let (t, s) = task_step E (lk_tasks X ! i) (lk_state X) in
            Some \<lparr>lk_state = s, lk_tasks = (lk_tasks X)[i := t]\<rparr>)
      else None)"

section \<open>A task that runs alone\<close>

definition task_run :: "'w env \<Rightarrow> nat \<Rightarrow> task \<times> 'w PluginState \<Rightarrow> task \<times> 'w PluginState" where
  "task_run E n = (\<lambda>(t, s). task_step E t s) ^^ n"

lemma task_run_simps [simp]:
  "task_run E 0 ts = ts" "task_run E (Suc n) (t, s) = task_run E n (task_step E t s)"
  by (simp_all add: task_run_def funpow_swap1)

lemma task_run_add: "task_run E (n + m) ts = task_run E m (task_run E n ts)"
  by (simp add: task_run_def funpow_add add.commute [of n])

lemma remove_objects_Cons: "remove_objects E k (h # hs) s = remove_objects E k hs (remove_objects E k [h] s)"
  by (cases k) (simp_all add: case_prod_beta split: option.split)

lemma drain_alone: "task_run E (Suc (length hs)) (L_Drain c k hs cs, s) = (after_table c k cs, remove_objects E k hs s)"
proof (induction hs arbitrary: s)
  case (Cons h hs)
  then show ?case by (simp add: remove_objects_Cons [of E k h hs])
qed (cases k; simp)

definition reaches :: "'w env \<Rightarrow> task \<times> 'w PluginState \<Rightarrow> task \<times> 'w PluginState \<Rightarrow> bool" where
  "reaches E ts ts' \<longleftrightarrow> (\<exists>n. task_run E n ts = ts')"

lemma reaches_run: "task_run E n ts = ts' \<Longrightarrow> reaches E ts ts'"
  by (auto simp: reaches_def)

lemma reaches_trans [trans]: "reaches E a b \<Longrightarrow> reaches E b c \<Longrightarrow> reaches E a c"
  by (auto simp: reaches_def task_run_add [symmetric])

lemma table_alone: "reaches E (L_Scan c k cs, s) (after_table c k cs, remove_objects E k (owned_handles k c s) s)"
  using drain_alone [of E "owned_handles k c s" c k cs s]
  by (intro reaches_run [where n = "Suc (Suc (length (owned_handles k c s)))"]) simp

lemma client_alone: "reaches E (L_Clients (c # cs), s) (L_Clients cs, cleanup_client E c s)"
proof -
  let ?step = "\<lambda>k s. remove_objects E k (owned_handles k c s) s"
  let ?s1 = "s\<lparr>live_clients := hm_remove c (live_clients s)\<rparr>"
  let ?s4 = "?step KQueryable (?step KSubscriber (?step KPublisher ?s1))"
  note table = table_alone [where E = E and c = c and cs = cs]
  have "reaches E (L_Clients (c # cs), s) (L_Scan c KPublisher cs, ?s1)" by (rule reaches_run [where n = 1]) simp
  also note table [where k = KPublisher and s = ?s1, unfolded after_table.simps]
  also note table [where k = KSubscriber and s = "?step KPublisher ?s1", unfolded after_table.simps]
  also note table [where k = KQueryable and s = "?step KSubscriber (?step KPublisher ?s1)", unfolded after_table.simps]
  also note table [where k = KQuerier and s = ?s4, unfolded after_table.simps]
  also have "reaches E (L_Retain c cs, ?step KQuerier ?s4) (L_Clients cs, cleanup_client E c s)"
    by (rule reaches_run [where n = 1]) (simp add: cleanup_client_def Let_def case_prod_beta)
  finally show ?thesis .
qed

lemma clients_alone: "reaches E (L_Clients cs, s) (L_Done, fold (cleanup_client E) cs s)"
proof (induction cs arbitrary: s)
  case Nil
  show ?case by (rule reaches_run [where n = 1]) simp
next
  case (Cons c cs)
  from reaches_trans [OF client_alone Cons.IH] show ?case by simp
qed

lemma declare_alone:
  assumes "is_declaration r"
  shows "reaches E (L_Declare now r, s) (L_Done, snd (handle_request E now r s))"
  by (rule reaches_run [where n = 4])
    (use assms in \<open>cases r; simp add: eval_nat_numeral handlers alloc_handle_def awaited_def Let_def case_prod_beta
       split: sum.split\<close>)


section \<open>The tables under a step\<close>

text \<open>The handle that a declaration holds and that is in no table yet.\<close>

fun pending_handle :: "task \<Rightarrow> u64 list" where
  "pending_handle (L_Await r h) = [h]"
| "pending_handle (L_Insert h e) = [h]"
| "pending_handle _ = []"

fun kind_owner :: "new_object \<Rightarrow> obj_kind \<times> string" where
  "kind_owner (NewPublisher e) = (KPublisher, pub_owner e)"
| "kind_owner (NewSubscriber e) = (KSubscriber, sub_owner e)"
| "kind_owner (NewQueryable e) = (KQueryable, qbl_owner e)"
| "kind_owner (NewQuerier e) = (KQuerier, qr_owner e)"

lemma insertable_get:
  assumes "insertable h s"
  shows "hm_get (publishers s) h = None" "hm_get (subscribers s) h = None"
    "hm_get (queryables s) h = None" "hm_get (queriers s) h = None"
  using assms by (auto simp: insertable_def set_all_handles hm_keys_get)

lemma insert_object_facts:
  assumes "insertable h s"
  shows "state_inv (insert_object E h e s)" "objects (insert_object E h e s) = (objects s)(h \<mapsto> kind_owner e)"
    "set (all_handles (insert_object E h e s)) = insert h (set (all_handles s))"
    "next_handle (insert_object E h e s) = next_handle s" "next_query_id (insert_object E h e s) = next_query_id s"
    "live_clients (insert_object E h e s) = live_clients s"
  using state_inv_insert [OF assms] insertable_get [OF assms]
  by (cases e; auto simp: objects_def kind_table_def map_add_def fun_eq_iff set_all_handles insert_publisher_def
      insert_subscriber_def insert_queryable_def insert_querier_def)+

lemma remove_objects_one:
  "\<exists>w. remove_objects E KPublisher [h] s = s\<lparr>publishers := hm_remove h (publishers s), session := w\<rparr>"
  "\<exists>w. remove_objects E KSubscriber [h] s = s\<lparr>subscribers := hm_remove h (subscribers s), session := w\<rparr>"
  "\<exists>w. remove_objects E KQueryable [h] s = s\<lparr>queryables := hm_remove h (queryables s), session := w\<rparr>"
  "\<exists>w. remove_objects E KQuerier [h] s = s\<lparr>queriers := hm_remove h (queriers s), session := w\<rparr>"
  by (auto simp: case_prod_beta remove_entries_map simp del: remove_entries.simps)

lemma remove_object_facts:
  assumes "state_inv s"
  shows "state_inv (remove_objects E k [h] s)" "objects (remove_objects E k [h] s) = forget_object k h (objects s)"
    "set (all_handles (remove_objects E k [h] s)) \<subseteq> set (all_handles s)"
    "next_handle (remove_objects E k [h] s) = next_handle s" "next_query_id (remove_objects E k [h] s) = next_query_id s"
    "live_clients (remove_objects E k [h] s) = live_clients s"
proof -
  note facts = state_inv_remove [OF assms] objects_remove [OF assms] set_all_handles
  show "state_inv (remove_objects E k [h] s)" "objects (remove_objects E k [h] s) = forget_object k h (objects s)"
    "set (all_handles (remove_objects E k [h] s)) \<subseteq> set (all_handles s)"
    "next_handle (remove_objects E k [h] s) = next_handle s" "next_query_id (remove_objects E k [h] s) = next_query_id s"
    "live_clients (remove_objects E k [h] s) = live_clients s"
    using remove_objects_one [of E h s] by (cases k; auto simp: facts simp del: remove_objects.simps)+
qed

lemma owned_handles_objects:
  assumes "state_inv s"
  shows "h \<in> set (owned_handles k c s) \<longleftrightarrow> objects s h = Some (k, c)"
  using one_table [OF assms, of h] state_inv_tables [OF assms]
  by (cases k) (auto simp: hm_keys_where_get objects_eq [OF assms] split: option.split)

lemma forget_object_get: "forget_object k h m h' = m h' \<or> forget_object k h m h' = None"
  by (auto simp: forget_object_def split: option.split)

lemma forget_lease:
  "state_inv s \<Longrightarrow> state_inv (s\<lparr>live_clients := hm_remove c (live_clients s)\<rparr>)"
  "objects (s\<lparr>live_clients := m\<rparr>) = objects s" "all_handles (s\<lparr>live_clients := m\<rparr>) = all_handles s"
  by (simp_all add: state_inv_def all_handles_def objects_def hm_ok_remove)

text \<open>What a step does to the handles, the counters and the directory of objects.\<close>

definition step_ok :: "u64 list \<Rightarrow> 'w PluginState \<Rightarrow> u64 list \<Rightarrow> 'w PluginState \<Rightarrow> bool" where
  "step_ok ps s ps' s' \<longleftrightarrow>
     state_inv s' \<and> set (all_handles s') \<subseteq> set (all_handles s) \<union> (set ps - set ps') \<and> distinct ps'
     \<and> (set ps' \<subseteq> set ps \<and> next_handle s' = next_handle s
         \<or> ps' = [next_handle s] \<and> ps = [] \<and> next_handle s' = next_handle s + 1)
     \<and> (\<forall>h. h \<notin> set ps \<longrightarrow> objects s' h = objects s h \<or> objects s' h = None)"

lemma task_step_ok:
  assumes "state_inv s" and "next_handle s \<noteq> -1" and "\<forall>h\<in>set (pending_handle t). insertable h s"
    and "task_step E t s = (t', s')"
  shows "step_ok (pending_handle t) s (pending_handle t') s' \<and> next_query_id s' = next_query_id s"
proof (cases t)
  case (L_Insert h e)
  with assms insert_object_facts [of h s E e] show ?thesis by (auto simp: step_ok_def)
next
  case (L_Drain c k hs cs)
  show ?thesis
  proof (cases hs)
    case Nil
    with L_Drain assms show ?thesis by (cases k) (auto simp: step_ok_def)
  next
    case (Cons h hs')
    with L_Drain assms(4) have "t' = L_Drain c k hs' cs" "s' = remove_objects E k [h] s" by auto
    with L_Drain remove_object_facts [OF assms(1), of E k h] forget_object_get [of k h "objects s"]
    show ?thesis by (simp add: step_ok_def)
  qed
next
  case (L_Await r h)
  with assms show ?thesis by (auto simp: step_ok_def set_all_handles insertable_def split: prod.splits option.splits)
next
  case (L_Alloc r)
  with assms state_inv_alloc [OF assms(1,2)] show ?thesis
    by (auto simp: step_ok_def alloc_handle_def set_all_handles)
next
  case (L_Clients cs)
  with assms show ?thesis
    by (cases cs) (auto simp: step_ok_def forget_lease)
next
  case (L_Declare now r)
  with assms state_inv_touch [OF assms(1), of now "requester r"] show ?thesis
    by (auto simp: step_ok_def set_all_handles)
next
  case (L_Retain c cs)
  with assms state_inv_retain_inflight [OF assms(1), of E "\<lambda>q. ifq_owner q \<noteq> c"] show ?thesis
    by (auto simp: step_ok_def set_all_handles)
qed (use assms in \<open>auto simp: step_ok_def\<close>)

lemma at_once_declares: "at_once ev \<Longrightarrow> \<not> declares ev"
  by (cases ev rule: at_once.cases) auto

lemma event_step_ok:
  assumes "state_inv s" and "next_handle s \<noteq> -1" and "next_query_id s \<noteq> -1" and "at_once ev"
  shows "step_ok [] s [] (server_step E ev s)"
proof -
  have "objects (server_step E ev s) h = objects s h \<or> objects (server_step E ev s) h = None" for h
  proof (cases ev)
    case (Rpc now r)
    with assms(4) spec_objects_holds [OF assms(1), of E now r] show ?thesis
      by (cases r) (auto simp: forget_object_get)
  qed (use assms(4) in \<open>simp_all add: objects_dispatch\<close>)
  with state_inv_step [OF assms(1-3)] step_keys(1) [OF assms(1), of E ev] at_once_declares [OF assms(4)]
  show ?thesis by (simp add: step_ok_def step_next_handle del: server_step.simps)
qed

section \<open>The invariant in every interleaving\<close>

definition pending_handles :: "'w lock_sys \<Rightarrow> u64 list" where
  "pending_handles X = concat (map pending_handle (lk_tasks X))"

text \<open>\<open>k\<close> bounds the steps that are still to come.\<close>

definition lock_inv :: "nat \<Rightarrow> 'w lock_sys \<Rightarrow> bool" where
  "lock_inv k X \<longleftrightarrow>
     state_inv (lk_state X) \<and> distinct (pending_handles X) \<and> (\<forall>h\<in>set (pending_handles X). insertable h (lk_state X))
     \<and> unat (next_handle (lk_state X)) + k < 2 ^ 64 - 1 \<and> unat (next_query_id (lk_state X)) + k < 2 ^ 64 - 1"

lemma lock_inv_counters:
  assumes "lock_inv k X"
  shows "next_handle (lk_state X) \<noteq> -1" "next_query_id (lk_state X) \<noteq> -1"
  by (rule not_exhausted [where k = k]; use assms in \<open>simp add: lock_inv_def\<close>)+

text \<open>Every step changes what at most one task holds.\<close>

lemma lock_step_ok:
  assumes "lock_step E i X = Some X'" and "lock_inv k X"
  obtains A ps ps' B where "pending_handles X = A @ ps @ B" "pending_handles X' = A @ ps' @ B"
    "step_ok ps (lk_state X) ps' (lk_state X')"
    "next_query_id (lk_state X') \<in> {next_query_id (lk_state X), next_query_id (lk_state X) + 1}"
proof (cases i)
  case (LkStep j)
  let ?ts = "lk_tasks X" let ?t = "?ts ! j"
  from LkStep assms(1) obtain t' s' where j: "j < length ?ts" and step: "task_step E ?t (lk_state X) = (t', s')"
    and X': "X' = \<lparr>lk_state = s', lk_tasks = ?ts[j := t']\<rparr>" by (auto split: if_splits prod.splits)
  let ?A = "concat (map pending_handle (take j ?ts))" let ?B = "concat (map pending_handle (drop (Suc j) ?ts))"
  have "pending_handles X = ?A @ pending_handle ?t @ ?B"
    using arg_cong [OF id_take_nth_drop [OF j], of "\<lambda>ts. concat (map pending_handle ts)"]
    by (simp add: pending_handles_def)
  moreover have "pending_handles X' = ?A @ pending_handle t' @ ?B"
    by (simp add: X' pending_handles_def upd_conv_take_nth_drop [OF j])
  moreover have "step_ok (pending_handle ?t) (lk_state X) (pending_handle t') s' \<and> next_query_id s' = next_query_id (lk_state X)"
    by (rule task_step_ok [OF _ lock_inv_counters(1) [OF assms(2)] _ step])
      (use assms(2) calculation(1) in \<open>auto simp: lock_inv_def\<close>)
  ultimately show ?thesis using that X' by simp
next
  case (LkEvent ev)
  with assms have "at_once ev" and X': "X' = X\<lparr>lk_state := server_step E ev (lk_state X)\<rparr>" by (auto split: if_splits)
  with event_step_ok [OF _ lock_inv_counters [OF assms(2)]] assms(2)
  have "step_ok [] (lk_state X) [] (lk_state X')" by (simp add: lock_inv_def)
  with X' show ?thesis
    by (intro that [of "pending_handles X" "[]" "[]" "[]"]) (simp_all add: pending_handles_def step_next_query_id del: server_step.simps)
qed (use assms that [of "pending_handles X" "[]" "[]" "[]"] in
    \<open>auto simp: pending_handles_def spawn_def step_ok_def lock_inv_def split: if_splits\<close>)

lemma counters_step:
  fixes n n' :: u64
  assumes "n' \<in> {n, n + 1}" and "unat n + Suc k < 2 ^ 64 - 1"
  shows "unat n' + k < 2 ^ 64 - 1"
  using assms not_exhausted [OF assms(2)] by (auto simp: unat_Suc_u64)

text \<open>What a step keeps of the handles of all tasks: \<open>A\<close> and \<open>B\<close> are those of the others.\<close>

lemma step_ok_pool:
  assumes "step_ok ps s ps' s'" and "state_inv s" and "next_handle s \<noteq> -1"
    and "distinct (A @ ps @ B)" and "\<forall>h\<in>set (A @ ps @ B). insertable h s"
  shows "distinct (A @ ps' @ B)" and "h \<in> set (A @ ps' @ B) \<Longrightarrow> insertable h s'"
proof -
  note nh = assms(3) and less [simp] = u64_self_less_Suc [OF assms(3)]
  have new: "next_handle s \<notin> set (all_handles s)" by (rule state_inv_alloc(2) [OF assms(2,3)])
  have grow: "h < next_handle s'" if "h < next_handle s" for h
    using that assms(1) u64_less_Suc [OF that nh] by (auto simp: step_ok_def)
  have used: "h \<notin> set (all_handles s')" if "h \<notin> set (all_handles s)" "h \<in> set ps \<longrightarrow> h \<in> set ps'" for h
    using that assms(1) by (auto simp: step_ok_def)
  have inv: "state_inv s'" using assms(1) by (simp add: step_ok_def)
  consider "set ps' \<subseteq> set ps" | "ps' = [next_handle s]" "ps = []" "next_handle s' = next_handle s + 1"
    using assms(1) by (auto simp: step_ok_def)
  then show "distinct (A @ ps' @ B)"
    using assms(1,4,5) by cases (auto simp: step_ok_def insertable_def)
  assume h: "h \<in> set (A @ ps' @ B)"
  show "insertable h s'"
  proof (cases "h \<in> set (A @ ps @ B)")
    case True
    then have "insertable h s" "h \<in> set ps \<longrightarrow> h \<in> set ps'" using h assms(4,5) by auto
    with inv used grow show ?thesis by (simp add: insertable_def)
  next
    case False
    with h assms(1) have "h = next_handle s" "ps = []" "next_handle s' = next_handle s + 1" by (auto simp: step_ok_def)
    with inv used new show ?thesis by (simp add: insertable_def)
  qed
qed

lemma lock_inv_step:
  assumes "lock_step E i X = Some X'" and "lock_inv (Suc k) X"
  shows "lock_inv k X'"
proof -
  note inv = assms(2) [unfolded lock_inv_def] and nh = lock_inv_counters(1) [OF assms(2)]
  from lock_step_ok [OF assms] obtain A ps ps' B where
    ps: "pending_handles X = A @ ps @ B" "pending_handles X' = A @ ps' @ B" "step_ok ps (lk_state X) ps' (lk_state X')"
    "next_query_id (lk_state X') \<in> {next_query_id (lk_state X), next_query_id (lk_state X) + 1}" .
  then have n: "next_handle (lk_state X') \<in> {next_handle (lk_state X), next_handle (lk_state X) + 1}"
    by (auto simp: step_ok_def)
  have "distinct (A @ ps' @ B)" "\<forall>h\<in>set (A @ ps' @ B). insertable h (lk_state X')"
    using step_ok_pool [OF ps(3) _ nh, of A B] inv unfolding ps(1) by blast+
  moreover have "state_inv (lk_state X')" using ps(3) by (simp add: step_ok_def)
  ultimately show ?thesis
    using inv counters_step [OF n] counters_step [OF ps(4)] unfolding lock_inv_def ps(2) by blast
qed

lemma lock_inv_weaken: "lock_inv k X \<Longrightarrow> j \<le> k \<Longrightarrow> lock_inv j X"
  by (auto simp: lock_inv_def)

lemma lock_inv_run: "lock_inv (length is + k) X \<Longrightarrow> lock_inv k (run_steps (lock_step E) is X)"
proof (induction "is" arbitrary: X)
  case (Cons i "is")
  then have "lock_inv (length is + k) (step_or_stay (lock_step E) i X)"
    by (auto simp: step_or_stay_def split: option.split intro: lock_inv_weaken lock_inv_step)
  from Cons.IH [OF this] show ?case by simp
qed simp

lemma lock_inv_start: "k < 2 ^ 64 - 2 \<Longrightarrow> lock_inv k (lock_start w c)"
  by (simp add: lock_inv_def lock_start_def pending_handles_def initial_state)

lemma lock_reached: "length is + k < 2 ^ 64 - 2 \<Longrightarrow> lock_inv k (run_steps (lock_step E) is (lock_start w c))"
  by (rule lock_inv_run) (rule lock_inv_start)

text \<open>
  C4: the tables stay well formed between the locks. In every interleaving of lock sections of
  declarations, cleanups and other handlers, of fewer than \<open>2 ^ 64 - 2\<close> steps, the invariant of the
  tables holds, and the handles that declarations hold while they wait for Zenoh are pairwise
  different and in no table, so that no insertion replaces an entry.
\<close>

theorem interleaved_state_inv:
  assumes "length is < 2 ^ 64 - 2" and "X = run_steps (lock_step E) is (lock_start w c)"
  shows "state_inv (lk_state X) \<and> distinct (pending_handles X)
    \<and> set (pending_handles X) \<inter> set (all_handles (lk_state X)) = {}"
  using lock_reached [of "is" 0 E w c] assms by (auto simp: lock_inv_def insertable_def)

section \<open>What an interleaved cleanup achieves\<close>

text \<open>A handle that was given out and is not held by a waiting declaration can only lose its object.\<close>

definition settled :: "u64 \<Rightarrow> 'w lock_sys \<Rightarrow> bool" where
  "settled h X \<longleftrightarrow> h < next_handle (lk_state X) \<and> h \<notin> set (pending_handles X)"

lemma settled_step:
  assumes "lock_step E i X = Some X'" and "lock_inv k X" and "settled h X"
  shows "settled h X'" "objects (lk_state X') h = objects (lk_state X) h \<or> objects (lk_state X') h = None"
proof -
  from lock_step_ok [OF assms(1,2)] obtain A ps ps' B where
    ps: "pending_handles X = A @ ps @ B" "pending_handles X' = A @ ps' @ B" "step_ok ps (lk_state X) ps' (lk_state X')" .
  with assms(3) show "objects (lk_state X') h = objects (lk_state X) h \<or> objects (lk_state X') h = None"
    by (auto simp: step_ok_def settled_def)
  from ps assms(3) u64_less_Suc [OF _ lock_inv_counters(1) [OF assms(2)], of h] show "settled h X'"
    by (auto simp: step_ok_def settled_def)
qed

lemma object_handle: "objects s h = Some x \<Longrightarrow> h \<in> set (all_handles s)"
  by (auto simp: objects_def kind_table_def set_all_handles hm_keys_get map_add_def split: option.splits)

lemma object_settled: "lock_inv k X \<Longrightarrow> objects (lk_state X) h = Some x \<Longrightarrow> settled h X"
  using object_handle [of "lk_state X" h x] by (auto simp: settled_def lock_inv_def insertable_def state_inv_def)

fun tables_before :: "obj_kind \<Rightarrow> obj_kind set" where
  "tables_before KPublisher = {}"
| "tables_before KSubscriber = {KPublisher}"
| "tables_before KQueryable = {KPublisher, KSubscriber}"
| "tables_before KQuerier = {KPublisher, KSubscriber, KQueryable}"

text \<open>How far the cleanup of \<open>c\<close> has come with the handles \<open>H\<close>; \<open>m\<close> is the directory of objects.\<close>

fun cleaning :: "string \<Rightarrow> string list \<Rightarrow> u64 set \<Rightarrow> directory \<Rightarrow> task \<Rightarrow> bool" where
  "cleaning c cs H m (L_Clients ds) = (ds = c # cs)"
| "cleaning c cs H m (L_Scan d k ds) =
     (d = c \<and> ds = cs \<and> (\<forall>h\<in>H. \<forall>k'\<in>tables_before k. m h \<noteq> Some (k', c)))"
| "cleaning c cs H m (L_Drain d k hs ds) =
     (d = c \<and> ds = cs \<and> (\<forall>h\<in>H. (\<forall>k'\<in>tables_before k. m h \<noteq> Some (k', c)) \<and> (m h = Some (k, c) \<longrightarrow> h \<in> set hs)))"
| "cleaning c cs H m _ = False"

definition cleaned :: "string \<Rightarrow> u64 set \<Rightarrow> directory \<Rightarrow> bool" where
  "cleaned c H m \<longleftrightarrow> (\<forall>h\<in>H. \<forall>k. m h \<noteq> Some (k, c))"

lemma cleaning_mono:
  assumes "\<forall>h\<in>H. m' h = m h \<or> m' h = None"
  shows "cleaning c cs H m t \<Longrightarrow> cleaning c cs H m' t" "cleaned c H m \<Longrightarrow> cleaned c H m'"
proof -
  have m: "\<forall>h\<in>H. \<forall>x. m' h = Some x \<longrightarrow> m h = Some x" using assms by (metis option.distinct(1))
  show "cleaning c cs H m t \<Longrightarrow> cleaning c cs H m' t"
    by (cases t) (simp_all, use m in \<open>blast+\<close>)
  show "cleaned c H m \<Longrightarrow> cleaned c H m'" using m unfolding cleaned_def by blast
qed

lemma all_kinds: "(\<forall>k. P k) \<longleftrightarrow> P KPublisher \<and> P KSubscriber \<and> P KQueryable \<and> P KQuerier"
  by (metis obj_kind.exhaust)

lemma cleaning_step:
  assumes "state_inv s" and "task_step E t s = (t', s')" and "cleaning c cs H (objects s) t"
  shows "cleaning c cs H (objects s') t' \<or> cleaned c H (objects s')"
proof (cases t)
  case (L_Drain d k hs ds)
  show ?thesis
  proof (cases hs)
    case Nil
    with L_Drain assms(2,3) show ?thesis by (cases k) (auto simp: cleaned_def all_kinds)
  next
    case (Cons h hs')
    with L_Drain assms(2) have t': "t' = L_Drain d k hs' ds" "s' = remove_objects E k [h] s" by auto
    have "objects s' = forget_object k h (objects s)" unfolding t' by (rule remove_object_facts(2) [OF assms(1)])
    with L_Drain Cons t' assms(3) show ?thesis by (auto simp: forget_object_def split: option.splits if_splits)
  qed
next
  case (L_Scan d k ds)
  with assms show ?thesis by (auto simp: owned_handles_objects)
next
  case (L_Clients ds)
  with assms show ?thesis by (auto simp: forget_lease)
qed (use assms(3) in simp_all)

definition cleanup_progress :: "string \<Rightarrow> string list \<Rightarrow> nat \<Rightarrow> directory \<Rightarrow> 'w lock_sys \<Rightarrow> bool" where
  "cleanup_progress c cs i m X \<longleftrightarrow>
     (let H = {h. \<exists>k. m h = Some (k, c)}; n = objects (lk_state X) in
      i < length (lk_tasks X) \<and> (\<forall>h\<in>H. settled h X \<and> (n h = m h \<or> n h = None))
      \<and> (cleaning c cs H n (lk_tasks X ! i) \<or> cleaned c H n))"

lemma lock_step_task:
  assumes "lock_step E j X = Some X'" and "i < length (lk_tasks X)"
  shows "i < length (lk_tasks X')"
    and "j \<noteq> LkStep i \<Longrightarrow> lk_tasks X' ! i = lk_tasks X ! i"
    and "j = LkStep i \<Longrightarrow> task_step E (lk_tasks X ! i) (lk_state X) = (lk_tasks X' ! i, lk_state X')"
  using assms by (cases j; auto simp: spawn_def nth_append split: if_splits prod.splits)+

lemma cleanup_progress_step:
  assumes "lock_step E j X = Some X'" and "lock_inv k X" and "cleanup_progress c cs i m X"
  shows "cleanup_progress c cs i m X'"
proof -
  let ?H = "{h. \<exists>k. m h = Some (k, c)}"
  note prog = assms(3) [unfolded cleanup_progress_def Let_def]
  note i = conjunct1 [OF prog] and H = conjunct1 [OF conjunct2 [OF prog]]
  note settled = settled_step [OF assms(1,2)]
  have same: "\<forall>h\<in>?H. objects (lk_state X') h = objects (lk_state X) h \<or> objects (lk_state X') h = None"
    by (intro ballI settled(2)) (use H in simp)
  have "cleaning c cs ?H (objects (lk_state X')) (lk_tasks X' ! i) \<or> cleaned c ?H (objects (lk_state X'))"
  proof (cases "cleaned c ?H (objects (lk_state X))")
    case True
    then show ?thesis using cleaning_mono(2) [OF same] by blast
  next
    case False
    then have work: "cleaning c cs ?H (objects (lk_state X)) (lk_tasks X ! i)"
      using conjunct2 [OF conjunct2 [OF prog]] by simp
    show ?thesis
    proof (cases "j = LkStep i")
      case True
      show ?thesis
        using cleaning_step [OF _ lock_step_task(3) [OF assms(1) i True] work] assms(2) by (simp add: lock_inv_def)
    next
      case False
      then show ?thesis using cleaning_mono(1) [OF same work] lock_step_task(2) [OF assms(1) i] by simp
    qed
  qed
  moreover have "\<forall>h\<in>?H. settled h X' \<and> (objects (lk_state X') h = m h \<or> objects (lk_state X') h = None)"
  proof (intro ballI conjI)
    fix h assume h: "h \<in> ?H"
    show "settled h X'" by (rule settled(1)) (use bspec [OF H h] in simp)
    show "objects (lk_state X') h = m h \<or> objects (lk_state X') h = None"
      using bspec [OF same h] bspec [OF H h] by argo
  qed
  ultimately show ?thesis using lock_step_task(1) [OF assms(1) i] unfolding cleanup_progress_def Let_def by (intro conjI)
qed

lemma cleanup_progress_run:
  "lock_inv (length is + k) X \<Longrightarrow> cleanup_progress c cs i m X \<Longrightarrow>
   cleanup_progress c cs i m (run_steps (lock_step E) is X)"
proof (induction "is" arbitrary: X)
  case (Cons j "is")
  show ?case
  proof (cases "lock_step E j X")
    case None
    with Cons show ?thesis by (simp add: step_or_stay_def lock_inv_weaken)
  next
    case (Some X')
    with Cons lock_inv_step [OF Some, of "length is + k"] cleanup_progress_step [OF Some Cons.prems]
    show ?thesis by (simp add: step_or_stay_def)
  qed
qed simp

text \<open>
  C11: a cleanup releases what the client had, whatever runs meanwhile. Let task \<open>i\<close> be about to clean up
  client \<open>c\<close> in a state of any interleaving, and let it have come to the clients after \<open>c\<close> later on. Then
  no object that \<open>c\<close> had at the start is left, whatever other declarations, cleanups and requests ran
  in between; this is so even if \<open>c\<close> was heard from after the cleanup task had found it stale.
\<close>

theorem interleaved_cleanup_releases:
  assumes "length is + length js < 2 ^ 64 - 2" and "X = run_steps (lock_step E) is (lock_start w cfg)"
    and "i < length (lk_tasks X)" and "lk_tasks X ! i = L_Clients (c # cs)"
    and "Y = run_steps (lock_step E) js X" and "lk_tasks Y ! i = L_Clients cs"
    and "objects (lk_state X) h = Some (k, c)"
  shows "objects (lk_state Y) h = None"
proof -
  let ?m = "objects (lk_state X)"
  have inv: "lock_inv (length js + 0) X"
    unfolding assms(2) by (rule lock_reached) (use assms(1) in simp)
  have "cleanup_progress c cs i ?m X"
    using assms(3,4) object_settled [OF inv] by (auto simp: cleanup_progress_def)
  from cleanup_progress_run [OF inv this, of E] have prog: "cleanup_progress c cs i ?m Y" by (simp add: assms(5))
  then have "cleaned c {h. \<exists>k. ?m h = Some (k, c)} (objects (lk_state Y))"
    using assms(6) by (simp add: cleanup_progress_def Let_def)
  moreover have "objects (lk_state Y) h = ?m h \<or> objects (lk_state Y) h = None"
    using prog assms(7) by (auto simp: cleanup_progress_def Let_def)
  ultimately show ?thesis using assms(7) unfolding cleaned_def by force
qed

section \<open>A declaration that overlaps a cleanup\<close>

text \<open>Inputs that neither come from client \<open>c\<close> nor ask for its cleanup, nor undeclare handle \<open>h\<close>.\<close>

fun silent :: "string \<Rightarrow> u64 \<Rightarrow> lock_input \<Rightarrow> bool" where
  "silent c h (LkDeclare now r) = (requester r \<noteq> c)"
| "silent c h (LkCleanup d) = (d \<noteq> c)"
| "silent c h (LkEvent (Rpc now r)) = (requester r \<noteq> c \<and> \<not> undeclares h r)"
| "silent c h _ = True"

text \<open>Tasks that will renew the lease of \<open>c\<close>, clean it up or remove \<open>h\<close>.\<close>

fun concerns :: "string \<Rightarrow> u64 \<Rightarrow> task \<Rightarrow> bool" where
  "concerns c h (L_Declare now r) = (requester r = c)"
| "concerns c h (L_Clients cs) = (c \<in> set cs)"
| "concerns c h (L_Scan d k cs) = (d = c \<or> c \<in> set cs)"
| "concerns c h (L_Drain d k hs cs) = (d = c \<or> c \<in> set cs \<or> h \<in> set hs)"
| "concerns c h (L_Retain d cs) = (c \<in> set cs)"
| "concerns c h _ = False"

definition leaked :: "string \<Rightarrow> u64 \<Rightarrow> obj_kind \<Rightarrow> 'w lock_sys \<Rightarrow> bool" where
  "leaked c h k X \<longleftrightarrow>
     objects (lk_state X) h = Some (k, c) \<and> c \<notin> hm_keys (live_clients (lk_state X))
     \<and> (\<forall>t\<in>set (lk_tasks X). \<not> concerns c h t)"

lemma leaked_task:
  assumes "state_inv s" and "task_step E t s = (t', s')" and "\<not> concerns c h t" and "h \<notin> set (pending_handle t)"
    and "\<forall>h\<in>set (pending_handle t). insertable h s"
    and "objects s h = Some (k, c)" and "c \<notin> hm_keys (live_clients s)"
  shows "objects s' h = Some (k, c) \<and> c \<notin> hm_keys (live_clients s') \<and> \<not> concerns c h t'"
proof (cases t)
  case (L_Insert h' e)
  with assms insert_object_facts [of h' s E e] show ?thesis by auto
next
  case (L_Drain d k' hs cs)
  show ?thesis
  proof (cases hs)
    case Nil
    with L_Drain assms show ?thesis by (cases k') auto
  next
    case (Cons h' hs')
    with L_Drain assms(2) have t': "t' = L_Drain d k' hs' cs" "s' = remove_objects E k' [h'] s" by auto
    with L_Drain Cons assms remove_object_facts(2,6) [OF assms(1), of E k' h'] show ?thesis
      by (auto simp: forget_object_def split: option.splits)
  qed
next
  case (L_Scan d k' cs)
  with assms show ?thesis by (auto simp: owned_handles_objects)
next
  case (L_Clients cs)
  with assms show ?thesis by (cases cs) (auto simp: forget_lease)
next
  case (L_Collect now)
  with assms show ?thesis by (auto simp: collect_stale_clients_def hm_keys_where_def hm_keys_def)
qed (use assms in \<open>auto simp: alloc_handle_def retain_inflight_fields split: prod.splits option.splits\<close>)

lemma leaked_event:
  assumes "state_inv s" and "at_once ev" and "silent c h (LkEvent ev)"
    and "objects s h = Some (k, c)" and "c \<notin> hm_keys (live_clients s)"
  shows "objects (server_step E ev s) h = Some (k, c) \<and> c \<notin> hm_keys (live_clients (server_step E ev s))"
proof (cases ev)
  case (Rpc now r)
  have "\<not> cleans_up c r" using Rpc assms(2) by (cases r) auto
  moreover have "live_clients (server_step E ev s) = hm_insert (requester r) now (live_clients s)"
    using Rpc assms(2) request_live [of r E now s] by (cases r) auto
  ultimately show ?thesis
    using Rpc assms spec_answer_holds [OF assms(1), of r E now] spec_objects_holds [OF assms(1), of E now r]
    by (auto simp: spec_objects_keeps)
qed (use assms in \<open>simp_all add: objects_dispatch queryable_dispatch_def dispatch_store_def dispatch_send_def
    alloc_query_id_def subscriber_forward_def objects_def split: option.split\<close>)

lemma leaked_step:
  assumes "lock_step E i X = Some X'" and "lock_inv k' X" and "silent c h i" and "leaked c h k X"
  shows "leaked c h k X'"
proof (cases i)
  case (LkStep j)
  let ?ts = "lk_tasks X"
  from LkStep assms(1) obtain t' s' where j: "j < length ?ts" and step: "task_step E (?ts ! j) (lk_state X) = (t', s')"
    and X': "X' = \<lparr>lk_state = s', lk_tasks = ?ts[j := t']\<rparr>" by (auto split: if_splits prod.splits)
  note leak = assms(4) [unfolded leaked_def]
  have pending: "set (pending_handle (?ts ! j)) \<subseteq> set (pending_handles X)"
    using nth_mem [OF j] by (auto simp: pending_handles_def)
  have "h \<notin> set (pending_handles X)"
    using object_settled [OF assms(2)] leak by (simp add: settled_def)
  then have "objects s' h = Some (k, c) \<and> c \<notin> hm_keys (live_clients s') \<and> \<not> concerns c h t'"
    using leak assms(2) pending j by (intro leaked_task [OF _ step]) (auto simp: lock_inv_def)
  with leak show ?thesis
    using set_update_subset_insert [of ?ts j t'] unfolding leaked_def X' by auto
next
  case (LkEvent ev)
  with assms leaked_event [of "lk_state X" ev c h k E] show ?thesis
    by (auto simp: leaked_def lock_inv_def split: if_splits)
qed (use assms in \<open>auto simp: leaked_def spawn_def split: if_splits\<close>)

lemma leaked_run:
  "lock_inv (length is) X \<Longrightarrow> list_all (silent c h) is \<Longrightarrow> leaked c h k X \<Longrightarrow>
   leaked c h k (run_steps (lock_step E) is X)"
proof (induction "is" arbitrary: X)
  case (Cons i "is")
  show ?case
  proof (cases "lock_step E i X")
    case None
    with Cons show ?thesis by (simp add: step_or_stay_def lock_inv_weaken)
  next
    case (Some X')
    with Cons lock_inv_step [OF Some, of "length is"] leaked_step [OF Some Cons.prems(1), of c h k]
    show ?thesis by (simp add: step_or_stay_def)
  qed
qed simp

lemma declare_object_owner: "declare_object E r w = (Some e, w') \<Longrightarrow> snd (kind_owner e) = requester r"
  by (cases r) (auto split: prod.splits sum.splits)

text \<open>
  A client declares an object; while Zenoh works on it, a request to clean up the same client (its
  session is being closed) runs to its end; then the declaration goes on.
\<close>

definition overlap :: "instant \<Rightarrow> request \<Rightarrow> lock_input list" where
  "overlap now r =
     [LkDeclare now r, LkStep 0, LkStep 0, LkStep 0, LkCleanup (requester r)] @ replicate 11 (LkStep 1) @ [LkStep 0]"

lemma overlap_state:
  assumes "is_declaration r" and "declare_object E r w = (Some e, w')"
    and "X = run_steps (lock_step E) (overlap now r) (lock_start w cfg)"
  shows "lk_state X = insert_object E 1 e ((PluginState_new w' cfg)\<lparr>next_handle := 2\<rparr>)" "lk_tasks X = [L_Done, L_Done]"
  using assms
  by (simp_all add: overlap_def step_or_stay_def lock_start_def spawn_def eval_nat_numeral PluginState_new_def
      touch_client_def alloc_handle_def hm_insert_def hm_remove_def hm_keys_where_def retain_inflight_def
      hm_retain_def hm_values_where_def)


section \<open>Witnesses\<close>

definition a_declaration :: request where
  "a_declaration = DeclarePublisher (declare_request ''a'' ''k/a'')"

lemma a_declaration_object:
  "\<exists>e w'. declare_object log_env a_declaration [] = (Some e, w')"
  by (simp add: a_declaration_def log_env_def log_ref_def)


theorem interleaved_state_inv_witness:
  "length (overlap 0 a_declaration) < 2 ^ 64 - 2
   \<and> state_inv (lk_state (run_steps (lock_step log_env) (overlap 0 a_declaration) (lock_start [] Config_default)))"
proof -
  have len: "length (overlap 0 a_declaration) < 2 ^ 64 - 2" by (simp add: overlap_def)
  with interleaved_state_inv [OF len refl, of log_env "[]" Config_default] show ?thesis by blast
qed

definition declared_then_cleanup :: "z_call list lock_sys" where
  "declared_then_cleanup =
     run_steps (lock_step log_env) ([LkDeclare 0 a_declaration] @ replicate 4 (LkStep 0) @ [LkCleanup ''a''])
       (lock_start [] Config_default)"

definition cleanup_with_heartbeat :: "lock_input list" where
  "cleanup_with_heartbeat = [LkStep 1, LkEvent (Rpc 5 (TouchClient ''a''))] @ replicate 10 (LkStep 1)"

lemmas lock_eval = declared_then_cleanup_def cleanup_with_heartbeat_def a_declaration_def declare_request_def
  step_or_stay_def lock_start_def spawn_def eval_nat_numeral PluginState_new_def touch_client_def alloc_handle_def
  hm_insert_def hm_remove_def hm_keys_where_def retain_inflight_def hm_retain_def hm_values_where_def log_env_def
  log_ref_def insert_publisher_def replaced_def hm_get_def release_publisher_def session_touch_client_def

lemma cleanup_with_heartbeat_tasks:
  "lk_tasks declared_then_cleanup = [L_Done, L_Clients [''a'']]"
  "publishers (lk_state declared_then_cleanup) = [(1, \<lparr>pub_owner = ''a'', pub_publisher = 0\<rparr>)]"
  "lk_tasks (run_steps (lock_step log_env) cleanup_with_heartbeat declared_then_cleanup) = [L_Done, L_Clients []]"
  by (simp_all add: lock_eval)

theorem interleaved_cleanup_releases_witness:
  "objects (lk_state declared_then_cleanup) 1 = Some (KPublisher, ''a'')
   \<and> objects (lk_state (run_steps (lock_step log_env) cleanup_with_heartbeat declared_then_cleanup)) 1 = None"
proof -
  let ?is = "[LkDeclare 0 a_declaration] @ replicate 4 (LkStep 0) @ [LkCleanup ''a'']"
  have len: "length ?is + length cleanup_with_heartbeat < 2 ^ 64 - 2" by (simp add: cleanup_with_heartbeat_def)
  have "lock_inv 0 declared_then_cleanup" unfolding declared_then_cleanup_def by (rule lock_reached) simp
  then have "state_inv (lk_state declared_then_cleanup)" by (simp add: lock_inv_def)
  from objects_at(1) [OF this, of 1 "\<lparr>pub_owner = ''a'', pub_publisher = 0\<rparr>"]
  have obj: "objects (lk_state declared_then_cleanup) 1 = Some (KPublisher, ''a'')"
    by (simp add: cleanup_with_heartbeat_tasks hm_get_def)
  from interleaved_cleanup_releases [OF len declared_then_cleanup_def, of 1 "''a''" "[]" _ 1 KPublisher] obj
  show ?thesis by (simp add: cleanup_with_heartbeat_tasks)
qed


end
