(* ===== verification/C_Memory.thy ===== *)
theory C_Memory
  imports Messages
begin

text \<open>
  The memory side of the C wrapper (\<^verbatim>\<open>zenoh-grpc-c/src/lib.rs\<close>): the strings and byte buffers that cross
  the boundary, the C structures that hold them, and the functions that fill, clear and free them.

  Memory is a partial map from addresses to blocks; address \<open>0\<close> is the null pointer. A block is a
  nul-terminated string or the buffer of a vector with its capacity. An operation on memory either
  succeeds with a new memory or faults: \<open>Panic\<close> is a Rust panic, \<open>Invalid\<close> an access or a deallocation
  that is undefined behaviour (a block that is not there or of another kind, a wrong capacity). A
  structure that is passed by pointer is its record, or \<open>None\<close> for a null pointer.
\<close>

section \<open>Memory\<close>

type_synonym addr = nat

datatype block = StrBlock string | BytesBlock bytes nat

record memory =
  blocks :: "addr \<rightharpoonup> block"
  next_addr :: addr

datatype fault = Panic | Invalid

type_synonym 'a mem_op = "memory \<Rightarrow> fault + 'a \<times> memory"

definition done_with :: "'a \<Rightarrow> 'a mem_op" where
  "done_with x = (\<lambda>h. Inr (x, h))"

definition and_then :: "'a mem_op \<Rightarrow> ('a \<Rightarrow> 'b mem_op) \<Rightarrow> 'b mem_op" where
  "and_then m f = (\<lambda>h. case m h of Inl e \<Rightarrow> Inl e | Inr (x, h') \<Rightarrow> f x h')"

definition allocate :: "block \<Rightarrow> addr mem_op" where
  "allocate b = (\<lambda>h.
     Inr (next_addr h, h\<lparr>blocks := (blocks h)(next_addr h \<mapsto> b), next_addr := Suc (next_addr h)\<rparr>))"

definition release :: "addr \<Rightarrow> unit mem_op" where
  "release p = (\<lambda>h. Inr ((), h\<lparr>blocks := (blocks h)(p := None)\<rparr>))"

section \<open>UTF-8\<close>

text \<open>
  \<^verbatim>\<open>to_string_lossy\<close>: every maximal ill-formed part of a sequence of bytes becomes the replacement
  character. \<open>utf8_more b\<close> is the number of continuation bytes that \<open>b\<close> announces (\<open>None\<close> if it cannot
  start a character), \<open>utf8_second\<close> the bytes allowed after it.
\<close>

definition utf8_more :: "nat \<Rightarrow> nat option" where
  "utf8_more b =
     (if b < 128 then Some 0
      else if 194 \<le> b \<and> b \<le> 223 then Some 1
      else if 224 \<le> b \<and> b \<le> 239 then Some 2
      else if 240 \<le> b \<and> b \<le> 244 then Some 3
      else None)"

definition utf8_second :: "nat \<Rightarrow> nat \<Rightarrow> bool" where
  "utf8_second b c =
     (if b = 224 then 160 \<le> c \<and> c \<le> 191
      else if b = 237 then 128 \<le> c \<and> c \<le> 159
      else if b = 240 then 144 \<le> c \<and> c \<le> 191
      else if b = 244 then 128 \<le> c \<and> c \<le> 143
      else 128 \<le> c \<and> c \<le> 191)"

text \<open>The continuation bytes that are present, at most \<open>n\<close>.\<close>

fun utf8_tail :: "nat \<Rightarrow> nat \<Rightarrow> nat list \<Rightarrow> nat list" where
  "utf8_tail b 0 cs = []"
| "utf8_tail b (Suc n) [] = []"
| "utf8_tail b (Suc n) (c # cs) =
     (if utf8_second b c then c # takeWhile (\<lambda>d. 128 \<le> d \<and> d \<le> 191) (take n cs) else [])"

function utf8_lossy :: "nat list \<Rightarrow> nat list" where
  "utf8_lossy [] = []"
| "utf8_lossy (b # bs) =
     (case utf8_more b of
        None \<Rightarrow> [239, 191, 189] @ utf8_lossy bs
      | Some n \<Rightarrow>
          (let t = utf8_tail b n bs in
           (if length t = n then b # t else [239, 191, 189]) @ utf8_lossy (drop (length t) bs)))"
  by pat_completeness auto
termination by (relation "measure length") auto

definition to_string_lossy :: "string \<Rightarrow> string" where
  "to_string_lossy s = map char_of (utf8_lossy (map of_char s))"

section \<open>Strings and buffers\<close>

definition cstr :: "addr \<Rightarrow> string mem_op" where
  "cstr p = (\<lambda>h.
     if p = 0 then Inr ([], h)
     else case blocks h p of Some (StrBlock s) \<Rightarrow> Inr (to_string_lossy s, h) | _ \<Rightarrow> Inl Invalid)"

definition payload_vec :: "addr \<Rightarrow> nat \<Rightarrow> bytes mem_op" where
  "payload_vec p len = (\<lambda>h.
     if p = 0 \<or> len = 0 then Inr ([], h)
     else case blocks h p of
            Some (BytesBlock b _) \<Rightarrow> if len \<le> length b then Inr (take len b, h) else Inl Invalid
          | _ \<Rightarrow> Inl Invalid)"

text \<open>\<^verbatim>\<open>CString::new(value).unwrap()\<close> panics on a string with an interior nul byte.\<close>

definition into_c_string :: "string \<Rightarrow> addr mem_op" where
  "into_c_string value =
     (if value = [] then done_with 0
      else if CHR 0x00 \<in> set value then (\<lambda>h. Inl Panic)
      else allocate (StrBlock value))"

text \<open>
  The vectors that the wrapper turns into buffers are fresh copies (\<^verbatim>\<open>clone\<close> or \<^verbatim>\<open>to_vec\<close>), whose
  capacity is their length.
\<close>

definition into_c_bytes :: "bytes \<Rightarrow> (addr \<times> nat) mem_op" where
  "into_c_bytes b =
     (if b = [] then done_with (0, 0)
      else and_then (allocate (BytesBlock b (length b))) (\<lambda>p. done_with (p, length b)))"

definition zgrpc_string_free :: "addr \<Rightarrow> unit mem_op" where
  "zgrpc_string_free p = (\<lambda>h.
     if p = 0 then Inr ((), h)
     else case blocks h p of Some (StrBlock _) \<Rightarrow> release p h | _ \<Rightarrow> Inl Invalid)"

definition zgrpc_bytes_free :: "addr \<Rightarrow> nat \<Rightarrow> unit mem_op" where
  "zgrpc_bytes_free p len = (\<lambda>h.
     if p = 0 then Inr ((), h)
     else case blocks h p of
            Some (BytesBlock b cap) \<Rightarrow> if cap = len then release p h else Inl Invalid
          | _ \<Rightarrow> Inl Invalid)"

section \<open>Structures\<close>

record zgrpc_sample_t =
  cs_key_expr :: addr
  cs_payload :: addr
  cs_payload_len :: nat

record zgrpc_query_t =
  cq_query_id :: u64
  cq_key_expr :: addr
  cq_parameters :: addr
  cq_payload :: addr
  cq_payload_len :: nat

record zgrpc_reply_t =
  cr_is_error :: int
  cr_key_expr :: addr
  cr_payload :: addr
  cr_payload_len :: nat

record zgrpc_source_info_t =
  ci_is_valid :: int
  ci_id :: addr
  ci_sequence :: u64

record zgrpc_sample_ex_t =
  cx_key_expr :: addr
  cx_payload :: addr
  cx_payload_len :: nat
  cx_encoding :: addr
  cx_kind :: i32
  cx_attachment :: addr
  cx_attachment_len :: nat
  cx_timestamp :: addr
  cx_source_info :: zgrpc_source_info_t

record zgrpc_subscriber_event_t =
  ce_has_sample :: int
  ce_sample :: zgrpc_sample_ex_t

record zgrpc_query_ex_t =
  cy_query_id :: u64
  cy_selector :: addr
  cy_key_expr :: addr
  cy_parameters :: addr
  cy_payload :: addr
  cy_payload_len :: nat
  cy_encoding :: addr
  cy_attachment :: addr
  cy_attachment_len :: nat

record zgrpc_reply_error_t =
  cf_payload :: addr
  cf_payload_len :: nat
  cf_encoding :: addr

record zgrpc_reply_ex_t =
  cz_has_sample :: int
  cz_sample :: zgrpc_sample_ex_t
  cz_has_error :: int
  cz_error :: zgrpc_reply_error_t

section \<open>Clearing\<close>

definition clear_source_info :: "zgrpc_source_info_t \<Rightarrow> zgrpc_source_info_t" where
  "clear_source_info i = i\<lparr>ci_is_valid := 0, ci_id := 0, ci_sequence := 0\<rparr>"

definition clear_sample :: "zgrpc_sample_t \<Rightarrow> zgrpc_sample_t" where
  "clear_sample s = s\<lparr>cs_key_expr := 0, cs_payload := 0, cs_payload_len := 0\<rparr>"

definition clear_query :: "zgrpc_query_t \<Rightarrow> zgrpc_query_t" where
  "clear_query q =
     q\<lparr>cq_query_id := 0, cq_key_expr := 0, cq_parameters := 0, cq_payload := 0, cq_payload_len := 0\<rparr>"

definition clear_reply :: "zgrpc_reply_t \<Rightarrow> zgrpc_reply_t" where
  "clear_reply r = r\<lparr>cr_is_error := 0, cr_key_expr := 0, cr_payload := 0, cr_payload_len := 0\<rparr>"

definition clear_sample_ex :: "zgrpc_sample_ex_t \<Rightarrow> zgrpc_sample_ex_t" where
  "clear_sample_ex s =
     s\<lparr>cx_key_expr := 0, cx_payload := 0, cx_payload_len := 0, cx_encoding := 0, cx_kind := 0,
       cx_attachment := 0, cx_attachment_len := 0, cx_timestamp := 0,
       cx_source_info := clear_source_info (cx_source_info s)\<rparr>"

definition clear_subscriber_event :: "zgrpc_subscriber_event_t \<Rightarrow> zgrpc_subscriber_event_t" where
  "clear_subscriber_event e = e\<lparr>ce_has_sample := 0, ce_sample := clear_sample_ex (ce_sample e)\<rparr>"

definition clear_query_ex :: "zgrpc_query_ex_t \<Rightarrow> zgrpc_query_ex_t" where
  "clear_query_ex q =
     q\<lparr>cy_query_id := 0, cy_selector := 0, cy_key_expr := 0, cy_parameters := 0, cy_payload := 0,
       cy_payload_len := 0, cy_encoding := 0, cy_attachment := 0, cy_attachment_len := 0\<rparr>"

definition clear_reply_error :: "zgrpc_reply_error_t \<Rightarrow> zgrpc_reply_error_t" where
  "clear_reply_error e = e\<lparr>cf_payload := 0, cf_payload_len := 0, cf_encoding := 0\<rparr>"

definition clear_reply_ex :: "zgrpc_reply_ex_t \<Rightarrow> zgrpc_reply_ex_t" where
  "clear_reply_ex r =
     r\<lparr>cz_has_sample := 0, cz_sample := clear_sample_ex (cz_sample r), cz_has_error := 0,
       cz_error := clear_reply_error (cz_error r)\<rparr>"

section \<open>Filling\<close>

definition fill_source_info ::
  "zgrpc_source_info_t \<Rightarrow> pb_SourceInfo option \<Rightarrow> zgrpc_source_info_t mem_op" where
  "fill_source_info dst0 source =
     (let dst = clear_source_info dst0 in
      case source of
        None \<Rightarrow> done_with dst
      | Some src \<Rightarrow>
          and_then (into_c_string (src_id src)) (\<lambda>i.
          done_with (dst\<lparr>ci_is_valid := 1, ci_id := i, ci_sequence := src_sequence src\<rparr>)))"

definition fill_sample :: "zgrpc_sample_t \<Rightarrow> pb_Sample \<Rightarrow> zgrpc_sample_t mem_op" where
  "fill_sample dst0 sample =
     (let dst = clear_sample dst0 in
      and_then (into_c_bytes (smp_payload sample)) (\<lambda>(payload, payload_len).
      and_then (into_c_string (smp_key_expr sample)) (\<lambda>key_expr.
      done_with (dst\<lparr>cs_key_expr := key_expr, cs_payload := payload, cs_payload_len := payload_len\<rparr>))))"

definition fill_sample_ex :: "zgrpc_sample_ex_t \<Rightarrow> pb_Sample \<Rightarrow> zgrpc_sample_ex_t mem_op" where
  "fill_sample_ex dst0 sample =
     (let dst = clear_sample_ex dst0 in
      and_then (into_c_bytes (smp_payload sample)) (\<lambda>(payload, payload_len).
      and_then (into_c_bytes (smp_attachment sample)) (\<lambda>(attachment, attachment_len).
      and_then (into_c_string (smp_key_expr sample)) (\<lambda>key_expr.
      and_then (into_c_string (smp_encoding sample)) (\<lambda>encoding.
      and_then (into_c_string (smp_timestamp sample)) (\<lambda>timestamp.
      and_then (fill_source_info (cx_source_info dst) (smp_source_info sample)) (\<lambda>source_info.
      done_with (dst\<lparr>cx_key_expr := key_expr, cx_payload := payload, cx_payload_len := payload_len,
                     cx_encoding := encoding, cx_kind := smp_kind sample, cx_attachment := attachment,
                     cx_attachment_len := attachment_len, cx_timestamp := timestamp,
                     cx_source_info := source_info\<rparr>))))))))"

definition fill_subscriber_event ::
  "zgrpc_subscriber_event_t \<Rightarrow> pb_SubscriberEvent \<Rightarrow> (int \<times> zgrpc_subscriber_event_t) mem_op" where
  "fill_subscriber_event dst0 event =
     (let dst = clear_subscriber_event dst0 in
      case sevt_sample event of
        Some sample \<Rightarrow>
          and_then (fill_sample_ex (ce_sample dst) sample) (\<lambda>s.
          done_with (0, dst\<lparr>ce_has_sample := 1, ce_sample := s\<rparr>))
      | None \<Rightarrow> done_with (-1, dst))"

definition query_to_owned :: "pb_Query \<Rightarrow> zgrpc_query_ex_t mem_op" where
  "query_to_owned query =
     and_then (into_c_string (qry_selector query)) (\<lambda>selector.
     and_then (into_c_string (qry_key_expr query)) (\<lambda>key_expr.
     and_then (into_c_string (qry_parameters query)) (\<lambda>parameters.
     and_then (into_c_bytes (qry_payload query)) (\<lambda>(payload, payload_len).
     and_then (into_c_string (qry_encoding query)) (\<lambda>encoding.
     and_then (into_c_bytes (qry_attachment query)) (\<lambda>(attachment, attachment_len).
     done_with \<lparr>cy_query_id = qry_query_id query, cy_selector = selector, cy_key_expr = key_expr,
                cy_parameters = parameters, cy_payload = payload, cy_payload_len = payload_len,
                cy_encoding = encoding, cy_attachment = attachment,
                cy_attachment_len = attachment_len\<rparr>))))))"

definition fill_legacy_query :: "zgrpc_query_t \<Rightarrow> pb_Query \<Rightarrow> zgrpc_query_t mem_op" where
  "fill_legacy_query dst0 query =
     (let dst = clear_query dst0 in
      and_then (into_c_string (qry_key_expr query)) (\<lambda>key_expr.
      and_then (into_c_string (qry_parameters query)) (\<lambda>parameters.
      and_then (into_c_bytes (qry_payload query)) (\<lambda>(payload, payload_len).
      done_with (dst\<lparr>cq_query_id := qry_query_id query, cq_key_expr := key_expr,
                     cq_parameters := parameters, cq_payload := payload,
                     cq_payload_len := payload_len\<rparr>)))))"

definition fill_reply_ex :: "zgrpc_reply_ex_t \<Rightarrow> pb_Reply \<Rightarrow> (int \<times> zgrpc_reply_ex_t) mem_op" where
  "fill_reply_ex dst0 reply =
     (let dst = clear_reply_ex dst0 in
      case reply_result reply of
        Some (Reply_Sample sample) \<Rightarrow>
          and_then (fill_sample_ex (cz_sample dst) sample) (\<lambda>s.
          done_with (0, dst\<lparr>cz_has_sample := 1, cz_sample := s\<rparr>))
      | Some (Reply_Error error) \<Rightarrow>
          and_then (into_c_bytes (rerr_payload error)) (\<lambda>(payload, payload_len).
          and_then (into_c_string (rerr_encoding error)) (\<lambda>encoding.
          done_with (0, dst\<lparr>cz_has_error := 1,
            cz_error := \<lparr>cf_payload = payload, cf_payload_len = payload_len, cf_encoding = encoding\<rparr>\<rparr>)))
      | None \<Rightarrow> done_with (-1, dst))"

section \<open>Freeing\<close>

text \<open>The functions that free a structure and clear it; a null pointer is left alone.\<close>

definition zgrpc_sample_free :: "zgrpc_sample_t \<Rightarrow> zgrpc_sample_t mem_op" where
  "zgrpc_sample_free s =
     and_then (zgrpc_string_free (cs_key_expr s)) (\<lambda>_.
     and_then (zgrpc_bytes_free (cs_payload s) (cs_payload_len s)) (\<lambda>_.
     done_with (clear_sample s)))"

definition zgrpc_query_free :: "zgrpc_query_t \<Rightarrow> zgrpc_query_t mem_op" where
  "zgrpc_query_free q =
     and_then (zgrpc_string_free (cq_key_expr q)) (\<lambda>_.
     and_then (zgrpc_string_free (cq_parameters q)) (\<lambda>_.
     and_then (zgrpc_bytes_free (cq_payload q) (cq_payload_len q)) (\<lambda>_.
     done_with (clear_query q))))"

definition zgrpc_reply_free :: "zgrpc_reply_t \<Rightarrow> zgrpc_reply_t mem_op" where
  "zgrpc_reply_free r =
     and_then (zgrpc_string_free (cr_key_expr r)) (\<lambda>_.
     and_then (zgrpc_bytes_free (cr_payload r) (cr_payload_len r)) (\<lambda>_.
     done_with (clear_reply r)))"

definition zgrpc_source_info_free :: "zgrpc_source_info_t \<Rightarrow> zgrpc_source_info_t mem_op" where
  "zgrpc_source_info_free i =
     and_then (zgrpc_string_free (ci_id i)) (\<lambda>_. done_with (clear_source_info i))"

definition zgrpc_sample_ex_free :: "zgrpc_sample_ex_t \<Rightarrow> zgrpc_sample_ex_t mem_op" where
  "zgrpc_sample_ex_free s =
     and_then (zgrpc_string_free (cx_key_expr s)) (\<lambda>_.
     and_then (zgrpc_bytes_free (cx_payload s) (cx_payload_len s)) (\<lambda>_.
     and_then (zgrpc_string_free (cx_encoding s)) (\<lambda>_.
     and_then (zgrpc_bytes_free (cx_attachment s) (cx_attachment_len s)) (\<lambda>_.
     and_then (zgrpc_string_free (cx_timestamp s)) (\<lambda>_.
     and_then (zgrpc_source_info_free (cx_source_info s)) (\<lambda>i.
     done_with (clear_sample_ex (s\<lparr>cx_source_info := i\<rparr>))))))))"

definition zgrpc_subscriber_event_free ::
  "zgrpc_subscriber_event_t \<Rightarrow> zgrpc_subscriber_event_t mem_op" where
  "zgrpc_subscriber_event_free e =
     and_then (zgrpc_sample_ex_free (ce_sample e)) (\<lambda>s.
     done_with (clear_subscriber_event (e\<lparr>ce_sample := s\<rparr>)))"

definition zgrpc_query_ex_free :: "zgrpc_query_ex_t \<Rightarrow> zgrpc_query_ex_t mem_op" where
  "zgrpc_query_ex_free q =
     and_then (zgrpc_string_free (cy_selector q)) (\<lambda>_.
     and_then (zgrpc_string_free (cy_key_expr q)) (\<lambda>_.
     and_then (zgrpc_string_free (cy_parameters q)) (\<lambda>_.
     and_then (zgrpc_bytes_free (cy_payload q) (cy_payload_len q)) (\<lambda>_.
     and_then (zgrpc_string_free (cy_encoding q)) (\<lambda>_.
     and_then (zgrpc_bytes_free (cy_attachment q) (cy_attachment_len q)) (\<lambda>_.
     done_with (clear_query_ex q)))))))"

definition zgrpc_reply_error_free :: "zgrpc_reply_error_t \<Rightarrow> zgrpc_reply_error_t mem_op" where
  "zgrpc_reply_error_free e =
     and_then (zgrpc_bytes_free (cf_payload e) (cf_payload_len e)) (\<lambda>_.
     and_then (zgrpc_string_free (cf_encoding e)) (\<lambda>_.
     done_with (clear_reply_error e)))"

definition zgrpc_reply_ex_free :: "zgrpc_reply_ex_t \<Rightarrow> zgrpc_reply_ex_t mem_op" where
  "zgrpc_reply_ex_free r =
     and_then (zgrpc_sample_ex_free (cz_sample r)) (\<lambda>s.
     and_then (zgrpc_reply_error_free (cz_error r)) (\<lambda>e.
     done_with (clear_reply_ex (r\<lparr>cz_sample := s, cz_error := e\<rparr>))))"

end
