(* ===== verification/C_Ownership.thy ===== *)
theory C_Ownership
  imports C_Memory "HOL-Library.Multiset"
begin

text \<open>
  Ownership of the memory that the C wrapper hands out. \<open>owned h base M\<close> says that the memory \<open>h\<close> is
  the memory \<open>base\<close> of the rest of the program together with the pieces \<open>M\<close>, each a string or a buffer
  with its address, no two in the same block. Filling a structure adds its pieces, freeing it takes
  them away; a fill followed by the matching free gives the memory back as it was.
\<close>

datatype piece = PStr addr string | PBytes addr nat bytes

fun piece_addr :: "piece \<Rightarrow> addr" where
  "piece_addr (PStr p s) = p"
| "piece_addr (PBytes p n b) = p"

fun piece_at :: "(addr \<rightharpoonup> block) \<Rightarrow> piece \<Rightarrow> bool" where
  "piece_at m (PStr p s) = (if p = 0 then s = [] else m p = Some (StrBlock s))"
| "piece_at m (PBytes p n b) =
     (n = length b \<and> (if p = 0 then b = [] else m p = Some (BytesBlock b (length b))))"

definition mem_ok :: "memory \<Rightarrow> bool" where
  "mem_ok h \<longleftrightarrow> 0 < next_addr h \<and> blocks h 0 = None \<and> (\<forall>p. next_addr h \<le> p \<longrightarrow> blocks h p = None)"

definition owned :: "memory \<Rightarrow> (addr \<rightharpoonup> block) \<Rightarrow> piece list \<Rightarrow> bool" where
  "owned h base xs \<longleftrightarrow>
     mem_ok h \<and> list_all (piece_at (blocks h)) xs
     \<and> distinct (filter (\<lambda>p. p \<noteq> 0) (map piece_addr xs))
     \<and> base = blocks h |` (- set (map piece_addr xs))"

lemma owned_perm:
  assumes "mset xs = mset ys" and "owned h base xs"
  shows "owned h base ys"
proof -
  from assms(1) have "set xs = set ys" by (rule mset_eq_setD)
  moreover from assms(1) have "mset (filter (\<lambda>p. p \<noteq> 0) (map piece_addr xs)) =
      mset (filter (\<lambda>p. p \<noteq> 0) (map piece_addr ys))"
    by (simp add: mset_filter)
  ultimately show ?thesis
    using assms(2) mset_eq_imp_distinct_iff by (fastforce simp: owned_def list_all_iff)
qed

lemma owned_nothing: "mem_ok h \<Longrightarrow> owned h (blocks h) []"
  by (simp add: owned_def restrict_map_def)

lemma owned_all_freed: "owned h base [] \<Longrightarrow> blocks h = base"
  by (simp add: owned_def restrict_map_def)

lemma owned_null: "owned h base xs \<Longrightarrow> piece_addr x = 0 \<Longrightarrow> piece_at (blocks h) x \<Longrightarrow> owned h base (x # xs)"
  by (auto simp: owned_def mem_ok_def restrict_map_def fun_eq_iff)

lemma owned_null_gone: "owned h base (x # xs) \<Longrightarrow> piece_addr x = 0 \<Longrightarrow> owned h base xs"
  by (auto simp: owned_def mem_ok_def restrict_map_def fun_eq_iff)

lemma piece_at_upd: "piece_addr y \<noteq> p \<Longrightarrow> piece_at (m(p := v)) y = piece_at m y"
  by (cases y) auto

lemma pieces_at_upd:
  "p \<notin> piece_addr ` set xs \<Longrightarrow> list_all (piece_at (m(p := v))) xs = list_all (piece_at m) xs"
  by (induction xs) (auto simp: piece_at_upd)

lemma owned_fresh:
  assumes "owned h base xs"
  shows "blocks h (next_addr h) = None" "next_addr h \<noteq> 0" "next_addr h \<notin> piece_addr ` set xs"
proof -
  show free: "blocks h (next_addr h) = None" "next_addr h \<noteq> 0"
    using assms by (auto simp: owned_def mem_ok_def)
  have "next_addr h \<noteq> piece_addr y" if "y \<in> set xs" for y
    using assms that free by (cases y) (auto simp: owned_def list_all_iff split: if_splits)
  then show "next_addr h \<notin> piece_addr ` set xs" by (simp add: image_iff)
qed

lemma owned_alloc:
  assumes "owned h base xs" and "piece_addr x = next_addr h" and "piece_at [next_addr h \<mapsto> k] x"
  shows "owned (h\<lparr>blocks := (blocks h)(next_addr h \<mapsto> k), next_addr := Suc (next_addr h)\<rparr>) base (x # xs)"
proof -
  note fresh = owned_fresh [OF assms(1)]
  have "list_all (piece_at ((blocks h)(next_addr h \<mapsto> k))) xs"
    using assms(1) fresh(3) by (simp add: owned_def pieces_at_upd)
  moreover have "piece_at ((blocks h)(next_addr h \<mapsto> k)) x"
    using assms(2,3) by (cases x) auto
  ultimately show ?thesis
    using assms(1,2) fresh by (auto simp: owned_def mem_ok_def restrict_map_def fun_eq_iff)
qed

lemma owned_release:
  assumes "owned h base (x # xs)" and "piece_addr x \<noteq> 0"
  shows "owned (h\<lparr>blocks := (blocks h)(piece_addr x := None)\<rparr>) base xs"
proof -
  have once: "piece_addr x \<notin> piece_addr ` set xs"
    using assms by (auto simp: owned_def)
  then have "list_all (piece_at ((blocks h)(piece_addr x := None))) xs"
    using assms(1) by (simp add: owned_def pieces_at_upd)
  then show ?thesis
    using assms once by (auto simp: owned_def mem_ok_def restrict_map_def fun_eq_iff)
qed

section \<open>Weakest preconditions\<close>

text \<open>
  \<open>wp m Q h\<close>: the operation \<open>m\<close> does not fault on \<open>h\<close> and its result satisfies \<open>Q\<close>. Each elementary
  operation has a rule that moves the pieces owned; the rules for the structures follow from these.
\<close>

definition wp :: "'a mem_op \<Rightarrow> ('a \<Rightarrow> memory \<Rightarrow> bool) \<Rightarrow> memory \<Rightarrow> bool" where
  "wp m Q h = (case m h of Inl _ \<Rightarrow> False | Inr (x, h') \<Rightarrow> Q x h')"

lemma wp_and_then [simp]: "wp (and_then m f) Q h = wp m (\<lambda>x h'. wp (f x) Q h') h"
  by (auto simp: wp_def and_then_def split: sum.split)

lemma wp_done [simp]: "wp (done_with x) Q h = Q x h"
  by (simp add: wp_def done_with_def)

lemma wp_Inr: "wp m Q h \<longleftrightarrow> (\<exists>x h'. m h = Inr (x, h') \<and> Q x h')"
  by (auto simp: wp_def split: sum.split)

lemma wp_mono: "wp m Q h \<Longrightarrow> (\<And>x h'. Q x h' \<Longrightarrow> R x h') \<Longrightarrow> wp m R h"
  by (auto simp: wp_def split: sum.splits)

definition no_nul :: "string \<Rightarrow> bool" where
  "no_nul s \<longleftrightarrow> CHR 0x00 \<notin> set s"

lemma wp_string:
  assumes "owned h base xs" and "no_nul s"
    and "\<And>p h'. owned h' base (PStr p s # xs) \<Longrightarrow> Q p h'"
  shows "wp (into_c_string s) Q h"
proof (cases "s = []")
  case True
  with assms(3) owned_null [OF assms(1), of "PStr 0 s"] show ?thesis by (simp add: into_c_string_def)
next
  case False
  with assms owned_alloc [OF assms(1), of "PStr (next_addr h) s"] owned_fresh [OF assms(1)]
  show ?thesis by (simp add: into_c_string_def allocate_def wp_def no_nul_def)
qed

lemma wp_bytes:
  assumes "owned h base xs"
    and "\<And>p h'. owned h' base (PBytes p (length b) b # xs) \<Longrightarrow> Q (p, length b) h'"
  shows "wp (into_c_bytes b) Q h"
proof (cases "b = []")
  case True
  with assms(2) owned_null [OF assms(1), of "PBytes 0 0 b"] show ?thesis by (simp add: into_c_bytes_def)
next
  case False
  with assms owned_alloc [OF assms(1), of "PBytes (next_addr h) (length b) b"] owned_fresh [OF assms(1)]
  show ?thesis by (simp add: into_c_bytes_def allocate_def wp_def done_with_def and_then_def)
qed

lemma wp_string_free:
  assumes "owned h base (PStr p s # xs)" and "\<And>h'. owned h' base xs \<Longrightarrow> Q () h'"
  shows "wp (zgrpc_string_free p) Q h"
proof (cases "p = 0")
  case True
  with assms(2) owned_null_gone [OF assms(1)] show ?thesis by (simp add: zgrpc_string_free_def wp_def)
next
  case False
  with assms(1) have "blocks h p = Some (StrBlock s)" by (simp add: owned_def)
  with False assms(2) owned_release [OF assms(1)] show ?thesis
    by (simp add: zgrpc_string_free_def release_def wp_def)
qed

lemma wp_bytes_free:
  assumes "owned h base (PBytes p n b # xs)" and "\<And>h'. owned h' base xs \<Longrightarrow> Q () h'"
  shows "wp (zgrpc_bytes_free p n) Q h"
proof (cases "p = 0")
  case True
  with assms(2) owned_null_gone [OF assms(1)] show ?thesis by (simp add: zgrpc_bytes_free_def wp_def)
next
  case False
  with assms(1) have "blocks h p = Some (BytesBlock b n)" "n = length b" by (simp_all add: owned_def)
  with False assms(2) owned_release [OF assms(1)] show ?thesis
    by (simp add: zgrpc_bytes_free_def release_def wp_def)
qed

section \<open>The pieces of the structures\<close>

text \<open>In the order in which they are freed, with the contents they should have.\<close>

definition source_id :: "pb_SourceInfo option \<Rightarrow> string" where
  "source_id i = (case i of None \<Rightarrow> [] | Some src \<Rightarrow> src_id src)"

definition sample_pieces :: "zgrpc_sample_t \<Rightarrow> pb_Sample \<Rightarrow> piece list" where
  "sample_pieces x s = [PStr (cs_key_expr x) (smp_key_expr s), PBytes (cs_payload x) (cs_payload_len x) (smp_payload s)]"

definition sample_ex_pieces :: "zgrpc_sample_ex_t \<Rightarrow> pb_Sample \<Rightarrow> piece list" where
  "sample_ex_pieces x s =
     [PStr (cx_key_expr x) (smp_key_expr s), PBytes (cx_payload x) (cx_payload_len x) (smp_payload s),
      PStr (cx_encoding x) (smp_encoding s),
      PBytes (cx_attachment x) (cx_attachment_len x) (smp_attachment s),
      PStr (cx_timestamp x) (smp_timestamp s),
      PStr (ci_id (cx_source_info x)) (source_id (smp_source_info s))]"

definition query_pieces :: "zgrpc_query_t \<Rightarrow> pb_Query \<Rightarrow> piece list" where
  "query_pieces x q =
     [PStr (cq_key_expr x) (qry_key_expr q), PStr (cq_parameters x) (qry_parameters q),
      PBytes (cq_payload x) (cq_payload_len x) (qry_payload q)]"

definition query_ex_pieces :: "zgrpc_query_ex_t \<Rightarrow> pb_Query \<Rightarrow> piece list" where
  "query_ex_pieces x q =
     [PStr (cy_selector x) (qry_selector q), PStr (cy_key_expr x) (qry_key_expr q),
      PStr (cy_parameters x) (qry_parameters q), PBytes (cy_payload x) (cy_payload_len x) (qry_payload q),
      PStr (cy_encoding x) (qry_encoding q),
      PBytes (cy_attachment x) (cy_attachment_len x) (qry_attachment q)]"

definition reply_error_pieces :: "zgrpc_reply_error_t \<Rightarrow> pb_ReplyError \<Rightarrow> piece list" where
  "reply_error_pieces x e =
     [PBytes (cf_payload x) (cf_payload_len x) (rerr_payload e), PStr (cf_encoding x) (rerr_encoding e)]"

definition sample_clean :: "pb_Sample \<Rightarrow> bool" where
  "sample_clean s \<longleftrightarrow> no_nul (smp_key_expr s) \<and> no_nul (smp_encoding s) \<and> no_nul (smp_timestamp s)
     \<and> no_nul (source_id (smp_source_info s))"

definition query_clean :: "pb_Query \<Rightarrow> bool" where
  "query_clean q \<longleftrightarrow> no_nul (qry_selector q) \<and> no_nul (qry_key_expr q) \<and> no_nul (qry_parameters q)
     \<and> no_nul (qry_encoding q)"

definition source_filled :: "zgrpc_source_info_t \<Rightarrow> pb_SourceInfo option \<Rightarrow> bool" where
  "source_filled x i = (case i of
     None \<Rightarrow> ci_is_valid x = 0 | Some src \<Rightarrow> ci_is_valid x = 1 \<and> ci_sequence x = src_sequence src)"

section \<open>Filling the structures\<close>

lemma wp_source_info:
  assumes "owned h base xs" and "no_nul (source_id i)"
    and "\<And>x h'. owned h' base (PStr (ci_id x) (source_id i) # xs) \<Longrightarrow> source_filled x i \<Longrightarrow> Q x h'"
  shows "wp (fill_source_info dst i) Q h"
proof (cases i)
  case None
  with assms(3) [of h "clear_source_info dst"] owned_null [OF assms(1), of "PStr 0 []"] show ?thesis
    by (simp add: fill_source_info_def source_id_def source_filled_def clear_source_info_def)
next
  case (Some src)
  with assms show ?thesis
    by (auto simp: fill_source_info_def source_id_def source_filled_def Let_def intro!: wp_string [OF assms(1)])
qed

lemma wp_sample:
  assumes "owned h base xs" and "no_nul (smp_key_expr s)"
    and "\<And>x h'. owned h' base (sample_pieces x s @ xs) \<Longrightarrow> Q x h'"
  shows "wp (fill_sample dst s) Q h"
  unfolding fill_sample_def Let_def
  apply simp
  apply (rule wp_bytes [OF assms(1)], simp)
  apply (erule wp_string [OF _ assms(2)])
  apply (rule assms(3), simp add: sample_pieces_def)
  done

lemma wp_sample_ex:
  assumes "owned h base xs" and "sample_clean s"
    and "\<And>x h'. owned h' base (sample_ex_pieces x s @ xs) \<Longrightarrow> cx_kind x = smp_kind s \<Longrightarrow>
      source_filled (cx_source_info x) (smp_source_info s) \<Longrightarrow> Q x h'"
  shows "wp (fill_sample_ex dst s) Q h"
proof -
  have clean: "no_nul (smp_key_expr s)" "no_nul (smp_encoding s)" "no_nul (smp_timestamp s)"
    "no_nul (source_id (smp_source_info s))"
    using assms(2) by (simp_all add: sample_clean_def)
  show ?thesis
    unfolding fill_sample_ex_def Let_def
    apply simp
    apply (rule wp_bytes [OF assms(1)], simp)
    apply (erule wp_bytes, simp)
    apply (erule wp_string [OF _ clean(1)])
    apply (erule wp_string [OF _ clean(2)])
    apply (erule wp_string [OF _ clean(3)])
    apply (erule wp_source_info [OF _ clean(4)])
    apply (rule assms(3), erule owned_perm [rotated])
      apply (simp_all add: sample_ex_pieces_def)
    done
qed

lemma wp_legacy_query:
  assumes "owned h base xs" and "query_clean q"
    and "\<And>x h'. owned h' base (query_pieces x q @ xs) \<Longrightarrow> cq_query_id x = qry_query_id q \<Longrightarrow> Q x h'"
  shows "wp (fill_legacy_query dst q) Q h"
proof -
  have clean: "no_nul (qry_key_expr q)" "no_nul (qry_parameters q)"
    using assms(2) by (simp_all add: query_clean_def)
  show ?thesis
    unfolding fill_legacy_query_def Let_def
    apply simp
    apply (rule wp_string [OF assms(1) clean(1)])
    apply (erule wp_string [OF _ clean(2)])
    apply (erule wp_bytes, simp)
    apply (rule assms(3), erule owned_perm [rotated])
     apply (simp_all add: query_pieces_def)
    done
qed

lemma wp_query_to_owned:
  assumes "owned h base xs" and "query_clean q"
    and "\<And>x h'. owned h' base (query_ex_pieces x q @ xs) \<Longrightarrow> cy_query_id x = qry_query_id q \<Longrightarrow> Q x h'"
  shows "wp (query_to_owned q) Q h"
proof -
  have clean: "no_nul (qry_selector q)" "no_nul (qry_key_expr q)" "no_nul (qry_parameters q)" "no_nul (qry_encoding q)"
    using assms(2) by (simp_all add: query_clean_def)
  show ?thesis
    unfolding query_to_owned_def
    apply simp
    apply (rule wp_string [OF assms(1) clean(1)])
    apply (erule wp_string [OF _ clean(2)])
    apply (erule wp_string [OF _ clean(3)])
    apply (erule wp_bytes, simp)
    apply (erule wp_string [OF _ clean(4)])
    apply (erule wp_bytes, simp)
    apply (rule assms(3), erule owned_perm [rotated])
     apply (simp_all add: query_ex_pieces_def)
    done
qed

section \<open>Freeing the structures\<close>

lemma free_null [simp]: "zgrpc_string_free 0 = done_with ()" "zgrpc_bytes_free 0 n = done_with ()"
  by (simp_all add: done_with_def zgrpc_string_free_def zgrpc_bytes_free_def)

lemma and_then_done [simp]: "and_then (done_with x) f = f x"
  by (simp add: and_then_def done_with_def)

lemma wp_sample_free:
  assumes "owned h base (sample_pieces x s @ xs)" and "\<And>h'. owned h' base xs \<Longrightarrow> Q (clear_sample x) h'"
  shows "wp (zgrpc_sample_free x) Q h"
  using assms(1) unfolding zgrpc_sample_free_def sample_pieces_def
  by (auto intro: assms(2) elim!: wp_string_free wp_bytes_free)

lemma wp_sample_ex_free:
  assumes "owned h base (sample_ex_pieces x s @ xs)" and "\<And>h'. owned h' base xs \<Longrightarrow> Q (clear_sample_ex x) h'"
  shows "wp (zgrpc_sample_ex_free x) Q h"
proof -
  have "clear_sample_ex (x\<lparr>cx_source_info := clear_source_info (cx_source_info x)\<rparr>) = clear_sample_ex x"
    by (simp add: clear_sample_ex_def clear_source_info_def)
  then show ?thesis
    using assms(1) unfolding zgrpc_sample_ex_free_def zgrpc_source_info_free_def sample_ex_pieces_def
    by (auto intro: assms(2) elim!: wp_string_free wp_bytes_free)
qed

lemma wp_query_free:
  assumes "owned h base (query_pieces x q @ xs)" and "\<And>h'. owned h' base xs \<Longrightarrow> Q (clear_query x) h'"
  shows "wp (zgrpc_query_free x) Q h"
  using assms(1) unfolding zgrpc_query_free_def query_pieces_def
  by (auto intro: assms(2) elim!: wp_string_free wp_bytes_free)

lemma wp_query_ex_free:
  assumes "owned h base (query_ex_pieces x q @ xs)" and "\<And>h'. owned h' base xs \<Longrightarrow> Q (clear_query_ex x) h'"
  shows "wp (zgrpc_query_ex_free x) Q h"
  using assms(1) unfolding zgrpc_query_ex_free_def query_ex_pieces_def
  by (auto intro: assms(2) elim!: wp_string_free wp_bytes_free)

lemma wp_reply_error_free:
  assumes "owned h base (reply_error_pieces x e @ xs)" and "\<And>h'. owned h' base xs \<Longrightarrow> Q (clear_reply_error x) h'"
  shows "wp (zgrpc_reply_error_free x) Q h"
  using assms(1) unfolding zgrpc_reply_error_free_def reply_error_pieces_def
  by (auto intro: assms(2) elim!: wp_string_free wp_bytes_free)

text \<open>Cleared structures hold nothing.\<close>

lemma clear_idem [simp]:
  "clear_sample_ex (clear_sample_ex b) = clear_sample_ex b"
  "clear_reply_error (clear_reply_error e) = clear_reply_error e"
  by (simp_all add: clear_sample_ex_def clear_source_info_def clear_reply_error_def)

lemma clear_fields [simp]:
  "ce_sample (clear_subscriber_event x) = clear_sample_ex (ce_sample x)"
  "ce_has_sample (clear_subscriber_event x) = 0"
  "cz_sample (clear_reply_ex y) = clear_sample_ex (cz_sample y)"
  "cz_error (clear_reply_ex y) = clear_reply_error (cz_error y)"
  "cz_has_sample (clear_reply_ex y) = 0" "cz_has_error (clear_reply_ex y) = 0"
  by (simp_all add: clear_subscriber_event_def clear_reply_ex_def)

lemma free_cleared [simp]:
  "zgrpc_sample_free (clear_sample a) = done_with (clear_sample a)"
  "zgrpc_sample_ex_free (clear_sample_ex b) = done_with (clear_sample_ex b)"
  "zgrpc_query_free (clear_query c) = done_with (clear_query c)"
  "zgrpc_query_ex_free (clear_query_ex d) = done_with (clear_query_ex d)"
  "zgrpc_reply_error_free (clear_reply_error e) = done_with (clear_reply_error e)"
  by (simp_all add: zgrpc_sample_free_def zgrpc_sample_ex_free_def zgrpc_source_info_free_def
      zgrpc_query_free_def zgrpc_query_ex_free_def zgrpc_reply_error_free_def clear_sample_def
      clear_sample_ex_def clear_source_info_def clear_query_def clear_query_ex_def clear_reply_error_def)

lemma free_cleared_nested [simp]:
  "zgrpc_subscriber_event_free (clear_subscriber_event f) = done_with (clear_subscriber_event f)"
  "zgrpc_reply_ex_free (clear_reply_ex g) = done_with (clear_reply_ex g)"
  by (simp_all add: zgrpc_subscriber_event_free_def zgrpc_reply_ex_free_def)
    (simp_all add: clear_subscriber_event_def clear_reply_ex_def)

section \<open>Events and replies\<close>

fun event_clean :: "pb_SubscriberEvent \<Rightarrow> bool" where
  "event_clean ev = (case sevt_sample ev of None \<Rightarrow> True | Some s \<Rightarrow> sample_clean s)"

fun event_pieces :: "zgrpc_subscriber_event_t \<Rightarrow> pb_Sample option \<Rightarrow> piece list" where
  "event_pieces x (Some s) = sample_ex_pieces (ce_sample x) s"
| "event_pieces x None = []"

fun event_filled :: "zgrpc_subscriber_event_t \<Rightarrow> pb_Sample option \<Rightarrow> bool" where
  "event_filled x (Some s) =
     (ce_has_sample x = 1 \<and> cx_kind (ce_sample x) = smp_kind s
      \<and> source_filled (cx_source_info (ce_sample x)) (smp_source_info s))"
| "event_filled x None = (\<exists>y. x = clear_subscriber_event y)"

fun result_clean :: "pb_reply_result option \<Rightarrow> bool" where
  "result_clean (Some (Reply_Sample s)) = sample_clean s"
| "result_clean (Some (Reply_Error e)) = no_nul (rerr_encoding e)"
| "result_clean None = True"

fun reply_pieces :: "zgrpc_reply_ex_t \<Rightarrow> pb_reply_result option \<Rightarrow> piece list" where
  "reply_pieces x (Some (Reply_Sample s)) = sample_ex_pieces (cz_sample x) s"
| "reply_pieces x (Some (Reply_Error e)) = reply_error_pieces (cz_error x) e"
| "reply_pieces x None = []"

fun reply_filled :: "zgrpc_reply_ex_t \<Rightarrow> pb_reply_result option \<Rightarrow> bool" where
  "reply_filled x (Some (Reply_Sample s)) =
     (cz_has_sample x = 1 \<and> cz_has_error x = 0 \<and> (\<exists>y. cz_error x = clear_reply_error y)
      \<and> cx_kind (cz_sample x) = smp_kind s
      \<and> source_filled (cx_source_info (cz_sample x)) (smp_source_info s))"
| "reply_filled x (Some (Reply_Error e)) =
     (cz_has_sample x = 0 \<and> cz_has_error x = 1 \<and> (\<exists>y. cz_sample x = clear_sample_ex y))"
| "reply_filled x None = (\<exists>y. x = clear_reply_ex y)"

lemma wp_subscriber_event:
  assumes "owned h base xs" and "event_clean ev"
    and "\<And>rc x h'. owned h' base (event_pieces x (sevt_sample ev) @ xs) \<Longrightarrow> event_filled x (sevt_sample ev) \<Longrightarrow>
      rc = (if sevt_sample ev = None then -1 else 0) \<Longrightarrow> Q (rc, x) h'"
  shows "wp (fill_subscriber_event dst ev) Q h"
proof (cases "sevt_sample ev")
  case None
  with assms show ?thesis by (auto simp: fill_subscriber_event_def)
next
  case (Some s)
  with assms(2) have "sample_clean s" by simp
  with Some assms(3) show ?thesis
    by (auto simp: fill_subscriber_event_def Let_def intro!: wp_sample_ex [OF assms(1)])
qed

lemma wp_subscriber_event_free:
  assumes "owned h base (event_pieces x ev @ xs)" and "event_filled x ev"
    and "\<And>y h'. owned h' base xs \<Longrightarrow> Q (clear_subscriber_event y) h'"
  shows "wp (zgrpc_subscriber_event_free x) Q h"
proof (cases ev)
  case None
  with assms show ?thesis
    by (auto simp: zgrpc_subscriber_event_free_def)
next
  case (Some s)
  with assms(1) have "owned h base (sample_ex_pieces (ce_sample x) s @ xs)" by simp
  with assms(3) show ?thesis
    by (auto simp: zgrpc_subscriber_event_free_def intro: wp_sample_ex_free)
qed

lemma wp_reply_ex:
  assumes "owned h base xs" and "result_clean (reply_result r)"
    and "\<And>rc x h'. owned h' base (reply_pieces x (reply_result r) @ xs) \<Longrightarrow>
      reply_filled x (reply_result r) \<Longrightarrow> rc = (if reply_result r = None then -1 else 0) \<Longrightarrow> Q (rc, x) h'"
  shows "wp (fill_reply_ex dst r) Q h"
proof (cases "reply_result r")
  case None
  with assms show ?thesis by (auto simp: fill_reply_ex_def)
next
  case (Some res)
  show ?thesis
  proof (cases res)
    case (Reply_Sample s)
    with Some assms(2) have "sample_clean s" by simp
    then have "wp (fill_sample_ex (cz_sample (clear_reply_ex dst)) s)
        (\<lambda>y. Q (0, clear_reply_ex dst\<lparr>cz_has_sample := 1, cz_sample := y\<rparr>)) h"
      by (rule wp_sample_ex [OF assms(1)]) (rule assms(3), use Some Reply_Sample in auto)
    with Some Reply_Sample show ?thesis by (simp add: fill_reply_ex_def Let_def)
  next
    case (Reply_Error e)
    with Some assms(2) have clean: "no_nul (rerr_encoding e)" by simp
    from Some Reply_Error show ?thesis
      unfolding fill_reply_ex_def Let_def
      apply simp
      apply (rule wp_bytes [OF assms(1)], simp)
      apply (erule wp_string [OF _ clean])
      apply (rule assms(3), erule owned_perm [rotated])
        apply (auto simp: reply_error_pieces_def)
      done
  qed
qed

lemma wp_reply_ex_free:
  assumes "owned h base (reply_pieces x r @ xs)" and "reply_filled x r"
    and "\<And>y h'. owned h' base xs \<Longrightarrow> Q (clear_reply_ex y) h'"
  shows "wp (zgrpc_reply_ex_free x) Q h"
proof (cases r)
  case None
  with assms show ?thesis by (auto simp: zgrpc_reply_ex_free_def)
next
  case (Some res)
  show ?thesis
  proof (cases res)
    case (Reply_Sample s)
    with Some assms show ?thesis
      by (auto simp: zgrpc_reply_ex_free_def intro!: wp_sample_ex_free [of h base "cz_sample x" s xs])
  next
    case (Reply_Error e)
    with Some assms show ?thesis
      by (auto simp: zgrpc_reply_ex_free_def intro!: wp_reply_error_free [of h base "cz_error x" e xs])
  qed
qed

end
