(* ===== verification/C_Args.thy ===== *)
theory C_Args
  imports C_Ownership Client_Args
begin

text \<open>
  The options of the C interface and the arguments of the client core that are built from them
  (\<^verbatim>\<open>zenoh-grpc-c/src/lib.rs\<close>). An options pointer is \<open>None\<close> when it is null; the strings and buffers
  in the options are read from memory when the call is made.
\<close>

section \<open>Options\<close>

record zgrpc_session_put_options_t =
  spo_encoding :: addr
  spo_congestion_control :: i32
  spo_priority :: i32
  spo_express :: bool
  spo_attachment :: addr
  spo_attachment_len :: nat
  spo_timestamp :: addr
  spo_allowed_destination :: i32

record zgrpc_session_delete_options_t =
  sdo_congestion_control :: i32
  sdo_priority :: i32
  sdo_express :: bool
  sdo_attachment :: addr
  sdo_attachment_len :: nat
  sdo_timestamp :: addr
  sdo_allowed_destination :: i32

record zgrpc_session_get_options_t =
  sgo_target :: i32
  sgo_consolidation :: i32
  sgo_timeout_ms :: u64
  sgo_payload :: addr
  sgo_payload_len :: nat
  sgo_encoding :: addr
  sgo_attachment :: addr
  sgo_attachment_len :: nat
  sgo_allowed_destination :: i32

record zgrpc_publisher_options_t =
  pbo_encoding :: addr
  pbo_congestion_control :: i32
  pbo_priority :: i32
  pbo_express :: bool
  pbo_reliability :: i32
  pbo_allowed_destination :: i32

record zgrpc_subscriber_options_t =
  sbo_allowed_origin :: i32

record zgrpc_queryable_options_t =
  qbo_complete :: bool
  qbo_allowed_origin :: i32

record zgrpc_querier_options_t =
  qro_target :: i32
  qro_consolidation :: i32
  qro_timeout_ms :: u64
  qro_allowed_destination :: i32

record zgrpc_querier_get_options_t =
  qgo_payload :: addr
  qgo_payload_len :: nat
  qgo_encoding :: addr
  qgo_attachment :: addr
  qgo_attachment_len :: nat

record zgrpc_publisher_put_options_t =
  ppo_encoding :: addr
  ppo_attachment :: addr
  ppo_attachment_len :: nat
  ppo_timestamp :: addr

record zgrpc_publisher_delete_options_t =
  pdo_attachment :: addr
  pdo_attachment_len :: nat
  pdo_timestamp :: addr

record zgrpc_query_reply_options_t =
  rpo_encoding :: addr
  rpo_attachment :: addr
  rpo_attachment_len :: nat
  rpo_timestamp :: addr

record zgrpc_query_reply_err_options_t =
  reo_encoding :: addr

record zgrpc_query_reply_delete_options_t =
  rdo_attachment :: addr
  rdo_attachment_len :: nat
  rdo_timestamp :: addr

section \<open>Default options\<close>

text \<open>\<^verbatim>\<open>ptr::write_bytes(options, 0, 1)\<close>: all fields zero, all pointers null.\<close>

definition zgrpc_session_put_options_default :: "zgrpc_session_put_options_t option \<Rightarrow> zgrpc_session_put_options_t option" where
  "zgrpc_session_put_options_default options = map_option (\<lambda>_.
     \<lparr>spo_encoding = 0, spo_congestion_control = 0, spo_priority = 0, spo_express = False,
      spo_attachment = 0, spo_attachment_len = 0, spo_timestamp = 0, spo_allowed_destination = 0\<rparr>) options"

definition zgrpc_session_delete_options_default :: "zgrpc_session_delete_options_t option \<Rightarrow> zgrpc_session_delete_options_t option" where
  "zgrpc_session_delete_options_default options = map_option (\<lambda>_.
     \<lparr>sdo_congestion_control = 0, sdo_priority = 0, sdo_express = False,
      sdo_attachment = 0, sdo_attachment_len = 0, sdo_timestamp = 0, sdo_allowed_destination = 0\<rparr>) options"

definition zgrpc_session_get_options_default :: "zgrpc_session_get_options_t option \<Rightarrow> zgrpc_session_get_options_t option" where
  "zgrpc_session_get_options_default options = map_option (\<lambda>_.
     \<lparr>sgo_target = 0, sgo_consolidation = 0, sgo_timeout_ms = 0, sgo_payload = 0,
      sgo_payload_len = 0, sgo_encoding = 0, sgo_attachment = 0, sgo_attachment_len = 0,
      sgo_allowed_destination = 0\<rparr>) options"

definition zgrpc_publisher_options_default :: "zgrpc_publisher_options_t option \<Rightarrow> zgrpc_publisher_options_t option" where
  "zgrpc_publisher_options_default options = map_option (\<lambda>_.
     \<lparr>pbo_encoding = 0, pbo_congestion_control = 0, pbo_priority = 0, pbo_express = False,
      pbo_reliability = 0, pbo_allowed_destination = 0\<rparr>) options"

definition zgrpc_subscriber_options_default :: "zgrpc_subscriber_options_t option \<Rightarrow> zgrpc_subscriber_options_t option" where
  "zgrpc_subscriber_options_default options = map_option (\<lambda>_.
     \<lparr>sbo_allowed_origin = 0\<rparr>) options"

definition zgrpc_queryable_options_default :: "zgrpc_queryable_options_t option \<Rightarrow> zgrpc_queryable_options_t option" where
  "zgrpc_queryable_options_default options = map_option (\<lambda>_.
     \<lparr>qbo_complete = False, qbo_allowed_origin = 0\<rparr>) options"

definition zgrpc_querier_options_default :: "zgrpc_querier_options_t option \<Rightarrow> zgrpc_querier_options_t option" where
  "zgrpc_querier_options_default options = map_option (\<lambda>_.
     \<lparr>qro_target = 0, qro_consolidation = 0, qro_timeout_ms = 0,
      qro_allowed_destination = 0\<rparr>) options"

definition zgrpc_querier_get_options_default :: "zgrpc_querier_get_options_t option \<Rightarrow> zgrpc_querier_get_options_t option" where
  "zgrpc_querier_get_options_default options = map_option (\<lambda>_.
     \<lparr>qgo_payload = 0, qgo_payload_len = 0, qgo_encoding = 0, qgo_attachment = 0,
      qgo_attachment_len = 0\<rparr>) options"

definition zgrpc_publisher_put_options_default :: "zgrpc_publisher_put_options_t option \<Rightarrow> zgrpc_publisher_put_options_t option" where
  "zgrpc_publisher_put_options_default options = map_option (\<lambda>_.
     \<lparr>ppo_encoding = 0, ppo_attachment = 0, ppo_attachment_len = 0, ppo_timestamp = 0\<rparr>) options"

definition zgrpc_publisher_delete_options_default :: "zgrpc_publisher_delete_options_t option \<Rightarrow> zgrpc_publisher_delete_options_t option" where
  "zgrpc_publisher_delete_options_default options = map_option (\<lambda>_.
     \<lparr>pdo_attachment = 0, pdo_attachment_len = 0, pdo_timestamp = 0\<rparr>) options"

definition zgrpc_query_reply_options_default :: "zgrpc_query_reply_options_t option \<Rightarrow> zgrpc_query_reply_options_t option" where
  "zgrpc_query_reply_options_default options = map_option (\<lambda>_.
     \<lparr>rpo_encoding = 0, rpo_attachment = 0, rpo_attachment_len = 0, rpo_timestamp = 0\<rparr>) options"

definition zgrpc_query_reply_err_options_default :: "zgrpc_query_reply_err_options_t option \<Rightarrow> zgrpc_query_reply_err_options_t option" where
  "zgrpc_query_reply_err_options_default options = map_option (\<lambda>_.
     \<lparr>reo_encoding = 0\<rparr>) options"

definition zgrpc_query_reply_delete_options_default :: "zgrpc_query_reply_delete_options_t option \<Rightarrow> zgrpc_query_reply_delete_options_t option" where
  "zgrpc_query_reply_delete_options_default options = map_option (\<lambda>_.
     \<lparr>rdo_attachment = 0, rdo_attachment_len = 0, rdo_timestamp = 0\<rparr>) options"

section \<open>Arguments\<close>

text \<open>\<^verbatim>\<open>options.map_or_else(String::new, |o| cstr(o.field))\<close> and its variants.\<close>

definition opt_cstr :: "('o \<Rightarrow> addr) \<Rightarrow> 'o option \<Rightarrow> string mem_op" where
  "opt_cstr field options = (case options of None \<Rightarrow> done_with [] | Some opts \<Rightarrow> cstr (field opts))"

definition opt_payload :: "('o \<Rightarrow> addr) \<Rightarrow> ('o \<Rightarrow> nat) \<Rightarrow> 'o option \<Rightarrow> bytes mem_op" where
  "opt_payload field len options =
     (case options of None \<Rightarrow> done_with [] | Some opts \<Rightarrow> payload_vec (field opts) (len opts))"

definition opt_field :: "'a \<Rightarrow> ('o \<Rightarrow> 'a) \<Rightarrow> 'o option \<Rightarrow> 'a" where
  "opt_field z field options = (case options of None \<Rightarrow> z | Some opts \<Rightarrow> field opts)"

definition session_put_args ::
  "addr \<Rightarrow> addr \<Rightarrow> nat \<Rightarrow> zgrpc_session_put_options_t option \<Rightarrow> SessionPutArgs mem_op" where
  "session_put_args key_expr payload payload_len options =
     and_then (cstr key_expr) (\<lambda>key.
     and_then (payload_vec payload payload_len) (\<lambda>body.
     and_then (opt_cstr spo_encoding options) (\<lambda>enc.
     and_then (opt_payload spo_attachment spo_attachment_len options) (\<lambda>att.
     and_then (opt_cstr spo_timestamp options) (\<lambda>ts.
     done_with \<lparr>pa_key_expr = key, pa_payload = body, pa_encoding = enc,
         pa_congestion_control = opt_field 0 spo_congestion_control options,
         pa_priority = opt_field 0 spo_priority options,
         pa_express = opt_field False spo_express options, pa_attachment = att,
         pa_timestamp = ts, pa_allowed_destination = opt_field 0 spo_allowed_destination options\<rparr>)))))"

definition session_delete_args ::
  "addr \<Rightarrow> zgrpc_session_delete_options_t option \<Rightarrow> SessionDeleteArgs mem_op" where
  "session_delete_args key_expr options =
     and_then (cstr key_expr) (\<lambda>key.
     and_then (opt_payload sdo_attachment sdo_attachment_len options) (\<lambda>att.
     and_then (opt_cstr sdo_timestamp options) (\<lambda>ts.
     done_with \<lparr>da_key_expr = key,
         da_congestion_control = opt_field 0 sdo_congestion_control options,
         da_priority = opt_field 0 sdo_priority options,
         da_express = opt_field False sdo_express options, da_attachment = att,
         da_timestamp = ts, da_allowed_destination = opt_field 0 sdo_allowed_destination options\<rparr>)))"

definition session_get_args ::
  "addr \<Rightarrow> zgrpc_session_get_options_t option \<Rightarrow> SessionGetArgs mem_op" where
  "session_get_args selector options =
     and_then (cstr selector) (\<lambda>sel.
     and_then (opt_payload sgo_payload sgo_payload_len options) (\<lambda>body.
     and_then (opt_cstr sgo_encoding options) (\<lambda>enc.
     and_then (opt_payload sgo_attachment sgo_attachment_len options) (\<lambda>att.
     done_with \<lparr>ga_selector = sel, ga_target = opt_field 0 sgo_target options,
         ga_consolidation = opt_field 0 sgo_consolidation options,
         ga_timeout_ms = opt_field 0 sgo_timeout_ms options, ga_payload = body,
         ga_encoding = enc, ga_attachment = att,
         ga_allowed_destination = opt_field 0 sgo_allowed_destination options\<rparr>))))"

definition publisher_args ::
  "addr \<Rightarrow> zgrpc_publisher_options_t option \<Rightarrow> DeclarePublisherArgs mem_op" where
  "publisher_args key_expr options =
     and_then (cstr key_expr) (\<lambda>key.
     and_then (opt_cstr pbo_encoding options) (\<lambda>enc.
     done_with \<lparr>dpa_key_expr = key, dpa_encoding = enc,
         dpa_congestion_control = opt_field 0 pbo_congestion_control options,
         dpa_priority = opt_field 0 pbo_priority options,
         dpa_express = opt_field False pbo_express options,
         dpa_reliability = opt_field 0 pbo_reliability options,
         dpa_allowed_destination = opt_field 0 pbo_allowed_destination options\<rparr>))"

definition subscriber_args ::
  "addr \<Rightarrow> zgrpc_subscriber_options_t option \<Rightarrow> DeclareSubscriberArgs mem_op" where
  "subscriber_args key_expr options =
     and_then (cstr key_expr) (\<lambda>key.
     done_with \<lparr>dsa_key_expr = key,
         dsa_allowed_origin = opt_field 0 sbo_allowed_origin options\<rparr>)"

definition queryable_args ::
  "addr \<Rightarrow> zgrpc_queryable_options_t option \<Rightarrow> DeclareQueryableArgs mem_op" where
  "queryable_args key_expr options =
     and_then (cstr key_expr) (\<lambda>key.
     done_with \<lparr>dqa_key_expr = key, dqa_complete = opt_field False qbo_complete options,
         dqa_allowed_origin = opt_field 0 qbo_allowed_origin options\<rparr>)"

definition querier_args ::
  "addr \<Rightarrow> zgrpc_querier_options_t option \<Rightarrow> DeclareQuerierArgs mem_op" where
  "querier_args key_expr options =
     and_then (cstr key_expr) (\<lambda>key.
     done_with \<lparr>dra_key_expr = key, dra_target = opt_field 0 qro_target options,
         dra_consolidation = opt_field 0 qro_consolidation options,
         dra_timeout_ms = opt_field 0 qro_timeout_ms options,
         dra_allowed_destination = opt_field 0 qro_allowed_destination options\<rparr>)"

definition querier_get_args ::
  "addr \<Rightarrow> zgrpc_querier_get_options_t option \<Rightarrow> QuerierGetArgs mem_op" where
  "querier_get_args parameters options =
     and_then (cstr parameters) (\<lambda>par.
     and_then (opt_payload qgo_payload qgo_payload_len options) (\<lambda>body.
     and_then (opt_cstr qgo_encoding options) (\<lambda>enc.
     and_then (opt_payload qgo_attachment qgo_attachment_len options) (\<lambda>att.
     done_with \<lparr>qga_parameters = par, qga_payload = body, qga_encoding = enc,
         qga_attachment = att\<rparr>))))"

definition publisher_put_args ::
  "addr \<Rightarrow> nat \<Rightarrow> zgrpc_publisher_put_options_t option \<Rightarrow> PublisherPutArgs mem_op" where
  "publisher_put_args payload payload_len options =
     and_then (payload_vec payload payload_len) (\<lambda>body.
     and_then (opt_cstr ppo_encoding options) (\<lambda>enc.
     and_then (opt_payload ppo_attachment ppo_attachment_len options) (\<lambda>att.
     and_then (opt_cstr ppo_timestamp options) (\<lambda>ts.
     done_with \<lparr>ppa_payload = body, ppa_encoding = enc, ppa_attachment = att,
         ppa_timestamp = ts\<rparr>))))"

definition publisher_delete_args ::
  "zgrpc_publisher_delete_options_t option \<Rightarrow> PublisherDeleteArgs mem_op" where
  "publisher_delete_args options =
     and_then (opt_payload pdo_attachment pdo_attachment_len options) (\<lambda>att.
     and_then (opt_cstr pdo_timestamp options) (\<lambda>ts.
     done_with \<lparr>pda_attachment = att, pda_timestamp = ts\<rparr>))"

section \<open>Null options\<close>

lemma null_reads [simp]: "cstr 0 = done_with []" "payload_vec 0 n = done_with []"
  by (simp_all add: cstr_def payload_vec_def done_with_def)

lemma opt_simps [simp]:
  "opt_cstr f None = done_with []" "opt_cstr f (Some opts) = cstr (f opts)"
  "opt_payload f l None = done_with []" "opt_payload f l (Some opts) = payload_vec (f opts) (l opts)"
  "opt_field z g None = z" "opt_field z g (Some opts) = g opts"
  by (simp_all add: opt_cstr_def opt_payload_def opt_field_def)

text \<open>
  Passing no options is the same as passing the default options. For every call of the C interface
  that takes options, a null pointer and a structure initialised by the matching \<^verbatim>\<open>_default\<close> function,
  whatever it held before, give the same arguments to the client core.
\<close>

theorem null_options_are_default:
  "session_put_args k p n (zgrpc_session_put_options_default (Some a)) = session_put_args k p n None
   \<and> session_delete_args k (zgrpc_session_delete_options_default (Some b)) = session_delete_args k None
   \<and> session_get_args k (zgrpc_session_get_options_default (Some c)) = session_get_args k None
   \<and> publisher_args k (zgrpc_publisher_options_default (Some d)) = publisher_args k None
   \<and> subscriber_args k (zgrpc_subscriber_options_default (Some e)) = subscriber_args k None
   \<and> queryable_args k (zgrpc_queryable_options_default (Some f)) = queryable_args k None
   \<and> querier_args k (zgrpc_querier_options_default (Some g)) = querier_args k None
   \<and> querier_get_args k (zgrpc_querier_get_options_default (Some i)) = querier_get_args k None
   \<and> publisher_put_args p n (zgrpc_publisher_put_options_default (Some j)) = publisher_put_args p n None
   \<and> publisher_delete_args (zgrpc_publisher_delete_options_default (Some l)) = publisher_delete_args None"
  by (simp add: session_put_args_def session_delete_args_def session_get_args_def publisher_args_def
      subscriber_args_def queryable_args_def querier_args_def querier_get_args_def
      publisher_put_args_def publisher_delete_args_def zgrpc_session_put_options_default_def
      zgrpc_session_delete_options_default_def zgrpc_session_get_options_default_def
      zgrpc_publisher_options_default_def zgrpc_subscriber_options_default_def
      zgrpc_queryable_options_default_def zgrpc_querier_options_default_def
      zgrpc_querier_get_options_default_def zgrpc_publisher_put_options_default_def
      zgrpc_publisher_delete_options_default_def)

end
