(* ===== verification/C_Crossing.thy ===== *)
theory C_Crossing
  imports C_Ownership
begin

text \<open>
  Data that crosses the boundary to C: what a C program reads from the structures is what the client
  core delivered, every fill is undone by its free, and the strings that cannot cross.
\<close>

section \<open>Reading as C does\<close>

definition read_str :: "memory \<Rightarrow> addr \<Rightarrow> string" where
  "read_str h p = (case blocks h p of Some (StrBlock s) \<Rightarrow> s | _ \<Rightarrow> [])"

definition read_bytes :: "memory \<Rightarrow> addr \<Rightarrow> nat \<Rightarrow> bytes" where
  "read_bytes h p n = (case blocks h p of Some (BytesBlock b _) \<Rightarrow> take n b | _ \<Rightarrow> [])"

definition read_sample_ex :: "memory \<Rightarrow> zgrpc_sample_ex_t \<Rightarrow> pb_Sample" where
  "read_sample_ex h x =
     \<lparr>smp_key_expr = read_str h (cx_key_expr x), smp_payload = read_bytes h (cx_payload x) (cx_payload_len x),
      smp_encoding = read_str h (cx_encoding x), smp_kind = cx_kind x,
      smp_attachment = read_bytes h (cx_attachment x) (cx_attachment_len x),
      smp_timestamp = read_str h (cx_timestamp x),
      smp_source_info =
        (if ci_is_valid (cx_source_info x) = 0 then None
         else Some \<lparr>src_id = read_str h (ci_id (cx_source_info x)), src_sequence = ci_sequence (cx_source_info x)\<rparr>)\<rparr>"

definition read_query_ex :: "memory \<Rightarrow> zgrpc_query_ex_t \<Rightarrow> pb_Query" where
  "read_query_ex h x =
     \<lparr>qry_query_id = cy_query_id x, qry_selector = read_str h (cy_selector x),
      qry_key_expr = read_str h (cy_key_expr x), qry_parameters = read_str h (cy_parameters x),
      qry_payload = read_bytes h (cy_payload x) (cy_payload_len x),
      qry_encoding = read_str h (cy_encoding x),
      qry_attachment = read_bytes h (cy_attachment x) (cy_attachment_len x)\<rparr>"

definition read_reply_ex :: "memory \<Rightarrow> zgrpc_reply_ex_t \<Rightarrow> pb_reply_result option" where
  "read_reply_ex h x =
     (if cz_has_sample x \<noteq> 0 then Some (Reply_Sample (read_sample_ex h (cz_sample x)))
      else if cz_has_error x \<noteq> 0
      then Some (Reply_Error
             \<lparr>rerr_payload = read_bytes h (cf_payload (cz_error x)) (cf_payload_len (cz_error x)),
              rerr_encoding = read_str h (cf_encoding (cz_error x))\<rparr>)
      else None)"

lemma owned_reads:
  assumes "owned h base xs"
  shows "PStr p s \<in> set xs \<Longrightarrow> read_str h p = s" "PBytes p n b \<in> set xs \<Longrightarrow> read_bytes h p n = b"
  using assms
  by (fastforce simp: owned_def mem_ok_def list_all_iff read_str_def read_bytes_def split: if_splits)+

lemma owned_keeps_base: "owned h base xs \<Longrightarrow> base \<subseteq>\<^sub>m blocks h"
  by (auto simp: owned_def map_le_def restrict_map_def)

lemma owned_sample_ex_read:
  assumes "owned h base (sample_ex_pieces x s @ xs)" and "cx_kind x = smp_kind s"
    and "source_filled (cx_source_info x) (smp_source_info s)"
  shows "read_sample_ex h x = s"
proof -
  have "read_str h (ci_id (cx_source_info x)) = source_id (smp_source_info s)"
    by (rule owned_reads(1) [OF assms(1)]) (simp add: sample_ex_pieces_def)
  with assms(3) have "(if ci_is_valid (cx_source_info x) = 0 then None
      else Some \<lparr>src_id = read_str h (ci_id (cx_source_info x)), src_sequence = ci_sequence (cx_source_info x)\<rparr>)
      = smp_source_info s"
    by (cases "smp_source_info s") (auto simp: source_filled_def source_id_def)
  moreover have "read_str h (cx_key_expr x) = smp_key_expr s" "read_str h (cx_encoding x) = smp_encoding s"
    "read_str h (cx_timestamp x) = smp_timestamp s"
    "read_bytes h (cx_payload x) (cx_payload_len x) = smp_payload s"
    "read_bytes h (cx_attachment x) (cx_attachment_len x) = smp_attachment s"
    using owned_reads [OF assms(1)] by (auto simp: sample_ex_pieces_def)
  ultimately show ?thesis using assms(2) by (simp add: read_sample_ex_def)
qed

lemma owned_query_ex_read:
  assumes "owned h base (query_ex_pieces x q @ xs)" and "cy_query_id x = qry_query_id q"
  shows "read_query_ex h x = q"
  using owned_reads [OF assms(1)] assms(2) by (auto simp: read_query_ex_def query_ex_pieces_def)

lemma owned_reply_read:
  assumes "owned h base (reply_pieces x r @ xs)" and "reply_filled x r"
  shows "read_reply_ex h x = r"
proof (cases r)
  case None
  with assms(2) show ?thesis by (auto simp: read_reply_ex_def)
next
  case (Some res)
  with assms show ?thesis
    using owned_sample_ex_read [of h base "cz_sample x" _ xs] owned_reads [OF assms(1)]
    by (cases res) (auto simp: read_reply_ex_def reply_error_pieces_def)
qed

section \<open>Contents\<close>

text \<open>
  C22: data crosses to C unchanged. If no string has a nul byte, a C program that reads the structure
  filled for an event, a reply or a query finds exactly the sample, the result or the query that the
  client core delivered, empty strings and buffers as null pointers included, and no memory that was
  in use before has changed.
\<close>

theorem data_crosses_intact:
  assumes "mem_ok h"
  shows "(event_clean ev \<and> sevt_sample ev = Some s \<longrightarrow>
      (\<exists>x h'. fill_subscriber_event dst ev h = Inr ((0, x), h') \<and> ce_has_sample x = 1
         \<and> read_sample_ex h' (ce_sample x) = s \<and> blocks h \<subseteq>\<^sub>m blocks h'))
    \<and> (result_clean (reply_result r) \<longrightarrow>
      (\<exists>rc x h'. fill_reply_ex dst' r h = Inr ((rc, x), h')
         \<and> read_reply_ex h' x = reply_result r \<and> blocks h \<subseteq>\<^sub>m blocks h'))
    \<and> (query_clean q \<longrightarrow>
      (\<exists>x h'. query_to_owned q h = Inr (x, h') \<and> read_query_ex h' x = q \<and> blocks h \<subseteq>\<^sub>m blocks h'))"
proof (intro conjI impI)
  note start = owned_nothing [OF assms]
  assume ev: "event_clean ev \<and> sevt_sample ev = Some s"
  then have "wp (fill_subscriber_event dst ev) (\<lambda>(rc, x) h'. rc = 0 \<and> ce_has_sample x = 1
      \<and> read_sample_ex h' (ce_sample x) = s \<and> blocks h \<subseteq>\<^sub>m blocks h') h"
    by (intro wp_subscriber_event [OF start])
      (auto intro: owned_sample_ex_read [where xs = "[]", simplified] owned_keeps_base)
  then show "\<exists>x h'. fill_subscriber_event dst ev h = Inr ((0, x), h') \<and> ce_has_sample x = 1
      \<and> read_sample_ex h' (ce_sample x) = s \<and> blocks h \<subseteq>\<^sub>m blocks h'"
    by (auto simp: wp_Inr)
next
  assume "result_clean (reply_result r)"
  then have "wp (fill_reply_ex dst' r)
      (\<lambda>(rc, x) h'. read_reply_ex h' x = reply_result r \<and> blocks h \<subseteq>\<^sub>m blocks h') h"
    by (rule wp_reply_ex [OF owned_nothing [OF assms]]) (auto intro: owned_reply_read [where xs = "[]", simplified] owned_keeps_base)
  then show "\<exists>rc x h'. fill_reply_ex dst' r h = Inr ((rc, x), h')
      \<and> read_reply_ex h' x = reply_result r \<and> blocks h \<subseteq>\<^sub>m blocks h'"
    by (auto simp: wp_Inr)
next
  assume "query_clean q"
  then have "wp (query_to_owned q) (\<lambda>x h'. read_query_ex h' x = q \<and> blocks h \<subseteq>\<^sub>m blocks h') h"
    by (rule wp_query_to_owned [OF owned_nothing [OF assms]]) (auto intro: owned_query_ex_read [where xs = "[]", simplified] owned_keeps_base)
  then show "\<exists>x h'. query_to_owned q h = Inr (x, h') \<and> read_query_ex h' x = q \<and> blocks h \<subseteq>\<^sub>m blocks h'"
    by (simp add: wp_Inr)
qed

section \<open>Memory\<close>

text \<open>
  C21: every fill is undone by its free. From any memory, filling one of the structures for a sample, an
  event, a reply or a query and then freeing it succeeds, never frees a block twice or with a wrong
  length, and leaves exactly the blocks that were there before; the structure is cleared, so freeing
  it once more changes nothing.
\<close>

theorem fill_free_restores:
  assumes "mem_ok h"
  shows "(no_nul (smp_key_expr s) \<longrightarrow>
      wp (and_then (fill_sample d1 s) zgrpc_sample_free)
        (\<lambda>x h'. blocks h' = blocks h \<and> zgrpc_sample_free x h' = Inr (x, h')) h)
    \<and> (event_clean ev \<longrightarrow>
      wp (and_then (fill_subscriber_event d2 ev) (\<lambda>(_, x). zgrpc_subscriber_event_free x))
        (\<lambda>x h'. blocks h' = blocks h \<and> zgrpc_subscriber_event_free x h' = Inr (x, h')) h)
    \<and> (result_clean (reply_result r) \<longrightarrow>
      wp (and_then (fill_reply_ex d3 r) (\<lambda>(_, x). zgrpc_reply_ex_free x))
        (\<lambda>x h'. blocks h' = blocks h \<and> zgrpc_reply_ex_free x h' = Inr (x, h')) h)
    \<and> (query_clean q \<longrightarrow>
      wp (and_then (fill_legacy_query d4 q) zgrpc_query_free)
        (\<lambda>x h'. blocks h' = blocks h \<and> zgrpc_query_free x h' = Inr (x, h')) h
      \<and> wp (and_then (query_to_owned q) zgrpc_query_ex_free)
        (\<lambda>x h'. blocks h' = blocks h \<and> zgrpc_query_ex_free x h' = Inr (x, h')) h)"
proof (intro conjI impI)
  note start = owned_nothing [OF assms]
  show "wp (and_then (fill_sample d1 s) zgrpc_sample_free)
      (\<lambda>x h'. blocks h' = blocks h \<and> zgrpc_sample_free x h' = Inr (x, h')) h" if "no_nul (smp_key_expr s)"
    by (simp, rule wp_sample [OF start that], erule wp_sample_free)
      (auto simp: done_with_def dest: owned_all_freed)
  show "wp (and_then (fill_subscriber_event d2 ev) (\<lambda>(_, x). zgrpc_subscriber_event_free x))
      (\<lambda>x h'. blocks h' = blocks h \<and> zgrpc_subscriber_event_free x h' = Inr (x, h')) h" if "event_clean ev"
    by (simp, rule wp_subscriber_event [OF start that], simp, rule wp_subscriber_event_free [where xs = "[]"])
      (auto simp: done_with_def dest: owned_all_freed)
  show "wp (and_then (fill_reply_ex d3 r) (\<lambda>(_, x). zgrpc_reply_ex_free x))
      (\<lambda>x h'. blocks h' = blocks h \<and> zgrpc_reply_ex_free x h' = Inr (x, h')) h" if "result_clean (reply_result r)"
    by (simp, rule wp_reply_ex [OF start that], simp, rule wp_reply_ex_free [where xs = "[]"])
      (auto simp: done_with_def dest: owned_all_freed)
  show "wp (and_then (fill_legacy_query d4 q) zgrpc_query_free)
      (\<lambda>x h'. blocks h' = blocks h \<and> zgrpc_query_free x h' = Inr (x, h')) h" if "query_clean q"
    by (simp, rule wp_legacy_query [OF start that], erule wp_query_free)
      (auto simp: done_with_def dest: owned_all_freed)
  show "wp (and_then (query_to_owned q) zgrpc_query_ex_free)
      (\<lambda>x h'. blocks h' = blocks h \<and> zgrpc_query_ex_free x h' = Inr (x, h')) h" if "query_clean q"
    by (simp, rule wp_query_to_owned [OF start that], erule wp_query_ex_free)
      (auto simp: done_with_def dest: owned_all_freed)
qed

section \<open>Strings that cannot cross\<close>

lemma into_c_string_nul: "into_c_string s h = Inl Panic \<longleftrightarrow> \<not> no_nul s"
  by (auto simp: into_c_string_def no_nul_def done_with_def allocate_def)

lemma into_c_string_fault: "into_c_string s h = Inl e \<Longrightarrow> e = Panic \<and> \<not> no_nul s"
  by (auto simp: into_c_string_def no_nul_def done_with_def allocate_def split: if_splits)

lemma into_c_bytes_total: "into_c_bytes b h \<noteq> Inl e"
  by (auto simp: into_c_bytes_def done_with_def and_then_def allocate_def)

lemma fill_source_info_fault:
  "fill_source_info dst i h = Inl e \<Longrightarrow> e = Panic \<and> \<not> no_nul (source_id i)"
  by (auto simp: fill_source_info_def source_id_def and_then_def done_with_def Let_def
      split: option.splits sum.splits dest!: into_c_string_fault)

lemma fill_sample_ex_fault:
  "fill_sample_ex dst s h = Inl e \<Longrightarrow> e = Panic \<and> \<not> sample_clean s"
  by (auto simp: fill_sample_ex_def sample_clean_def and_then_def done_with_def Let_def into_c_bytes_total
      split: sum.splits dest!: into_c_string_fault fill_source_info_fault)

lemma fill_sample_ex_panics:
  assumes "\<not> sample_clean s"
  shows "fill_sample_ex dst s h = Inl Panic"
proof (cases "fill_sample_ex dst s h")
  case (Inl e)
  with fill_sample_ex_fault show ?thesis by blast
next
  case (Inr xh)
  have clean: "no_nul t" if "into_c_string t g = Inr (p, g')" for t g p g'
    using that into_c_string_nul [of t g] by auto
  have source: "no_nul (source_id i)" if "fill_source_info d i g = Inr (y, g')" for d i g y g'
    using that by (auto simp: fill_source_info_def source_id_def and_then_def done_with_def Let_def no_nul_def
        split: option.splits sum.splits dest!: clean)
  from Inr have "sample_clean s"
    by (auto simp: fill_sample_ex_def sample_clean_def and_then_def done_with_def Let_def
        split: sum.splits dest!: clean source)
  with assms show ?thesis by blast
qed

text \<open>
  A nul byte in the key expression, the encoding, the timestamp or the source id of a sample makes
  the wrapper panic, and nothing else does. The strings come from other peers of the network. A
  receiving call panics across the boundary to C; in a callback the panic is caught and the event lost.
\<close>

theorem nul_byte_panics:
  assumes "sevt_sample ev = Some s"
  shows "(fill_subscriber_event dst ev h = Inl Panic \<longleftrightarrow> \<not> sample_clean s)
    \<and> fill_subscriber_event dst ev h \<noteq> Inl Invalid"
proof -
  let ?fill = "fill_sample_ex (ce_sample (clear_subscriber_event dst)) s h"
  have "(\<exists>e. fill_subscriber_event dst ev h = Inl e) \<longleftrightarrow> (\<exists>e. ?fill = Inl e)"
    "fill_subscriber_event dst ev h = Inl e \<longleftrightarrow> ?fill = Inl e" for e
    using assms
    by (auto simp: fill_subscriber_event_def and_then_def done_with_def Let_def split: sum.split)
  then show ?thesis
    using fill_sample_ex_panics [of s "ce_sample (clear_subscriber_event dst)" h]
      fill_sample_ex_fault [of "ce_sample (clear_subscriber_event dst)" s h] by auto
qed

section \<open>Witnesses\<close>

definition no_memory :: memory where
  "no_memory = \<lparr>blocks = Map.empty, next_addr = 1\<rparr>"

definition a_sample :: pb_Sample where
  "a_sample = \<lparr>smp_key_expr = ''k'', smp_payload = [1, 2], smp_encoding = [], smp_kind = 1,
     smp_attachment = [], smp_timestamp = [], smp_source_info = Some \<lparr>src_id = ''z'', src_sequence = 7\<rparr>\<rparr>"

definition null_sample_ex :: zgrpc_sample_ex_t where
  "null_sample_ex = \<lparr>cx_key_expr = 0, cx_payload = 0, cx_payload_len = 0, cx_encoding = 0, cx_kind = 0,
     cx_attachment = 0, cx_attachment_len = 0, cx_timestamp = 0,
     cx_source_info = \<lparr>ci_is_valid = 0, ci_id = 0, ci_sequence = 0\<rparr>\<rparr>"

definition null_event :: zgrpc_subscriber_event_t where
  "null_event = \<lparr>ce_has_sample = 0, ce_sample = null_sample_ex\<rparr>"

lemma a_sample_clean: "sample_clean a_sample" "mem_ok no_memory"
  by (simp_all add: a_sample_def sample_clean_def no_nul_def source_id_def no_memory_def mem_ok_def)

theorem data_crosses_intact_witness:
  "mem_ok no_memory
   \<and> (\<exists>x h'. fill_subscriber_event null_event \<lparr>sevt_sample = Some a_sample\<rparr> no_memory = Inr ((0, x), h')
        \<and> read_sample_ex h' (ce_sample x) = a_sample)"
proof -
  from data_crosses_intact [OF a_sample_clean(2), of "\<lparr>sevt_sample = Some a_sample\<rparr>" a_sample null_event]
  have "\<exists>x h'. fill_subscriber_event null_event \<lparr>sevt_sample = Some a_sample\<rparr> no_memory = Inr ((0, x), h')
      \<and> read_sample_ex h' (ce_sample x) = a_sample"
    using a_sample_clean(1) by simp blast
  with a_sample_clean(2) show ?thesis by blast
qed

theorem fill_free_restores_witness:
  "mem_ok no_memory \<and> event_clean \<lparr>sevt_sample = Some a_sample\<rparr>
   \<and> wp (and_then (fill_subscriber_event null_event \<lparr>sevt_sample = Some a_sample\<rparr>)
          (\<lambda>(_, x). zgrpc_subscriber_event_free x))
        (\<lambda>x h'. blocks h' = blocks no_memory \<and> zgrpc_subscriber_event_free x h' = Inr (x, h')) no_memory"
proof -
  have clean: "event_clean \<lparr>sevt_sample = Some a_sample\<rparr>" by (simp add: a_sample_clean)
  from fill_free_restores [OF a_sample_clean(2), of _ _ "\<lparr>sevt_sample = Some a_sample\<rparr>" null_event] clean
    a_sample_clean(2)
  show ?thesis by blast
qed

theorem nul_byte_panics_witness:
  "fill_subscriber_event null_event \<lparr>sevt_sample = Some (a_sample\<lparr>smp_encoding := [CHR 0x00]\<rparr>)\<rparr> no_memory
     = Inl Panic"
  using nul_byte_panics [of "\<lparr>sevt_sample = Some (a_sample\<lparr>smp_encoding := [CHR 0x00]\<rparr>)\<rparr>" _ null_event no_memory]
  by (simp add: sample_clean_def no_nul_def)

end
