(* ===== verification/Client_Blocking.thy ===== *)
theory Client_Blocking
  imports Client_Publisher Client_Replies Client_Querier
begin

text \<open>
  The calls of the client core that wait, as the C and the Python library make them: \<^verbatim>\<open>block_on\<close> of
  \<^verbatim>\<open>undeclare\<close>, \<^verbatim>\<open>cleanup\<close>, \<^verbatim>\<open>info\<close> and \<^verbatim>\<open>get\<close>. While the calling thread waits, the tasks of the runtime
  and the other threads of the program go on; a schedule says in which order they and the call itself
  move and what they are answered.

  The properties are about what is left when such a call has returned: the locale \<open>closable_worker\<close>
  extends the contract of a command worker by its closing, and a worker that is closed and idle never
  sends anything again.
\<close>

section \<open>Waiting for a result\<close>

text \<open>
  \<open>result s\<close> is the result of the call if it has returned in the state \<open>s\<close>. \<open>None\<close>: it has not returned
  when the schedule ends.
\<close>

fun block_on :: "('i \<Rightarrow> 's \<Rightarrow> 's option) \<Rightarrow> ('s \<Rightarrow> 'r option) \<Rightarrow> 'i list \<Rightarrow> 's \<Rightarrow> ('r \<times> 's) option" where
  "block_on step result [] s = map_option (\<lambda>r. (r, s)) (result s)"
| "block_on step result (i # is) s =
     (case result s of
        Some r \<Rightarrow> Some (r, s)
      | None \<Rightarrow> block_on step result is (step_or_stay step i s))"

lemma block_on_Some:
  assumes "block_on step result is s = Some (r, s')"
  obtains js where "s' = run_steps step js s" "result s' = Some r" "set js \<subseteq> set is"
  using assms
proof (induction "is" arbitrary: s thesis)
  case Nil
  then show ?case by (auto intro: Nil.prems(1) [of "[]"])
next
  case (Cons i "is")
  show ?case
  proof (cases "result s")
    case None
    with Cons.prems(2) have "block_on step result is (step_or_stay step i s) = Some (r, s')" by simp
    then obtain js where "s' = run_steps step js (step_or_stay step i s)" "result s' = Some r" "set js \<subseteq> set is"
      by (rule Cons.IH [rotated])
    then show ?thesis by (intro Cons.prems(1) [of "i # js"]) auto
  next
    case (Some x)
    with Cons.prems show ?thesis by (auto intro: Cons.prems(1) [of "[]"])
  qed
qed

text \<open>A call with a state \<open>'p\<close> of its own next to the actors of an object.\<close>

datatype ('i, 'a) call_input = OthersMove 'i | CallMoves 'a

fun call_step ::
  "('i \<Rightarrow> 's \<Rightarrow> 's option) \<Rightarrow> ('a \<Rightarrow> 'p \<times> 's \<Rightarrow> ('p \<times> 's) option) \<Rightarrow> ('i, 'a) call_input \<Rightarrow> 'p \<times> 's \<Rightarrow>
   ('p \<times> 's) option" where
  "call_step others call (OthersMove i) (pc, s) = map_option (Pair pc) (others i s)"
| "call_step others call (CallMoves a) (pc, s) = call a (pc, s)"

definition block_on_call ::
  "('i \<Rightarrow> 's \<Rightarrow> 's option) \<Rightarrow> ('a \<Rightarrow> 'p \<times> 's \<Rightarrow> ('p \<times> 's) option) \<Rightarrow> ('p \<Rightarrow> 'r option) \<Rightarrow> 'p \<Rightarrow>
   ('i, 'a) call_input list \<Rightarrow> 's \<Rightarrow> ('r \<times> 's) option" where
  "block_on_call others call result pc is s =
     map_option (\<lambda>(r, _, s'). (r, s')) (block_on (call_step others call) (result \<circ> fst) is (pc, s))"

section \<open>The calls\<close>

fun undeclared :: "'ch undeclare_pc \<Rightarrow> unit result option" where
  "undeclared (UnReturned r) = Some r"
| "undeclared _ = None"

definition GrpcPublisher_undeclare ::
  "('c, PublisherCommand) flume \<Rightarrow> 'ch publisher_input list \<Rightarrow> ('ch, 'c) publisher_sys \<Rightarrow>
   (unit result \<times> ('ch, 'c) publisher_sys) option" where
  "GrpcPublisher_undeclare F is S =
     block_on (publisher_step F) (\<lambda>S. undeclared (ps_undeclare S)) is (S\<lparr>ps_undeclare := UnIdle\<rparr>)"

definition GrpcSubscriber_undeclare ::
  "('c, pb_SubscriberEvent) flume \<Rightarrow> 'ch subscriber_input list \<Rightarrow> ('ch, 'c) subscriber_sys \<Rightarrow>
   (unit result \<times> ('ch, 'c) subscriber_sys) option" where
  "GrpcSubscriber_undeclare F is S =
     block_on (subscriber_step F) (\<lambda>S. undeclared (sub_undeclare S)) is (S\<lparr>sub_undeclare := UnIdle\<rparr>)"

definition GrpcQueryable_undeclare ::
  "('c, QueryableEventEnvelope) flume \<Rightarrow> ('d, QueryableCommand) flume \<Rightarrow> 'ch queryable_input list \<Rightarrow>
   ('ch, 'c, 'd) queryable_sys \<Rightarrow> (unit result \<times> ('ch, 'c, 'd) queryable_sys) option" where
  "GrpcQueryable_undeclare F G is S =
     block_on (queryable_step F G) (\<lambda>S. undeclared (qb_undeclare S)) is (S\<lparr>qb_undeclare := UnIdle\<rparr>)"

text \<open>
  A querier has no worker: what moves besides the call are the \<^verbatim>\<open>get\<close> calls of other threads, a list of
  their states, and the session.
\<close>

datatype 'ch querier_input =
    KiGet nat "u64 rpc_result" "unit rpc_result"
  | KiSession "'ch Inner"

fun querier_others ::
  "('r, pb_Reply) flume \<Rightarrow> 'ch querier_input \<Rightarrow> ('ch, 'r) querier_pc list \<times> 'ch querier_sys \<Rightarrow>
   (('ch, 'r) querier_pc list \<times> 'ch querier_sys) option" where
  "querier_others R (KiGet n ha a) (pcs, S) =
     (if n < length pcs
      then map_option (\<lambda>(pc, S'). (pcs[n := pc], S')) (querier_get_step R ha a (pcs ! n, S))
      else None)"
| "querier_others R (KiSession s) (pcs, S) = Some (pcs, S\<lparr>qr_session := s\<rparr>)"

definition GrpcQuerier_undeclare ::
  "('r, pb_Reply) flume \<Rightarrow> ('ch querier_input, unit rpc_result) call_input list \<Rightarrow>
   ('ch, 'r) querier_pc list \<times> 'ch querier_sys \<Rightarrow>
   (unit result \<times> ('ch, 'r) querier_pc list \<times> 'ch querier_sys) option" where
  "GrpcQuerier_undeclare R is S =
     block_on_call (querier_others R)
       (\<lambda>a (pc, pcs, S). map_option (\<lambda>(pc', S'). (pc', pcs, S')) (querier_undeclare_step a (pc, S)))
       undeclared UnIdle is S"

fun returned_stream :: "('ch, 'r) querier_pc \<Rightarrow> 'r reply_stream result option" where
  "returned_stream (QgReturned r) = Some r"
| "returned_stream _ = None"

definition GrpcQuerier_get ::
  "('r, pb_Reply) flume \<Rightarrow> ('ch querier_input, u64 rpc_result \<times> unit rpc_result) call_input list \<Rightarrow>
   ('ch, 'r) querier_pc list \<times> 'ch querier_sys \<Rightarrow>
   ('r reply_stream result \<times> ('ch, 'r) querier_pc list \<times> 'ch querier_sys) option" where
  "GrpcQuerier_get R is S =
     block_on_call (querier_others R)
       (\<lambda>(ha, a) (pc, pcs, S). map_option (\<lambda>(pc', S'). (pc', pcs, S')) (querier_get_step R ha a (pc, S)))
       returned_stream QgStart is S"

fun cleaned :: "'ch cleanup_pc \<Rightarrow> unit result option" where
  "cleaned (ClReturned r) = Some r"
| "cleaned _ = None"

definition GrpcSession_cleanup ::
  "('c, SessionCommand) flume \<Rightarrow> ('ch session_input, unit rpc_result) call_input list \<Rightarrow>
   ('ch, 'c) session_sys \<Rightarrow> (unit result \<times> ('ch, 'c) session_sys) option" where
  "GrpcSession_cleanup F is S = block_on_call (session_step F) cleanup_step cleaned ClStart is S"

fun informed :: "'ch info_pc \<Rightarrow> string result option" where
  "informed (InfoReturned r) = Some r"
| "informed _ = None"

definition GrpcSession_info ::
  "('c, SessionCommand) flume \<Rightarrow> ('ch session_input, string rpc_result) call_input list \<Rightarrow>
   ('ch, 'c) session_sys \<Rightarrow> (string result \<times> ('ch, 'c) session_sys) option" where
  "GrpcSession_info F is S =
     block_on_call (session_step F)
       (\<lambda>a (pc, S). map_option (\<lambda>(pc', s). (pc', S\<lparr>ss_inner := s\<rparr>)) (info_step a (pc, ss_inner S)))
       informed (InfoWaiting WaitClosed) is S"

text \<open>\<^verbatim>\<open>GrpcSession::get\<close>: one step up to the request, one from its answer on.\<close>

datatype ('ch, 'r) session_get_pc = GetStart | GetCalling 'ch u64 | GetReturned "'r reply_stream result"

definition session_get_step ::
  "('r, pb_Reply) flume \<Rightarrow> unit rpc_result \<Rightarrow> ('ch, 'r) session_get_pc \<times> ('ch, 'c) session_sys \<Rightarrow>
   (('ch, 'r) session_get_pc \<times> ('ch, 'c) session_sys) option" where
  "session_get_step R answer ps =
     (let S = snd ps in
      case fst ps of
        GetStart \<Rightarrow>
          (case get_start R (ss_inner S) of
             (StartReturn q, s) \<Rightarrow> Some (GetReturned (Inr (ReplyStream q False)), S\<lparr>ss_inner := s\<rparr>)
           | (StartCall c g, s) \<Rightarrow> Some (GetCalling c g, S\<lparr>ss_inner := s\<rparr>))
      | GetCalling c g \<Rightarrow>
          (case get_answer R g answer (ss_inner S) of
             (r, s) \<Rightarrow> Some (GetReturned r, S\<lparr>ss_inner := s\<rparr>))
      | GetReturned _ \<Rightarrow> None)"

fun got :: "('ch, 'r) session_get_pc \<Rightarrow> 'r reply_stream result option" where
  "got (GetReturned r) = Some r"
| "got _ = None"

definition GrpcSession_get ::
  "('c, SessionCommand) flume \<Rightarrow> ('r, pb_Reply) flume \<Rightarrow>
   ('ch session_input, unit rpc_result) call_input list \<Rightarrow> ('ch, 'c) session_sys \<Rightarrow>
   ('r reply_stream result \<times> ('ch, 'c) session_sys) option" where
  "GrpcSession_get F R is S = block_on_call (session_step F) (session_get_step R) got GetStart is S"

section \<open>Closing a worker\<close>

text \<open>
  \<open>shut s\<close>: the object is closed. \<open>committed s\<close>: the worker has found the object open and goes on to
  send its command. A worker that is shut before it commits never does.
\<close>

locale closable_worker = command_worker step ok current queued unprocessed submitted acked
  for step :: "'i \<Rightarrow> 's \<Rightarrow> 's option" and ok and current :: "'s \<Rightarrow> 'cmd option" and queued and unprocessed
    and submitted and acked +
  fixes shut committed :: "'s \<Rightarrow> bool"
  assumes shut_step: "shut s \<Longrightarrow> step i s = Some s' \<Longrightarrow> shut s'"
    and committed_current: "committed s \<Longrightarrow> current s \<noteq> None"
    and committed_step: "shut s \<Longrightarrow> \<not> committed s \<Longrightarrow> step i s = Some s' \<Longrightarrow> \<not> committed s'"
    and acked_committed: "step i s = Some s' \<Longrightarrow> acked i s \<noteq> [] \<Longrightarrow> committed s"
begin

lemma silent_run:
  assumes "shut s" and "\<not> committed s"
  shows "shut (run_steps step is s) \<and> \<not> committed (run_steps step is s) \<and> run_log step acked is s = []"
  using assms
proof (induction "is" arbitrary: s)
  case (Cons i "is")
  show ?case
  proof (cases "step i s")
    case (Some s')
    with Cons shut_step [OF Cons.prems(1) Some] committed_step [OF Cons.prems Some]
      acked_committed [OF Some] show ?thesis by (auto simp: step_or_stay_def)
  qed (use Cons in \<open>simp add: step_or_stay_def\<close>)
qed simp

lemma idle_step:
  assumes "ok s" and "step i s = Some s'" and "submitted i s = []" and "current s = None" and "queued s = []"
  shows "current s' = None \<and> queued s' = []"
  using step_cases [OF assms(1,2)] assms(3-5) by auto

lemma processed_idle:
  assumes "ok s" and "unprocessed s = of_nat (length (held (current s) @ queued s))" and "unprocessed s = 0"
  shows "current s = None \<and> queued s = []"
proof -
  have "length (held (current s) @ queued s) < 2 ^ 64"
    using queued_bound [OF assms(1)] by (cases "current s") simp_all
  with assms(2,3) have "length (held (current s) @ queued s) = 0" by (intro u64_of_nat_eq_0) simp_all
  then show ?thesis by simp
qed

end

text \<open>The phases of \<^verbatim>\<open>undeclare\<close> on an object that waits for its queue of commands first.\<close>

fun past_closing :: "'ch undeclare_pc \<Rightarrow> bool" where
  "past_closing UnIdle = False"
| "past_closing UnWaitEmpty = False"
| "past_closing UnClose = False"
| "past_closing _ = True"

locale undeclared_worker = closable_worker step ok current queued unprocessed submitted acked shut committed
  for step :: "'i \<Rightarrow> 's \<Rightarrow> 's option" and ok and current :: "'s \<Rightarrow> 'cmd option" and queued and unprocessed
    and submitted and acked and shut and committed +
  fixes pc :: "'s \<Rightarrow> 'ch undeclare_pc"
  assumes pc_step: "step i s = Some s' \<Longrightarrow> pc s' = pc s \<or> pc s' = UnWaitEmpty
      \<or> pc s = UnWaitEmpty \<and> pc s' = UnClose \<and> unprocessed s = 0
      \<or> pc s = UnClose \<and> pc s' = UnTake \<and> shut s'
      \<or> past_closing (pc s) \<and> past_closing (pc s')"
begin

lemma undeclare_run:
  assumes "ok s" and "unprocessed s = of_nat (length (held (current s) @ queued s))" and "pc s = UnIdle"
    and "\<And>i s. i \<in> set is \<Longrightarrow> submitted i s = []" and "past_closing (pc (run_steps step is s))"
  shows "shut (run_steps step is s)" and "current (run_steps step is s) = None"
    and "queued (run_steps step is s) = []"
proof -
  let ?I = "\<lambda>s. ok s \<and> unprocessed s = of_nat (length (held (current s) @ queued s))
    \<and> (pc s = UnClose \<or> past_closing (pc s) \<longrightarrow> current s = None \<and> queued s = [])
    \<and> (past_closing (pc s) \<longrightarrow> shut s)"
  have I: "?I (run_steps step is s)" if "?I s" and "\<And>i s. i \<in> set is \<Longrightarrow> submitted i s = []" for "is" s
    using that
  proof (induction "is" arbitrary: s)
    case (Cons i "is")
    show ?case
    proof (cases "step i s")
      case None
      with Cons show ?thesis by (simp add: step_or_stay_def)
    next
      case (Some s')
      from Cons.prems(1) have ok: "ok s" and n: "unprocessed s = of_nat (length (held (current s) @ queued s))"
        by simp_all
      have idle: "current s' = None \<and> queued s' = []"
        if "pc s = UnClose \<or> past_closing (pc s) \<or> unprocessed s = 0"
      proof -
        from that Cons.prems(1) processed_idle [OF ok n] have "current s = None" "queued s = []" by metis+
        with idle_step [OF ok Some Cons.prems(2)] show ?thesis by simp
      qed
      have "pc s = UnClose \<or> past_closing (pc s) \<or> unprocessed s = 0"
        if "pc s' = UnClose \<or> past_closing (pc s')"
        using pc_step [OF Some] that by (elim disjE conjE) simp_all
      moreover have "shut s'" if "past_closing (pc s')"
        using pc_step [OF Some] that
      proof (elim disjE conjE)
        assume "pc s' = pc s"
        with that Cons.prems(1) shut_step [OF _ Some] show ?thesis by metis
      next
        assume "past_closing (pc s)"
        with Cons.prems(1) shut_step [OF _ Some] show ?thesis by metis
      qed simp_all
      ultimately have "?I s'"
        using idle step_ok [OF ok Some] step_unprocessed [OF ok Some n] by blast
      with Cons.IH [of s'] Cons.prems(2) Some show ?thesis by (simp add: step_or_stay_def)
    qed
  qed simp
  have "?I s" using assms(1-3) by simp
  from I [OF this assms(4)] assms(5)
  show "shut (run_steps step is s)" and "current (run_steps step is s) = None"
    and "queued (run_steps step is s) = []" by auto
qed

text \<open>What can be said when the call has returned.\<close>

lemma undeclare_silent:
  assumes "ok s" and "unprocessed s = of_nat (length (held (current s) @ queued s))" and "pc s = UnIdle"
    and "\<And>i s. i \<in> set is \<Longrightarrow> submitted i s = []"
    and "block_on step (\<lambda>s. undeclared (pc s)) is s = Some (r, s')"
  shows "shut s' \<and> queued s' = [] \<and> \<not> committed (run_steps step ks s') \<and> run_log step acked ks s' = []"
proof -
  from assms(5) obtain js where js: "s' = run_steps step js s" "undeclared (pc s') = Some r" "set js \<subseteq> set is"
    by (rule block_on_Some)
  from js(2) have "past_closing (pc (run_steps step js s))" unfolding js(1) by (cases "pc (run_steps step js s)") auto
  from undeclare_run [OF assms(1-3) _ this] assms(4) js have s': "shut s'" "current s' = None" "queued s' = []"
    by blast+
  with committed_current [of s'] have "\<not> committed s'" by blast
  from silent_run [OF s'(1) this] s' show ?thesis by blast
qed

end

section \<open>Publishers\<close>

fun publisher_committed :: "'ch publisher_pc \<Rightarrow> bool" where
  "publisher_committed PwRecv = False"
| "publisher_committed (PwHead cmd) = False"
| "publisher_committed PwDone = False"
| "publisher_committed _ = True"

lemma publisher_worker_closing:
  assumes "publisher_worker_step F pick ha a S = Some S'"
  shows "pub_closed (ps_inner S') = pub_closed (ps_inner S)" and "ps_undeclare S' = ps_undeclare S"
    and "pub_closed (ps_inner S) \<Longrightarrow> \<not> publisher_committed (ps_worker S) \<Longrightarrow> \<not> publisher_committed (ps_worker S')"
  using assms
  by (cases "ps_worker S"; force simp: publisher_steps publisher_is_closed_def Let_def
      split: sum.splits if_splits option.splits wait_result.splits)+

sublocale publisher_channel \<subseteq> pu: undeclared_worker "publisher_step F"
  "\<lambda>S. queue_ok SEND_QUEUE_CAPACITY (ps_queue S)" "\<lambda>S. publisher_current (ps_worker S)"
  "\<lambda>S. contents (chan (ps_queue S))" "\<lambda>S. pending (ps_queue S)" publisher_submitted publisher_acked
  "\<lambda>S. pub_closed (ps_inner S)" "\<lambda>S. publisher_committed (ps_worker S)" ps_undeclare
proof unfold_locales
  fix i and S S' :: "('b, 'c) publisher_sys"
  show "publisher_committed (ps_worker S) \<Longrightarrow> publisher_current (ps_worker S) \<noteq> None"
    by (cases "ps_worker S") simp_all
  show "publisher_acked i S \<noteq> [] \<Longrightarrow> publisher_committed (ps_worker S)"
    by (induction i S rule: publisher_acked.induct) (auto split: publisher_pc.splits)
  assume step: "publisher_step F i S = Some S'"
  have undeclare: "(pub_closed (ps_inner S) \<longrightarrow> pub_closed (ps_inner S')) \<and> ps_worker S' = ps_worker S
      \<and> (ps_undeclare S' = UnWaitEmpty
        \<or> ps_undeclare S = UnWaitEmpty \<and> ps_undeclare S' = UnClose \<and> pending (ps_queue S) = 0
        \<or> ps_undeclare S = UnClose \<and> ps_undeclare S' = UnTake \<and> pub_closed (ps_inner S')
        \<or> past_closing (ps_undeclare S) \<and> past_closing (ps_undeclare S'))"
    if "publisher_undeclare_step a S = Some S'" for a
    using that by (cases "ps_undeclare S") (auto simp: publisher_undeclare_step_def undeclare_tail_def
        take_handle_def set_pub_binding_def split: option.splits if_splits sum.splits prod.splits)
  show "pub_closed (ps_inner S) \<Longrightarrow> pub_closed (ps_inner S')"
    and "pub_closed (ps_inner S) \<Longrightarrow> \<not> publisher_committed (ps_worker S) \<Longrightarrow> \<not> publisher_committed (ps_worker S')"
    and "ps_undeclare S' = ps_undeclare S \<or> ps_undeclare S' = UnWaitEmpty
      \<or> ps_undeclare S = UnWaitEmpty \<and> ps_undeclare S' = UnClose \<and> pending (ps_queue S) = 0
      \<or> ps_undeclare S = UnClose \<and> ps_undeclare S' = UnTake \<and> pub_closed (ps_inner S')
      \<or> past_closing (ps_undeclare S) \<and> past_closing (ps_undeclare S')"
    using step undeclare publisher_worker_closing [of F _ _ _ S S']
    by (cases i; force simp: GrpcPublisher_put_def GrpcPublisher_delete_def)+
qed

fun submits_command :: "'ch publisher_input \<Rightarrow> bool" where
  "submits_command (PiPut req) = True"
| "submits_command (PiDelete req) = True"
| "submits_command _ = False"

lemma publisher_submits_nothing: "\<not> submits_command i \<Longrightarrow> publisher_submitted i S = []"
  by (cases i) simp_all

context publisher_channel
begin

lemma fresh_publisher:
  assumes "S0 = GrpcSession_declare_publisher F req s0"
  shows "queue_ok SEND_QUEUE_CAPACITY (ps_queue S0)" "contents (chan (ps_queue S0)) = []"
    "pending (ps_queue S0) = 0" "publisher_current (ps_worker S0) = None"
  using bounded_new queue_ok_new [of SEND_QUEUE_CAPACITY]
  by (simp_all add: assms GrpcSession_declare_publisher_def Let_def case_prod_beta
      bounded_drop_oldest_def SEND_QUEUE_CAPACITY_def)

lemma publisher_silent:
  assumes "S = run_steps (publisher_step F) is (GrpcSession_declare_publisher F req s0)"
    and "GrpcPublisher_undeclare F js S = Some (r, S')" and "list_all (\<lambda>i. \<not> submits_command i) js"
  shows "publisher_is_closed S' \<and> contents (chan (ps_queue S')) = []
    \<and> publisher_call (run_steps (publisher_step F) ks S') = None
    \<and> run_log (publisher_step F) publisher_acked ks S' = []"
proof -
  let ?S = "S\<lparr>ps_undeclare := UnIdle\<rparr>"
  note fresh = fresh_publisher [OF refl, of req s0]
  have ok: "queue_ok SEND_QUEUE_CAPACITY (ps_queue ?S)"
    using pw.ok_run [OF fresh(1), of "is"] by (simp add: assms(1))
  have n: "pending (ps_queue ?S) = of_nat (length (held (publisher_current (ps_worker ?S)) @ contents (chan (ps_queue ?S))))"
    using pw.run_unprocessed [OF fresh(1), of "is"] fresh by (simp add: assms(1))
  have "pub_closed (ps_inner S') \<and> contents (chan (ps_queue S')) = []
      \<and> \<not> publisher_committed (ps_worker (run_steps (publisher_step F) ks S'))
      \<and> run_log (publisher_step F) publisher_acked ks S' = []"
    by (rule pu.undeclare_silent [OF ok n _ _ assms(2) [unfolded GrpcPublisher_undeclare_def]])
      (use assms(3) in \<open>simp_all add: list_all_iff publisher_submits_nothing\<close>)
  then show ?thesis
    by (auto simp: publisher_is_closed_def publisher_call_def Let_def split: publisher_pc.splits)
qed

end


section \<open>Queryables\<close>

fun reply_committed :: "'ch reply_pc \<Rightarrow> bool" where
  "reply_committed (QwWaiting cmd w) = True"
| "reply_committed (QwCalling cmd c g) = True"
| "reply_committed _ = False"

fun submits_answer :: "'ch queryable_input \<Rightarrow> bool" where
  "submits_answer (QiEvents pick ha oa msg) = False"
| "submits_answer (QiWorker pick a) = False"
| "submits_answer QiRecv = False"
| "submits_answer QiTryRecv = False"
| "submits_answer (QiDispatch panics) = False"
| "submits_answer (QiUndeclare a) = False"
| "submits_answer (QiSession s) = False"
| "submits_answer _ = True"

lemma submits_no_answer: "\<not> submits_answer i \<Longrightarrow> reply_submitted i S = []"
  by (cases i) simp_all

text \<open>What the other actors of a queryable leave alone.\<close>

lemma query_event_closing:
  "queryable_event_step F pick ha oa msg S = Some S' \<Longrightarrow> ev_closed S' = ev_closed S \<and> qb_undeclare S' = qb_undeclare S"
  by (auto simp: queryable_event_step_def event_worker_step_def read_message_def Let_def
      ev_mark_disconnected_def mark_stream_not_ready_def mark_stream_ready_def ev_log_def
      split: event_pc.splits option.splits sum.splits if_splits wait_result.splits message.splits)

lemma reply_worker_closing:
  assumes "reply_worker_step G pick a S = Some S'"
  shows "ev_closed S' = ev_closed S \<and> qb_undeclare S' = qb_undeclare S"
    and "ev_closed S \<Longrightarrow> \<not> reply_committed (qb_worker S) \<Longrightarrow> \<not> reply_committed (qb_worker S')"
  using assms
  by (cases "qb_worker S"; force simp: reply_worker_defs event_is_closed_def
      split: option.splits sum.splits if_splits wait_result.splits QueryableCommand.splits)+

lemma receiving_closing:
  assumes "queryable_step F G i S = Some S'" and "i = QiRecv \<or> i = QiTryRecv \<or> i = QiDispatch p \<or> i = QiSession s"
  shows "ev_closed S' = ev_closed S \<and> qb_undeclare S' = qb_undeclare S"
  using assms
  by (auto simp: receive_defs Let_def split: option.splits sum.splits if_splits recv_outcome.splits prod.splits)

lemma query_undeclare_closing:
  assumes "queryable_undeclare_step F a S = Some S'"
  shows "(ev_closed S \<longrightarrow> ev_closed S')
    \<and> (qb_undeclare S' = UnWaitEmpty
      \<or> qb_undeclare S = UnWaitEmpty \<and> qb_undeclare S' = UnClose \<and> pending (qb_write S) = 0
      \<or> qb_undeclare S = UnClose \<and> qb_undeclare S' = UnTake \<and> ev_closed S'
      \<or> past_closing (qb_undeclare S) \<and> past_closing (qb_undeclare S'))"
  using assms by (cases "qb_undeclare S") (auto simp: queryable_undeclare_step_def undeclare_tail_def
      take_handle_def close_queue_def split: option.splits if_splits sum.splits prod.splits)

lemma query_step_closing:
  assumes "queryable_step F G i S = Some S'"
  shows "ev_closed S \<Longrightarrow> ev_closed S'"
    and "ev_closed S \<Longrightarrow> \<not> reply_committed (qb_worker S) \<Longrightarrow> \<not> reply_committed (qb_worker S')"
    and "qb_undeclare S' = qb_undeclare S \<or> qb_undeclare S' = UnWaitEmpty
      \<or> qb_undeclare S = UnWaitEmpty \<and> qb_undeclare S' = UnClose \<and> pending (qb_write S) = 0
      \<or> qb_undeclare S = UnClose \<and> qb_undeclare S' = UnTake \<and> ev_closed S'
      \<or> past_closing (qb_undeclare S) \<and> past_closing (qb_undeclare S')"
proof -
  have "(ev_closed S \<longrightarrow> ev_closed S')
      \<and> (ev_closed S \<longrightarrow> \<not> reply_committed (qb_worker S) \<longrightarrow> \<not> reply_committed (qb_worker S'))
      \<and> (qb_undeclare S' = qb_undeclare S \<or> qb_undeclare S' = UnWaitEmpty
      \<or> qb_undeclare S = UnWaitEmpty \<and> qb_undeclare S' = UnClose \<and> pending (qb_write S) = 0
      \<or> qb_undeclare S = UnClose \<and> qb_undeclare S' = UnTake \<and> ev_closed S'
      \<or> past_closing (qb_undeclare S) \<and> past_closing (qb_undeclare S'))"
  proof (cases i)
    case (QiEvents pick ha oa msg)
    with assms query_event_closing [of F pick ha oa msg S S'] query_event_write_side [of F pick ha oa msg S S']
    show ?thesis by simp
  next
    case (QiWorker pick a)
    with assms reply_worker_closing [of G pick a S S'] show ?thesis by auto
  next
    case (QiUndeclare a)
    with assms query_undeclare_closing [of F a S S'] receiving_write_side [OF assms] show ?thesis by simp
  next
    case QiRecv
    with assms receiving_closing [OF assms] receiving_write_side [OF assms] show ?thesis by simp
  next
    case QiTryRecv
    with assms receiving_closing [OF assms] receiving_write_side [OF assms] show ?thesis by simp
  next
    case (QiDispatch p)
    with assms receiving_closing [OF assms] receiving_write_side [OF assms] show ?thesis by simp
  next
    case (QiSession s)
    with assms show ?thesis by auto
  qed (use answer_step [OF assms] in auto)
  then show "ev_closed S \<Longrightarrow> ev_closed S'"
    and "ev_closed S \<Longrightarrow> \<not> reply_committed (qb_worker S) \<Longrightarrow> \<not> reply_committed (qb_worker S')"
    and "qb_undeclare S' = qb_undeclare S \<or> qb_undeclare S' = UnWaitEmpty
      \<or> qb_undeclare S = UnWaitEmpty \<and> qb_undeclare S' = UnClose \<and> pending (qb_write S) = 0
      \<or> qb_undeclare S = UnClose \<and> qb_undeclare S' = UnTake \<and> ev_closed S'
      \<or> past_closing (qb_undeclare S) \<and> past_closing (qb_undeclare S')" by blast+
qed

sublocale queryable_channels \<subseteq> ru: undeclared_worker "queryable_step F G"
  "\<lambda>S. cmds.queue_ok SEND_QUEUE_CAPACITY (qb_write S)" "\<lambda>S. reply_current (qb_worker S)"
  "\<lambda>S. contents (chan (qb_write S))" "\<lambda>S. pending (qb_write S)" reply_submitted reply_acked
  ev_closed "\<lambda>S. reply_committed (qb_worker S)" qb_undeclare
proof unfold_locales
  fix i and S S' :: "('b, 'c, 'd) queryable_sys"
  show "reply_committed (qb_worker S) \<Longrightarrow> reply_current (qb_worker S) \<noteq> None"
    by (cases "qb_worker S") simp_all
  show "reply_acked i S \<noteq> [] \<Longrightarrow> reply_committed (qb_worker S)"
    by (induction i S rule: reply_acked.induct) (auto split: reply_pc.splits)
qed (rule query_step_closing; assumption)+

context queryable_channels
begin

lemma queryable_silent:
  assumes "S = run_steps (queryable_step F G) is (GrpcSession_declare_queryable F G req cb s0)"
    and "GrpcQueryable_undeclare F G js S = Some (r, S')" and "list_all (\<lambda>i. \<not> submits_answer i) js"
  shows "event_is_closed S' \<and> contents (chan (qb_write S')) = []
    \<and> reply_call (run_steps (queryable_step F G) ks S') = None
    \<and> run_log (queryable_step F G) reply_acked ks S' = []"
proof -
  let ?S = "S\<lparr>qb_undeclare := UnIdle\<rparr>"
  note fresh = fresh_queryable [OF refl, of req cb s0]
  have ok: "cmds.queue_ok SEND_QUEUE_CAPACITY (qb_write ?S)"
    using rw.ok_run [OF fresh(3), of "is"] by (simp add: assms(1))
  have n: "pending (qb_write ?S) = of_nat (length (held (reply_current (qb_worker ?S)) @ contents (chan (qb_write ?S))))"
    using rw.run_unprocessed [OF fresh(3), of "is"] fresh by (simp add: assms(1))
  have "ev_closed S' \<and> contents (chan (qb_write S')) = []
      \<and> \<not> reply_committed (qb_worker (run_steps (queryable_step F G) ks S'))
      \<and> run_log (queryable_step F G) reply_acked ks S' = []"
    by (rule ru.undeclare_silent [OF ok n _ _ assms(2) [unfolded GrpcQueryable_undeclare_def]])
      (use assms(3) in \<open>simp_all add: list_all_iff submits_no_answer\<close>)
  then show ?thesis
    by (auto simp: event_is_closed_def reply_call_def Let_def split: reply_pc.splits)
qed

end

text \<open>
  The same for a queryable: when \<^verbatim>\<open>undeclare\<close> has returned and no other thread answered queries while it
  waited, all answers have been dealt with, and no answer is ever sent again.
\<close>

theorem undeclared_queryable_silent:
  assumes "bounded_channel F ec ecap er es" and "bounded_channel G contents capacity receivers senders"
    and "S = run_steps (queryable_step F G) is (GrpcSession_declare_queryable F G req has_callback s0)"
    and "GrpcQueryable_undeclare F G js S = Some (r, S')" and "list_all (\<lambda>i. \<not> submits_answer i) js"
  shows "event_is_closed S' \<and> contents (chan (qb_write S')) = []
    \<and> reply_call (run_steps (queryable_step F G) ks S') = None
    \<and> run_log (queryable_step F G) reply_acked ks S' = []"
  by (rule queryable_channels.queryable_silent [OF queryable_channels.intro [OF assms(1,2)] assms(3-5)])

section \<open>Sessions\<close>

fun session_committed :: "'ch session_pc \<Rightarrow> bool" where
  "session_committed (SwWaiting cmd w) = True"
| "session_committed (SwCalling cmd c g) = True"
| "session_committed _ = False"

lemmas session_state_defs = mark_disconnected_def warn_disconnected_once_def log_operation_warning_def log_line_def
  set_connected_def notify_connection_def close_session_def is_closed_def

lemma reconnect_keeps_closed: "reconnect_step a t (w, s) = Some (w', s') \<Longrightarrow> closed s' = closed s"
  by (auto simp: reconnect_step_def session_state_defs Let_def split: reconnect_pc.splits sum.splits if_splits)

lemma heartbeat_keeps_closed: "heartbeat_step a (w, s) = Some (w', s') \<Longrightarrow> closed s' = closed s"
  by (auto simp: heartbeat_step_def session_state_defs Let_def split: heartbeat_pc.splits option.splits sum.splits if_splits)

lemma session_worker_closing:
  assumes "session_worker_step F a S = Some S'"
  shows "is_closed (ss_inner S') = is_closed (ss_inner S)"
    and "is_closed (ss_inner S) \<Longrightarrow> \<not> session_committed (ss_worker S) \<Longrightarrow> \<not> session_committed (ss_worker S')"
  using assms
  by (cases "ss_worker S"; force simp: session_worker_step_def session_processed_def session_state_defs Let_def
      split: sum.splits if_splits option.splits wait_result.splits)+

sublocale session_channel \<subseteq> su: closable_worker "session_step F"
  "\<lambda>S. queue_ok SEND_QUEUE_CAPACITY (ss_queue S)" "\<lambda>S. session_current (ss_worker S)" "\<lambda>S. contents (chan (ss_queue S))"
  "\<lambda>S. pending (ss_queue S)" session_submitted session_acked
  "\<lambda>S. is_closed (ss_inner S)" "\<lambda>S. session_committed (ss_worker S)"
proof unfold_locales
  fix i and S S' :: "('b, 'c) session_sys"
  show "session_committed (ss_worker S) \<Longrightarrow> session_current (ss_worker S) \<noteq> None"
    by (cases "ss_worker S") simp_all
  show "session_acked i S \<noteq> [] \<Longrightarrow> session_committed (ss_worker S)"
    by (induction i S rule: session_acked.induct) (auto split: session_pc.splits)
  assume step: "session_step F i S = Some S'"
  show "is_closed (ss_inner S) \<Longrightarrow> is_closed (ss_inner S')"
    using step session_worker_closing [of F _ S S']
    by (cases i) (auto simp: GrpcSession_put_def GrpcSession_delete_def session_state_defs alloc_local_handle_def
        dest: reconnect_keeps_closed heartbeat_keeps_closed)
  show "is_closed (ss_inner S) \<Longrightarrow> \<not> session_committed (ss_worker S) \<Longrightarrow> \<not> session_committed (ss_worker S')"
    using step session_worker_closing [of F _ S S']
    by (cases i) (auto simp: GrpcSession_put_def GrpcSession_delete_def)
qed

context session_channel
begin

lemma cleanup_run:
  assumes "queue_ok SEND_QUEUE_CAPACITY (ss_queue S)"
    and "pending (ss_queue S) = of_nat (length (held (session_current (ss_worker S)) @ contents (chan (ss_queue S))))"
    and "run_steps (call_step (session_step F) cleanup_step) js (ClStart, S) = (pc, S')"
  shows "(pc \<noteq> ClStart \<longrightarrow> is_closed (ss_inner S'))
    \<and> (pc \<noteq> ClStart \<and> pc \<noteq> ClWaitEmpty \<longrightarrow> \<not> session_committed (ss_worker S'))"
proof -
  let ?I = "\<lambda>(pc, S). queue_ok SEND_QUEUE_CAPACITY (ss_queue S)
    \<and> pending (ss_queue S) = of_nat (length (held (session_current (ss_worker S)) @ contents (chan (ss_queue S))))
    \<and> (pc \<noteq> ClStart \<longrightarrow> is_closed (ss_inner S))
    \<and> (pc \<noteq> ClStart \<and> pc \<noteq> ClWaitEmpty \<longrightarrow> \<not> session_committed (ss_worker S))"
  have "?I p'" if step: "call_step (session_step F) cleanup_step i p = Some p'" and I: "?I p" for i p p'
  proof (cases i)
    case (OthersMove j)
    with step obtain pc S S' where p: "p = (pc, S)" "p' = (pc, S')" "session_step F j S = Some S'"
      by (cases p) auto
    with I sw.step_ok [OF _ p(3)] sw.step_unprocessed [OF _ p(3)] su.shut_step [OF _ p(3)]
      su.committed_step [OF _ _ p(3)] show ?thesis by simp
  next
    case (CallMoves a)
    obtain pc S where p: "p = (pc, S)" by (cases p)
    have "\<not> session_committed (ss_worker S)" if "pending (ss_queue S) = 0"
      using su.processed_idle [OF _ _ that] su.committed_current [of S] I p by auto
    with step I p CallMoves show ?thesis
      by (cases pc) (auto simp: cleanup_step_def session_state_defs Let_def split: if_splits sum.splits option.splits)
  qed
  moreover have "?I (ClStart, S)" using assms(1,2) by (simp del: length_append)
  ultimately have "?I (run_steps (call_step (session_step F) cleanup_step) js (ClStart, S))"
    by (rule run_steps_invariant)
  with assms(3) show ?thesis by simp
qed

lemma session_silent:
  assumes "S = run_steps (session_step F) is (session_start F s0)" and "GrpcSession_cleanup F js S = Some (r, S')"
  shows "is_closed (ss_inner S') \<and> \<not> session_committed (ss_worker (run_steps (session_step F) ks S'))
    \<and> run_log (session_step F) session_acked ks S' = []"
proof -
  note ok = sw.ok_run [OF conjunct1 [OF fresh_session [of s0]], of "is"]
  have n: "pending (ss_queue S) = of_nat (length (held (session_current (ss_worker S)) @ contents (chan (ss_queue S))))"
    unfolding assms(1) using fresh_session [of s0] by (intro sw.run_unprocessed) (simp_all add: session_start_def)
  from assms(2) obtain pc where "block_on (call_step (session_step F) cleanup_step) (cleaned \<circ> fst) js (ClStart, S) =
      Some (r, pc, S')"
    by (auto simp: GrpcSession_cleanup_def block_on_call_def)
  then obtain js' where js': "(pc, S') = run_steps (call_step (session_step F) cleanup_step) js' (ClStart, S)"
    "cleaned pc = Some r" by (rule block_on_Some) (metis comp_apply fst_conv)
  from js'(2) have pc: "pc \<noteq> ClStart" "pc \<noteq> ClWaitEmpty" by auto
  with cleanup_run [OF _ n js'(1) [symmetric]] ok have "is_closed (ss_inner S')" "\<not> session_committed (ss_worker S')"
    by (simp_all add: assms(1))
  with su.silent_run [of S' ks] show ?thesis by blast
qed

end


section \<open>A declaration that comes after the undeclaration\<close>

lemma undeclare_unbound:
  assumes "b_handle (ev_binding S) = None" and "\<not> b_locked (ev_binding S)"
    and "S0 = S\<lparr>ev_closed := True, ev_close_epoch := Suc (ev_close_epoch S)\<rparr>"
    and "S1 = close_queue F S0\<lparr>sub_undeclare := UnReturned (Inr ())\<rparr>"
  shows "GrpcSubscriber_undeclare F (replicate 4 (UiUndeclare a)) S = Some (Inr (), S1)"
proof -
  let ?step = "subscriber_step F (UiUndeclare a)"
  let ?Q = "close_queue F S0"
  have b: "ev_binding ?Q = ev_binding S" by (simp add: close_queue_def assms(3))
  have 1: "?step (S\<lparr>sub_undeclare := UnIdle\<rparr>) = Some (S0\<lparr>sub_undeclare := UnWaitEmpty\<rparr>)"
    by (simp add: subscriber_undeclare_step_def assms(3))
  have 2: "?step (S0\<lparr>sub_undeclare := UnWaitEmpty\<rparr>) = Some (?Q\<lparr>sub_undeclare := UnTake\<rparr>)"
    by (simp add: subscriber_undeclare_step_def close_queue_def)
  have 3: "?step (?Q\<lparr>sub_undeclare := UnTake\<rparr>) = Some (?Q\<lparr>sub_undeclare := UnConnection None\<rparr>)"
    using assms(1,2) b by (cases "ev_binding S")
      (simp add: subscriber_undeclare_step_def undeclare_tail_def take_handle_def)
  have 4: "?step (?Q\<lparr>sub_undeclare := UnConnection None\<rparr>) = Some S1"
    by (simp add: subscriber_undeclare_step_def undeclare_tail_def assms(4))
  show ?thesis
    by (simp add: GrpcSubscriber_undeclare_def replicate_small step_or_stay_def 1 2 3 4 assms(4)
        del: subscriber_step.simps)
qed

lemma worker_declares_late:
  assumes "ev_worker S = EwEnsure c g" and "b_handle (ev_binding S) = None" and "\<not> b_locked (ev_binding S)"
  shows "\<exists>S1. subscriber_step F (UiWorker p ha oa m) S = Some S1 \<and> ev_worker S1 = EwDeclaring c g
      \<and> ev_session S1 = ev_session S \<and> sub_args S1 = sub_args S \<and> sub_undeclare S1 = sub_undeclare S"
    and "ev_worker S1 = EwDeclaring c g \<Longrightarrow> \<exists>S2. subscriber_step F (UiWorker p (Inr h) oa m) S1 = Some S2
      \<and> ev_worker S2 = EwOpening c g h \<and> b_handle (ev_binding S2) = Some h \<and> sub_undeclare S2 = sub_undeclare S1"
    and "ev_worker S2 = EwOpening c g h \<Longrightarrow> \<exists>S3. subscriber_step F (UiWorker p ha (Inr ()) m) S2 = Some S3
      \<and> ev_worker S3 = EwSelect g h \<and> ev_binding S3 = ev_binding S2 \<and> sub_undeclare S3 = sub_undeclare S2"
    and "ev_worker S3 = EwSelect g h \<Longrightarrow> \<exists>S4. subscriber_step F (UiWorker p ha oa m) S3 = Some S4
      \<and> ev_worker S4 = EwReading g h (ev_close_epoch S4) \<and> ev_binding S4 = ev_binding S3 \<and> sub_undeclare S4 = sub_undeclare S3"
  using assms by (auto simp: subscriber_event_step_def event_worker_step_def ensure_start_def ensure_answer_def
      mark_stream_ready_def Let_def)

text \<open>
  C32: \<^verbatim>\<open>undeclare\<close> of a subscriber can be overtaken by its own worker. If the worker has found a connection but
  does not yet hold the lock of the binding, \<^verbatim>\<open>undeclare\<close> finds no handle and returns without an error;
  the worker does not look at the closed flag again, declares the subscriber on the server and opens its
  stream, and then waits for events of an object that nobody undeclares any more.
\<close>

theorem late_declaration_leaks:
  assumes "ev_worker S = EwEnsure c g" and "b_handle (ev_binding S) = None" and "\<not> b_locked (ev_binding S)"
    and "ws = [UiWorker p ha oa m, UiWorker p (Inr h) oa m, UiWorker p ha (Inr ()) m, UiWorker p ha oa m]"
  shows "\<exists>S1 S2. GrpcSubscriber_undeclare F (replicate 4 (UiUndeclare a)) S = Some (Inr (), S1)
    \<and> event_is_closed S1 \<and> run_steps (subscriber_step F) ws S1 = S2
    \<and> subscriber_call (run_steps (subscriber_step F) (take 1 ws) S1) =
        Some (c, DeclareSubscriber (declare_subscriber_request (client_id (ev_session S)) (sub_args S)))
    \<and> b_handle (ev_binding S2) = Some h \<and> ev_worker S2 = EwReading g h (ev_close_epoch S2)
    \<and> sub_undeclare S2 = UnReturned (Inr ())"
proof -
  obtain S1 where S1: "GrpcSubscriber_undeclare F (replicate 4 (UiUndeclare a)) S = Some (Inr (), S1)"
    "S1 = close_queue F (S\<lparr>ev_closed := True, ev_close_epoch := Suc (ev_close_epoch S)\<rparr>)\<lparr>sub_undeclare := UnReturned (Inr ())\<rparr>"
    using undeclare_unbound [OF assms(2,3) refl refl] by blast
  have eq: "ev_worker S1 = EwEnsure c g" "ev_binding S1 = ev_binding S" "ev_session S1 = ev_session S"
    "sub_args S1 = sub_args S" "event_is_closed S1" "sub_undeclare S1 = UnReturned (Inr ())"
    using assms(1) by (simp_all add: S1(2) close_queue_def event_is_closed_def)
  from worker_declares_late(1) [OF eq(1), of F p ha oa m] eq assms(2,3) obtain T1 where
    T1: "subscriber_step F (UiWorker p ha oa m) S1 = Some T1" "ev_worker T1 = EwDeclaring c g"
      "ev_session T1 = ev_session S" "sub_args T1 = sub_args S" "sub_undeclare T1 = UnReturned (Inr ())" by auto
  from worker_declares_late(2) [OF assms(1-3) T1(2), of F p h oa m] obtain T2 where
    T2: "subscriber_step F (UiWorker p (Inr h) oa m) T1 = Some T2" "ev_worker T2 = EwOpening c g h"
      "b_handle (ev_binding T2) = Some h" "sub_undeclare T2 = UnReturned (Inr ())" using T1(5) by auto
  from worker_declares_late(3) [OF assms(1-3) T2(2), of F p ha m] obtain T3 where
    T3: "subscriber_step F (UiWorker p ha (Inr ()) m) T2 = Some T3" "ev_worker T3 = EwSelect g h"
      "ev_binding T3 = ev_binding T2" "sub_undeclare T3 = UnReturned (Inr ())" using T2(4) by auto
  from worker_declares_late(4) [OF assms(1-3) T3(2), of F p ha oa m] obtain T4 where
    T4: "subscriber_step F (UiWorker p ha oa m) T3 = Some T4" "ev_worker T4 = EwReading g h (ev_close_epoch T4)"
      "ev_binding T4 = ev_binding T3" "sub_undeclare T4 = UnReturned (Inr ())" using T3(4) by auto
  have "run_steps (subscriber_step F) ws S1 = T4" "run_steps (subscriber_step F) (take 1 ws) S1 = T1"
    using T1(1) T2(1) T3(1) T4(1) by (simp_all add: assms(4) step_or_stay_def del: subscriber_step.simps)
  with S1(1) eq(5) T1 T2(3) T3(3) T4 show ?thesis by (auto simp: subscriber_call_def Let_def)
qed

section \<open>Witnesses\<close>

text \<open>A publisher with one command, whose \<^verbatim>\<open>undeclare\<close> waits for the worker.\<close>

definition undeclare_schedule :: "nat publisher_input list" where
  "undeclare_schedule =
     replicate 3 (PiUndeclare (Inr ())) @ replicate 7 (PiWorker False (Inr 5) (Inr ())) @ replicate 6 (PiUndeclare (Inr ()))"

lemma undeclare_schedule_returns:
  "\<exists>S. GrpcPublisher_undeclare fifo_flume undeclare_schedule
     (run_steps (publisher_step fifo_flume) [PiPut PublisherPutArgs_default] demo_publisher) = Some (Inr (), S)"
  by (simp add: GrpcPublisher_undeclare_def undeclare_schedule_def demo_publisher_simps replicate_small
      undeclare_tail_def take_handle_def)


definition undeclare_queryable_schedule :: "nat queryable_input list" where
  "undeclare_queryable_schedule =
     [QiUndeclare (Inr ())] @ replicate 6 (QiWorker False (Inr ())) @ replicate 4 (QiUndeclare (Inr ()))"

lemma undeclare_queryable_schedule_returns:
  "\<exists>S. GrpcQueryable_undeclare fifo_flume fifo_flume undeclare_queryable_schedule
     (run_steps (queryable_step fifo_flume fifo_flume) [QiFinish demo_grpc_query] demo_queryable) = Some (Inr (), S)"
  by (simp add: GrpcQueryable_undeclare_def undeclare_queryable_schedule_def demo_queryable_simps
      replicate_small queryable_undeclare_step_def undeclare_tail_def take_handle_def answer_defs enqueue_command_def
      submit_def demo_grpc_query_def GrpcQuery_identity_def close_queue_def reply_worker_defs
      is_query_stale_def processed_one_def fifo_drop_sender)

theorem undeclared_queryable_silent_witness:
  "\<exists>S. GrpcQueryable_undeclare fifo_flume fifo_flume undeclare_queryable_schedule
       (run_steps (queryable_step fifo_flume fifo_flume) [QiFinish demo_grpc_query] demo_queryable) = Some (Inr (), S)
     \<and> reply_call (run_steps (queryable_step fifo_flume fifo_flume)
          (QiFinish demo_grpc_query # replicate 9 (QiWorker False (Inr ()))) S) = None"
proof -
  have "list_all (\<lambda>i. \<not> submits_answer i) undeclare_queryable_schedule"
    by (simp add: undeclare_queryable_schedule_def list_all_iff)
  with undeclared_queryable_silent [OF fifo.bounded_channel_axioms fifo.bounded_channel_axioms refl]
    undeclare_queryable_schedule_returns
  show ?thesis unfolding demo_queryable_def by blast
qed

text \<open>A session with two commands is closed, the commands are discarded, and a third one is submitted.\<close>

definition close_schedule :: "(nat session_input, unit rpc_result) call_input list" where
  "close_schedule = [CallMoves (Inr ())] @ replicate 4 (OthersMove (SiWorker (Inr ()))) @ replicate 3 (CallMoves (Inr ()))"

lemma close_schedule_returns:
  "\<exists>S. GrpcSession_cleanup fifo_flume close_schedule (run_steps (session_step fifo_flume)
     [SiPut SessionPutArgs_default, SiPut SessionPutArgs_default] (session_start fifo_flume demo_session)) = Some (Inr (), S)"
  by (simp add: GrpcSession_cleanup_def block_on_call_def close_schedule_def replicate_small demo_simps session_steps submit_def
      fifo_new fifo_push_room fifo_recv_Cons SEND_QUEUE_CAPACITY_def close_session_def cleanup_step_def
      session_processed_def processed_one_def)


theorem late_declaration_leaks_witness:
  "\<exists>S S1. S = run_steps (subscriber_step fifo_flume) (replicate 3 (UiWorker False (Inr 4) (Inr ()) MsgEnd)) demo_subscriber
     \<and> GrpcSubscriber_undeclare fifo_flume (replicate 4 (UiUndeclare (Inr ()))) S = Some (Inr (), S1)
     \<and> b_handle (ev_binding (run_steps (subscriber_step fifo_flume)
          (replicate 4 (UiWorker False (Inr 4) (Inr ()) MsgEnd)) S1)) = Some 4"
proof -
  let ?S = "run_steps (subscriber_step fifo_flume) (replicate 3 (UiWorker False (Inr 4) (Inr ()) MsgEnd)) demo_subscriber"
  have "ev_worker ?S = EwEnsure 0 1" "b_handle (ev_binding ?S) = None" "\<not> b_locked (ev_binding ?S)"
    by (simp_all add: demo_subscriber_simps replicate_small)
  from late_declaration_leaks [OF this refl, of fifo_flume "Inr ()" False "Inr 4" "Inr ()" MsgEnd 4]
  show ?thesis by (auto simp: replicate_small simp del: run_steps.simps)
qed

end
