(* ===== verification/C_Wrapper.thy ===== *)
theory C_Wrapper
  imports C_Args C_Crossing Config Client_Blocking
begin

text \<open>
  The functions of the C interface (\<^verbatim>\<open>zenoh-grpc-c/src/lib.rs\<close>) over the client core. A pointer to an
  object is the object's state, or \<open>None\<close> when it is null; a call returns its result together with the
  new state. Calls of the core that wait for the server (\<^verbatim>\<open>block_on\<close> of \<^verbatim>\<open>info\<close>, \<^verbatim>\<open>get\<close> and
  \<^verbatim>\<open>undeclare\<close>) take the core's result as an argument. The value \<open>None\<close> of a call that receives is
  a call that waits.
\<close>

section \<open>Helpers\<close>

definition DEFAULT_ENDPOINT :: string where
  "DEFAULT_ENDPOINT = ''unix:///tmp/zenoh-grpc.sock''"

definition parse_endpoint :: "string option \<Rightarrow> ConnectAddr option" where
  "parse_endpoint endpoint0 =
     (let endpoint = (case endpoint0 of None \<Rightarrow> DEFAULT_ENDPOINT | Some e \<Rightarrow> e) in
      case strip_prefix ''tcp://'' endpoint of
        Some a \<Rightarrow> Some (ConnectTcp a)
      | None \<Rightarrow>
          (case strip_prefix ''unix://'' endpoint of
             Some path \<Rightarrow> Some (ConnectUnix path)
           | None \<Rightarrow> None))"

definition c_status :: "'a result \<Rightarrow> int" where
  "c_status r = (case r of Inr _ \<Rightarrow> 0 | Inl _ \<Rightarrow> -1)"

section \<open>Sessions\<close>

definition boxed :: "'a result \<Rightarrow> 'a option" where
  "boxed r = (case r of Inr x \<Rightarrow> Some x | Inl _ \<Rightarrow> None)"

definition zgrpc_session_connect ::
  "('e, 'ch) transport \<Rightarrow> string \<Rightarrow> bool \<Rightarrow> addr \<Rightarrow> 'ch Inner option mem_op" where
  "zgrpc_session_connect T uuid in_time endpoint =
     and_then (if endpoint = 0 then done_with None else and_then (cstr endpoint) (\<lambda>e. done_with (Some e))) (\<lambda>e.
     done_with (case parse_endpoint e of
        None \<Rightarrow> None
      | Some a \<Rightarrow> boxed (session_connect T uuid in_time a)))"

definition zgrpc_open_tcp ::
  "('e, 'ch) transport \<Rightarrow> string \<Rightarrow> bool \<Rightarrow> addr \<Rightarrow> 'ch Inner option mem_op" where
  "zgrpc_open_tcp T uuid in_time a =
     and_then (cstr a) (\<lambda>s. done_with (boxed (session_connect T uuid in_time (ConnectTcp s))))"

definition zgrpc_open_unix ::
  "('e, 'ch) transport \<Rightarrow> string \<Rightarrow> bool \<Rightarrow> addr \<Rightarrow> 'ch Inner option mem_op" where
  "zgrpc_open_unix T uuid in_time path =
     and_then (cstr path) (\<lambda>s. done_with (boxed (session_connect T uuid in_time (ConnectUnix s))))"

text \<open>
  The calls that wait have a schedule of what moves while they do, as in \<open>Client_Blocking\<close>; the value
  \<open>None\<close> means that they have not returned at its end.
\<close>

definition zgrpc_session_info ::
  "('c, SessionCommand) flume \<Rightarrow> ('ch session_input, string rpc_result) call_input list \<Rightarrow>
   ('ch, 'c) session_sys option \<Rightarrow> (addr \<times> ('ch, 'c) session_sys option) option mem_op" where
  "zgrpc_session_info F is session =
     (case session of
        None \<Rightarrow> done_with (Some (0, None))
      | Some S \<Rightarrow>
          (case GrpcSession_info F is S of
             None \<Rightarrow> done_with None
           | Some (Inl _, S') \<Rightarrow> done_with (Some (0, Some S'))
           | Some (Inr zid, S') \<Rightarrow> and_then (into_c_string zid) (\<lambda>p. done_with (Some (p, Some S')))))"

text \<open>
  \<^verbatim>\<open>zgrpc_close\<close> consumes the session: its result is ignored and the session is dropped, which sends a
  second cleanup request if nobody else owns the shared state (\<open>strong_count\<close> is 1).
\<close>

definition zgrpc_close ::
  "('c, SessionCommand) flume \<Rightarrow> nat \<Rightarrow> ('ch session_input, unit rpc_result) call_input list \<Rightarrow>
   ('ch, 'c) session_sys option \<Rightarrow> (('ch, 'c) session_sys \<times> ('ch \<times> request) option) option option" where
  "zgrpc_close F strong_count is session =
     (case session of
        None \<Rightarrow> Some None
      | Some S \<Rightarrow>
          map_option (\<lambda>(_, S'). (case GrpcSession_drop strong_count (ss_inner S') of
               (s, request) \<Rightarrow> Some (S'\<lparr>ss_inner := s\<rparr>, request)))
            (GrpcSession_cleanup F is S))"

definition zgrpc_session_put_with_options ::
  "('c, SessionCommand) flume \<Rightarrow> ('ch, 'c) session_sys option \<Rightarrow> addr \<Rightarrow> addr \<Rightarrow> nat \<Rightarrow>
   zgrpc_session_put_options_t option \<Rightarrow> (int \<times> ('ch, 'c) session_sys option) option mem_op" where
  "zgrpc_session_put_with_options F session key_expr payload payload_len options =
     (case session of
        None \<Rightarrow> done_with (Some (-1, None))
      | Some S \<Rightarrow>
          and_then (session_put_args key_expr payload payload_len options) (\<lambda>args.
          done_with (map_option (\<lambda>(r, S'). (c_status r, Some S')) (GrpcSession_put F args S))))"

definition zgrpc_session_put ::
  "('c, SessionCommand) flume \<Rightarrow> ('ch, 'c) session_sys option \<Rightarrow> addr \<Rightarrow> addr \<Rightarrow> nat \<Rightarrow>
   (int \<times> ('ch, 'c) session_sys option) option mem_op" where
  "zgrpc_session_put F session key_expr payload payload_len =
     zgrpc_session_put_with_options F session key_expr payload payload_len None"

definition zgrpc_session_delete_with_options ::
  "('c, SessionCommand) flume \<Rightarrow> ('ch, 'c) session_sys option \<Rightarrow> addr \<Rightarrow>
   zgrpc_session_delete_options_t option \<Rightarrow> (int \<times> ('ch, 'c) session_sys option) option mem_op" where
  "zgrpc_session_delete_with_options F session key_expr options =
     (case session of
        None \<Rightarrow> done_with (Some (-1, None))
      | Some S \<Rightarrow>
          and_then (session_delete_args key_expr options) (\<lambda>args.
          done_with (map_option (\<lambda>(r, S'). (c_status r, Some S')) (GrpcSession_delete F args S))))"

definition zgrpc_session_delete ::
  "('c, SessionCommand) flume \<Rightarrow> ('ch, 'c) session_sys option \<Rightarrow> addr \<Rightarrow>
   (int \<times> ('ch, 'c) session_sys option) option mem_op" where
  "zgrpc_session_delete F session key_expr = zgrpc_session_delete_with_options F session key_expr None"

text \<open>\<open>get\<close> is the core's result for the arguments.\<close>

definition zgrpc_session_get ::
  "(SessionGetArgs \<Rightarrow> 'r result) \<Rightarrow> 's option \<Rightarrow> addr \<Rightarrow> zgrpc_session_get_options_t option \<Rightarrow>
   'r option mem_op" where
  "zgrpc_session_get get session selector options =
     (case session of
        None \<Rightarrow> done_with None
      | Some _ \<Rightarrow>
          and_then (session_get_args selector options) (\<lambda>args. done_with (boxed (get args))))"

section \<open>Publishers\<close>

definition zgrpc_declare_publisher_with_options ::
  "('c, PublisherCommand) flume \<Rightarrow> 'ch Inner option \<Rightarrow> addr \<Rightarrow> zgrpc_publisher_options_t option \<Rightarrow>
   ('ch, 'c) publisher_sys option mem_op" where
  "zgrpc_declare_publisher_with_options F session key_expr options =
     (case session of
        None \<Rightarrow> done_with None
      | Some s \<Rightarrow>
          and_then (publisher_args key_expr options) (\<lambda>args.
          done_with (Some (GrpcSession_declare_publisher F args s))))"

definition zgrpc_declare_publisher ::
  "('c, PublisherCommand) flume \<Rightarrow> 'ch Inner option \<Rightarrow> addr \<Rightarrow> ('ch, 'c) publisher_sys option mem_op" where
  "zgrpc_declare_publisher F session key_expr = zgrpc_declare_publisher_with_options F session key_expr None"

definition zgrpc_publisher_put_with_options ::
  "('c, PublisherCommand) flume \<Rightarrow> ('ch, 'c) publisher_sys option \<Rightarrow> addr \<Rightarrow> nat \<Rightarrow>
   zgrpc_publisher_put_options_t option \<Rightarrow> (int \<times> ('ch, 'c) publisher_sys option) option mem_op" where
  "zgrpc_publisher_put_with_options F publisher payload payload_len options =
     (case publisher of
        None \<Rightarrow> done_with (Some (-1, None))
      | Some S \<Rightarrow>
          and_then (publisher_put_args payload payload_len options) (\<lambda>args.
          done_with (map_option (\<lambda>(r, S'). (c_status r, Some S')) (GrpcPublisher_put F args S))))"

definition zgrpc_publisher_put ::
  "('c, PublisherCommand) flume \<Rightarrow> ('ch, 'c) publisher_sys option \<Rightarrow> addr \<Rightarrow> nat \<Rightarrow>
   (int \<times> ('ch, 'c) publisher_sys option) option mem_op" where
  "zgrpc_publisher_put F publisher payload payload_len =
     zgrpc_publisher_put_with_options F publisher payload payload_len None"

definition zgrpc_publisher_delete_with_options ::
  "('c, PublisherCommand) flume \<Rightarrow> ('ch, 'c) publisher_sys option \<Rightarrow>
   zgrpc_publisher_delete_options_t option \<Rightarrow> (int \<times> ('ch, 'c) publisher_sys option) option mem_op" where
  "zgrpc_publisher_delete_with_options F publisher options =
     (case publisher of
        None \<Rightarrow> done_with (Some (-1, None))
      | Some S \<Rightarrow>
          and_then (publisher_delete_args options) (\<lambda>args.
          done_with (map_option (\<lambda>(r, S'). (c_status r, Some S')) (GrpcPublisher_delete F args S))))"

definition zgrpc_publisher_delete ::
  "('c, PublisherCommand) flume \<Rightarrow> ('ch, 'c) publisher_sys option \<Rightarrow>
   (int \<times> ('ch, 'c) publisher_sys option) option mem_op" where
  "zgrpc_publisher_delete F publisher = zgrpc_publisher_delete_with_options F publisher None"

definition zgrpc_publisher_send_dropped_count :: "('ch, 'c) publisher_sys option \<Rightarrow> u64" where
  "zgrpc_publisher_send_dropped_count publisher =
     (case publisher of None \<Rightarrow> 0 | Some S \<Rightarrow> dropped_count (ps_queue S))"

text \<open>The \<^verbatim>\<open>undeclare\<close> functions consume the object: its state is the one in which it is freed.\<close>

definition zgrpc_publisher_undeclare ::
  "('c, PublisherCommand) flume \<Rightarrow> 'ch publisher_input list \<Rightarrow> ('ch, 'c) publisher_sys option \<Rightarrow>
   (int \<times> ('ch, 'c) publisher_sys option) option" where
  "zgrpc_publisher_undeclare F is publisher =
     (case publisher of
        None \<Rightarrow> Some (-1, None)
      | Some S \<Rightarrow> map_option (\<lambda>(r, S'). (c_status r, Some S')) (GrpcPublisher_undeclare F is S))"

section \<open>Subscribers\<close>

definition zgrpc_declare_subscriber_with_options ::
  "('c, pb_SubscriberEvent) flume \<Rightarrow> 'ch Inner option \<Rightarrow> addr \<Rightarrow> zgrpc_subscriber_options_t option \<Rightarrow>
   ('ch, 'c) subscriber_sys option mem_op" where
  "zgrpc_declare_subscriber_with_options F session key_expr options =
     (case session of
        None \<Rightarrow> done_with None
      | Some s \<Rightarrow>
          and_then (subscriber_args key_expr options) (\<lambda>args.
          done_with (Some (GrpcSession_declare_subscriber F args False s))))"

definition zgrpc_declare_subscriber ::
  "('c, pb_SubscriberEvent) flume \<Rightarrow> 'ch Inner option \<Rightarrow> addr \<Rightarrow> ('ch, 'c) subscriber_sys option mem_op" where
  "zgrpc_declare_subscriber F session key_expr = zgrpc_declare_subscriber_with_options F session key_expr None"

text \<open>
  The closure that \<^verbatim>\<open>zgrpc_declare_subscriber_with_callback\<close> installs: it fills an event, calls the C
  function with it and frees it. \<open>callback\<close> is what the C function does to memory.
\<close>

definition subscriber_callback ::
  "(zgrpc_subscriber_event_t \<Rightarrow> unit mem_op) \<Rightarrow> pb_SubscriberEvent \<Rightarrow> unit mem_op" where
  "subscriber_callback callback event =
     and_then (fill_subscriber_event null_event event) (\<lambda>(_, event_out).
     and_then (callback event_out) (\<lambda>_.
     and_then (zgrpc_subscriber_event_free event_out) (\<lambda>_. done_with ())))"

definition zgrpc_declare_subscriber_with_callback ::
  "('c, pb_SubscriberEvent) flume \<Rightarrow> 'ch Inner option \<Rightarrow> addr \<Rightarrow>
   (zgrpc_subscriber_event_t \<Rightarrow> unit mem_op) option \<Rightarrow> zgrpc_subscriber_options_t option \<Rightarrow>
   (('ch, 'c) subscriber_sys \<times> (pb_SubscriberEvent \<Rightarrow> unit mem_op)) option mem_op" where
  "zgrpc_declare_subscriber_with_callback F session key_expr callback options =
     (case (session, callback) of
        (Some s, Some cb) \<Rightarrow>
          and_then (subscriber_args key_expr options) (\<lambda>args.
          done_with (Some (GrpcSession_declare_subscriber F args True s, subscriber_callback cb)))
      | _ \<Rightarrow> done_with None)"

definition zgrpc_subscriber_recv ::
  "('c, pb_SubscriberEvent) flume \<Rightarrow> ('ch, 'c) subscriber_sys option \<Rightarrow> zgrpc_sample_t option \<Rightarrow>
   (int \<times> ('ch, 'c) subscriber_sys option \<times> zgrpc_sample_t option) option mem_op" where
  "zgrpc_subscriber_recv F subscriber sample_out =
     (case (subscriber, sample_out) of
        (Some S, Some out) \<Rightarrow>
          (case GrpcSubscriber_recv F S of
             None \<Rightarrow> done_with None
           | Some (Inl _, S') \<Rightarrow> done_with (Some (-1, Some S', Some (clear_sample out)))
           | Some (Inr ev, S') \<Rightarrow>
               (case sevt_sample ev of
                  None \<Rightarrow> done_with (Some (-1, Some S', Some (clear_sample out)))
                | Some s \<Rightarrow>
                    and_then (fill_sample (clear_sample out) s) (\<lambda>x.
                    done_with (Some (0, Some S', Some x)))))
      | _ \<Rightarrow> done_with (Some (-1, subscriber, sample_out)))"

definition zgrpc_subscriber_try_recv ::
  "('c, pb_SubscriberEvent) flume \<Rightarrow> ('ch, 'c) subscriber_sys option \<Rightarrow> zgrpc_sample_t option \<Rightarrow>
   (int \<times> ('ch, 'c) subscriber_sys option \<times> zgrpc_sample_t option) mem_op" where
  "zgrpc_subscriber_try_recv F subscriber sample_out =
     (case (subscriber, sample_out) of
        (Some S, Some out) \<Rightarrow>
          (case GrpcSubscriber_try_recv F S of
             (Inl _, S') \<Rightarrow> done_with (-1, Some S', Some (clear_sample out))
           | (Inr None, S') \<Rightarrow> done_with (1, Some S', Some (clear_sample out))
           | (Inr (Some ev), S') \<Rightarrow>
               (case sevt_sample ev of
                  None \<Rightarrow> done_with (-1, Some S', Some (clear_sample out))
                | Some s \<Rightarrow>
                    and_then (fill_sample (clear_sample out) s) (\<lambda>x. done_with (0, Some S', Some x))))
      | _ \<Rightarrow> done_with (-1, subscriber, sample_out))"

definition subscriber_recv_event_impl ::
  "('c, pb_SubscriberEvent) flume \<Rightarrow> ('ch, 'c) subscriber_sys \<Rightarrow> zgrpc_subscriber_event_t option \<Rightarrow> bool \<Rightarrow>
   (int \<times> ('ch, 'c) subscriber_sys \<times> zgrpc_subscriber_event_t option) option mem_op" where
  "subscriber_recv_event_impl F S event_out non_blocking =
     (case event_out of
        None \<Rightarrow> done_with (Some (-1, S, None))
      | Some out0 \<Rightarrow>
          (let out = clear_subscriber_event out0;
               received = (if non_blocking then Some (GrpcSubscriber_try_recv F S)
                           else map_option (\<lambda>(r, S'). (map_sum id Some r, S')) (GrpcSubscriber_recv F S)) in
           case received of
             None \<Rightarrow> done_with None
           | Some (Inl _, S') \<Rightarrow> done_with (Some (-1, S', Some out))
           | Some (Inr None, S') \<Rightarrow> done_with (Some (1, S', Some out))
           | Some (Inr (Some ev), S') \<Rightarrow>
               and_then (fill_subscriber_event out ev) (\<lambda>(rc, x). done_with (Some (rc, S', Some x)))))"

definition zgrpc_subscriber_recv_event ::
  "('c, pb_SubscriberEvent) flume \<Rightarrow> ('ch, 'c) subscriber_sys option \<Rightarrow> zgrpc_subscriber_event_t option \<Rightarrow>
   (int \<times> ('ch, 'c) subscriber_sys option \<times> zgrpc_subscriber_event_t option) option mem_op" where
  "zgrpc_subscriber_recv_event F subscriber event_out =
     (case subscriber of
        None \<Rightarrow> done_with (Some (-1, None, event_out))
      | Some S \<Rightarrow>
          and_then (subscriber_recv_event_impl F S event_out False)
            (\<lambda>r. done_with (map_option (\<lambda>(rc, S', x). (rc, Some S', x)) r)))"

definition zgrpc_subscriber_try_recv_event ::
  "('c, pb_SubscriberEvent) flume \<Rightarrow> ('ch, 'c) subscriber_sys option \<Rightarrow> zgrpc_subscriber_event_t option \<Rightarrow>
   (int \<times> ('ch, 'c) subscriber_sys option \<times> zgrpc_subscriber_event_t option) option mem_op" where
  "zgrpc_subscriber_try_recv_event F subscriber event_out =
     (case subscriber of
        None \<Rightarrow> done_with (Some (-1, None, event_out))
      | Some S \<Rightarrow>
          and_then (subscriber_recv_event_impl F S event_out True)
            (\<lambda>r. done_with (map_option (\<lambda>(rc, S', x). (rc, Some S', x)) r)))"

definition zgrpc_subscriber_dropped_count :: "('ch, 'c) subscriber_sys option \<Rightarrow> u64" where
  "zgrpc_subscriber_dropped_count subscriber =
     (case subscriber of None \<Rightarrow> 0 | Some S \<Rightarrow> GrpcSubscriber_dropped_count S)"

definition zgrpc_subscriber_undeclare ::
  "('c, pb_SubscriberEvent) flume \<Rightarrow> 'ch subscriber_input list \<Rightarrow> ('ch, 'c) subscriber_sys option \<Rightarrow>
   (int \<times> ('ch, 'c) subscriber_sys option) option" where
  "zgrpc_subscriber_undeclare F is subscriber =
     (case subscriber of
        None \<Rightarrow> Some (-1, None)
      | Some S \<Rightarrow> map_option (\<lambda>(r, S'). (c_status r, Some S')) (GrpcSubscriber_undeclare F is S))"

section \<open>Queryables\<close>

text \<open>\<open>zq_self\<close> says whether the pointer of a callback to its queryable is set.\<close>

record ('ch, 'c, 'd) zgrpc_queryable_t =
  zq_inner :: "('ch, 'c, 'd) queryable_sys"
  zq_self :: bool
  zq_active :: "(u64, GrpcQuery) hashmap"

definition zgrpc_declare_queryable_with_options ::
  "('c, QueryableEventEnvelope) flume \<Rightarrow> ('d, QueryableCommand) flume \<Rightarrow> 'ch Inner option \<Rightarrow> addr \<Rightarrow>
   zgrpc_queryable_options_t option \<Rightarrow> ('ch, 'c, 'd) zgrpc_queryable_t option mem_op" where
  "zgrpc_declare_queryable_with_options F G session key_expr options =
     (case session of
        None \<Rightarrow> done_with None
      | Some s \<Rightarrow>
          and_then (queryable_args key_expr options) (\<lambda>args.
          done_with (Some \<lparr>zq_inner = GrpcSession_declare_queryable F G args False s, zq_self = False,
                           zq_active = []\<rparr>)))"

definition zgrpc_declare_queryable ::
  "('c, QueryableEventEnvelope) flume \<Rightarrow> ('d, QueryableCommand) flume \<Rightarrow> 'ch Inner option \<Rightarrow> addr \<Rightarrow>
   ('ch, 'c, 'd) zgrpc_queryable_t option mem_op" where
  "zgrpc_declare_queryable F G session key_expr = zgrpc_declare_queryable_with_options F G session key_expr None"

text \<open>
  Inserting a query drops the query it replaces, which finishes it; \<open>None\<close> would be a submission that
  never returns.
\<close>

definition recv_query_into_map ::
  "('d, QueryableCommand) flume \<Rightarrow> GrpcQuery \<Rightarrow> ('ch, 'c, 'd) zgrpc_queryable_t \<Rightarrow>
   ('ch, 'c, 'd) zgrpc_queryable_t option" where
  "recv_query_into_map G query Z =
     (let i = qry_query_id (gq_inner query);
          Z' = Z\<lparr>zq_active := hm_insert i query (zq_active Z)\<rparr> in
      case hm_get (zq_active Z) i of
        None \<Rightarrow> Some Z'
      | Some old \<Rightarrow> map_option (\<lambda>S. Z'\<lparr>zq_inner := S\<rparr>) (GrpcQuery_drop G old (zq_inner Z)))"

definition remove_query ::
  "u64 \<Rightarrow> ('ch, 'c, 'd) zgrpc_queryable_t \<Rightarrow> GrpcQuery option \<times> ('ch, 'c, 'd) zgrpc_queryable_t" where
  "remove_query query_id Z =
     (hm_get (zq_active Z) query_id, Z\<lparr>zq_active := hm_remove query_id (zq_active Z)\<rparr>)"

fun finish_queries ::
  "('d, QueryableCommand) flume \<Rightarrow> GrpcQuery list \<Rightarrow> ('ch, 'c, 'd) queryable_sys \<Rightarrow>
   ('ch, 'c, 'd) queryable_sys option" where
  "finish_queries G [] S = Some S"
| "finish_queries G (query # queries) S =
     (case GrpcQuery_finish G query S of None \<Rightarrow> None | Some (_, S') \<Rightarrow> finish_queries G queries S')"

definition finish_all_active_queries ::
  "('d, QueryableCommand) flume \<Rightarrow> ('ch, 'c, 'd) zgrpc_queryable_t \<Rightarrow>
   ('ch, 'c, 'd) zgrpc_queryable_t option" where
  "finish_all_active_queries G Z =
     map_option (\<lambda>S. Z\<lparr>zq_active := [], zq_inner := S\<rparr>)
       (finish_queries G (map snd (zq_active Z)) (zq_inner Z))"

text \<open>
  The closure that \<^verbatim>\<open>zgrpc_declare_queryable_with_callback\<close> installs. \<open>callback\<close> is what the C function
  does with the query it is given, by calls on the queryable.
\<close>

definition finish_removed ::
  "('d, QueryableCommand) flume \<Rightarrow> u64 \<Rightarrow> ('ch, 'c, 'd) zgrpc_queryable_t \<Rightarrow>
   (unit result \<times> ('ch, 'c, 'd) zgrpc_queryable_t) option option" where
  "finish_removed G query_id Z =
     (case remove_query query_id Z of
        (None, Z') \<Rightarrow> None
      | (Some query, Z') \<Rightarrow>
          Some (map_option (\<lambda>(r, S). (r, Z'\<lparr>zq_inner := S\<rparr>)) (GrpcQuery_finish G query (zq_inner Z'))))"

definition queryable_callback ::
  "('d, QueryableCommand) flume \<Rightarrow>
   (zgrpc_query_ex_t \<Rightarrow> ('ch, 'c, 'd) zgrpc_queryable_t \<Rightarrow> ('ch, 'c, 'd) zgrpc_queryable_t mem_op) \<Rightarrow>
   GrpcQuery \<Rightarrow> ('ch, 'c, 'd) zgrpc_queryable_t \<Rightarrow> ('ch, 'c, 'd) zgrpc_queryable_t option mem_op" where
  "queryable_callback G callback query Z =
     (if \<not> zq_self Z
      then done_with (map_option (\<lambda>S. Z\<lparr>zq_inner := S\<rparr>) (GrpcQuery_drop G query (zq_inner Z)))
      else
        and_then (query_to_owned (gq_inner query)) (\<lambda>query_out.
        case recv_query_into_map G query Z of
          None \<Rightarrow> done_with None
        | Some Z1 \<Rightarrow>
            and_then (callback query_out Z1) (\<lambda>Z2.
            and_then (zgrpc_query_ex_free query_out) (\<lambda>_.
            done_with (case finish_removed G (qry_query_id (gq_inner query)) Z2 of
                         None \<Rightarrow> Some (snd (remove_query (qry_query_id (gq_inner query)) Z2))
                       | Some finished \<Rightarrow> map_option snd finished)))))"

definition zgrpc_declare_queryable_with_callback ::
  "('c, QueryableEventEnvelope) flume \<Rightarrow> ('d, QueryableCommand) flume \<Rightarrow> 'ch Inner option \<Rightarrow> addr \<Rightarrow>
   (zgrpc_query_ex_t \<Rightarrow> ('ch, 'c, 'd) zgrpc_queryable_t \<Rightarrow> ('ch, 'c, 'd) zgrpc_queryable_t mem_op) option \<Rightarrow>
   zgrpc_queryable_options_t option \<Rightarrow>
   (('ch, 'c, 'd) zgrpc_queryable_t
    \<times> (GrpcQuery \<Rightarrow> ('ch, 'c, 'd) zgrpc_queryable_t \<Rightarrow> ('ch, 'c, 'd) zgrpc_queryable_t option mem_op)) option mem_op" where
  "zgrpc_declare_queryable_with_callback F G session key_expr callback options =
     (case (session, callback) of
        (Some s, Some cb) \<Rightarrow>
          and_then (queryable_args key_expr options) (\<lambda>args.
          done_with (Some (\<lparr>zq_inner = GrpcSession_declare_queryable F G args True s, zq_self = True,
                            zq_active = []\<rparr>, queryable_callback G cb)))
      | _ \<Rightarrow> done_with None)"

definition received_query ::
  "('d, QueryableCommand) flume \<Rightarrow> GrpcQuery \<Rightarrow> 'x mem_op \<Rightarrow> ('ch, 'c, 'd) zgrpc_queryable_t \<Rightarrow>
   (int \<times> ('ch, 'c, 'd) zgrpc_queryable_t option \<times> 'x option) option mem_op" where
  "received_query G query fill Z =
     and_then fill (\<lambda>x.
     done_with (map_option (\<lambda>Z'. (0, Some Z', Some x)) (recv_query_into_map G query Z)))"

definition zgrpc_queryable_recv ::
  "('c, QueryableEventEnvelope) flume \<Rightarrow> ('d, QueryableCommand) flume \<Rightarrow>
   ('ch, 'c, 'd) zgrpc_queryable_t option \<Rightarrow> zgrpc_query_t option \<Rightarrow>
   (int \<times> ('ch, 'c, 'd) zgrpc_queryable_t option \<times> zgrpc_query_t option) option mem_op" where
  "zgrpc_queryable_recv F G queryable query_out =
     (case (queryable, query_out) of
        (Some Z, Some out) \<Rightarrow>
          (case GrpcQueryable_recv F (zq_inner Z) of
             None \<Rightarrow> done_with None
           | Some (Inl _, S) \<Rightarrow> done_with (Some (-1, Some (Z\<lparr>zq_inner := S\<rparr>), Some (clear_query out)))
           | Some (Inr query, S) \<Rightarrow>
               received_query G query (fill_legacy_query (clear_query out) (gq_inner query)) (Z\<lparr>zq_inner := S\<rparr>))
      | _ \<Rightarrow> done_with (Some (-1, queryable, query_out)))"

definition zgrpc_queryable_try_recv ::
  "('c, QueryableEventEnvelope) flume \<Rightarrow> ('d, QueryableCommand) flume \<Rightarrow>
   ('ch, 'c, 'd) zgrpc_queryable_t option \<Rightarrow> zgrpc_query_t option \<Rightarrow>
   (int \<times> ('ch, 'c, 'd) zgrpc_queryable_t option \<times> zgrpc_query_t option) option mem_op" where
  "zgrpc_queryable_try_recv F G queryable query_out =
     (case (queryable, query_out) of
        (Some Z, Some out) \<Rightarrow>
          (case GrpcQueryable_try_recv F (zq_inner Z) of
             (Inl _, S) \<Rightarrow> done_with (Some (-1, Some (Z\<lparr>zq_inner := S\<rparr>), Some (clear_query out)))
           | (Inr None, S) \<Rightarrow> done_with (Some (1, Some (Z\<lparr>zq_inner := S\<rparr>), Some (clear_query out)))
           | (Inr (Some query), S) \<Rightarrow>
               received_query G query (fill_legacy_query (clear_query out) (gq_inner query)) (Z\<lparr>zq_inner := S\<rparr>))
      | _ \<Rightarrow> done_with (Some (-1, queryable, query_out)))"

definition zgrpc_queryable_recv_ex ::
  "('c, QueryableEventEnvelope) flume \<Rightarrow> ('d, QueryableCommand) flume \<Rightarrow>
   ('ch, 'c, 'd) zgrpc_queryable_t option \<Rightarrow> zgrpc_query_ex_t option \<Rightarrow>
   (int \<times> ('ch, 'c, 'd) zgrpc_queryable_t option \<times> zgrpc_query_ex_t option) option mem_op" where
  "zgrpc_queryable_recv_ex F G queryable query_out =
     (case (queryable, query_out) of
        (Some Z, Some out) \<Rightarrow>
          (case GrpcQueryable_recv F (zq_inner Z) of
             None \<Rightarrow> done_with None
           | Some (Inl _, S) \<Rightarrow> done_with (Some (-1, Some (Z\<lparr>zq_inner := S\<rparr>), Some (clear_query_ex out)))
           | Some (Inr query, S) \<Rightarrow>
               received_query G query (query_to_owned (gq_inner query)) (Z\<lparr>zq_inner := S\<rparr>))
      | _ \<Rightarrow> done_with (Some (-1, queryable, query_out)))"

definition zgrpc_queryable_try_recv_ex ::
  "('c, QueryableEventEnvelope) flume \<Rightarrow> ('d, QueryableCommand) flume \<Rightarrow>
   ('ch, 'c, 'd) zgrpc_queryable_t option \<Rightarrow> zgrpc_query_ex_t option \<Rightarrow>
   (int \<times> ('ch, 'c, 'd) zgrpc_queryable_t option \<times> zgrpc_query_ex_t option) option mem_op" where
  "zgrpc_queryable_try_recv_ex F G queryable query_out =
     (case (queryable, query_out) of
        (Some Z, Some out) \<Rightarrow>
          (case GrpcQueryable_try_recv F (zq_inner Z) of
             (Inl _, S) \<Rightarrow> done_with (Some (-1, Some (Z\<lparr>zq_inner := S\<rparr>), Some (clear_query_ex out)))
           | (Inr None, S) \<Rightarrow> done_with (Some (1, Some (Z\<lparr>zq_inner := S\<rparr>), Some (clear_query_ex out)))
           | (Inr (Some query), S) \<Rightarrow>
               received_query G query (query_to_owned (gq_inner query)) (Z\<lparr>zq_inner := S\<rparr>))
      | _ \<Rightarrow> done_with (Some (-1, queryable, query_out)))"

text \<open>Answers to a query that was received and is not finished; any other id is an error.\<close>

definition answered ::
  "(unit result \<times> ('ch, 'c, 'd) queryable_sys) option \<Rightarrow> ('ch, 'c, 'd) zgrpc_queryable_t \<Rightarrow>
   (int \<times> ('ch, 'c, 'd) zgrpc_queryable_t option) option" where
  "answered r Z = map_option (\<lambda>(r, S). (c_status r, Some (Z\<lparr>zq_inner := S\<rparr>))) r"

definition zgrpc_queryable_reply_with_options ::
  "('d, QueryableCommand) flume \<Rightarrow> ('ch, 'c, 'd) zgrpc_queryable_t option \<Rightarrow> u64 \<Rightarrow> addr \<Rightarrow> addr \<Rightarrow> nat \<Rightarrow>
   zgrpc_query_reply_options_t option \<Rightarrow> (int \<times> ('ch, 'c, 'd) zgrpc_queryable_t option) option mem_op" where
  "zgrpc_queryable_reply_with_options G queryable query_id key_expr payload payload_len options =
     (case queryable of
        None \<Rightarrow> done_with (Some (-1, None))
      | Some Z \<Rightarrow>
          (case hm_get (zq_active Z) query_id of
             None \<Rightarrow> done_with (Some (-1, Some Z))
           | Some query \<Rightarrow>
               and_then (cstr key_expr) (\<lambda>key.
               and_then (payload_vec payload payload_len) (\<lambda>body.
               and_then (opt_cstr rpo_encoding options) (\<lambda>enc.
               and_then (opt_payload rpo_attachment rpo_attachment_len options) (\<lambda>att.
               and_then (opt_cstr rpo_timestamp options) (\<lambda>ts.
               done_with (answered (GrpcQuery_reply G query key body enc att ts (zq_inner Z)) Z))))))))"

definition zgrpc_queryable_reply ::
  "('d, QueryableCommand) flume \<Rightarrow> ('ch, 'c, 'd) zgrpc_queryable_t option \<Rightarrow> u64 \<Rightarrow> addr \<Rightarrow> addr \<Rightarrow> nat \<Rightarrow>
   (int \<times> ('ch, 'c, 'd) zgrpc_queryable_t option) option mem_op" where
  "zgrpc_queryable_reply G queryable query_id key_expr payload payload_len =
     zgrpc_queryable_reply_with_options G queryable query_id key_expr payload payload_len None"

definition zgrpc_queryable_reply_err_with_options ::
  "('d, QueryableCommand) flume \<Rightarrow> ('ch, 'c, 'd) zgrpc_queryable_t option \<Rightarrow> u64 \<Rightarrow> addr \<Rightarrow> nat \<Rightarrow>
   zgrpc_query_reply_err_options_t option \<Rightarrow> (int \<times> ('ch, 'c, 'd) zgrpc_queryable_t option) option mem_op" where
  "zgrpc_queryable_reply_err_with_options G queryable query_id payload payload_len options =
     (case queryable of
        None \<Rightarrow> done_with (Some (-1, None))
      | Some Z \<Rightarrow>
          (case hm_get (zq_active Z) query_id of
             None \<Rightarrow> done_with (Some (-1, Some Z))
           | Some query \<Rightarrow>
               and_then (payload_vec payload payload_len) (\<lambda>body.
               and_then (opt_cstr reo_encoding options) (\<lambda>enc.
               done_with (answered (GrpcQuery_reply_err G query body enc (zq_inner Z)) Z)))))"

definition zgrpc_queryable_reply_err ::
  "('d, QueryableCommand) flume \<Rightarrow> ('ch, 'c, 'd) zgrpc_queryable_t option \<Rightarrow> u64 \<Rightarrow> addr \<Rightarrow> nat \<Rightarrow>
   (int \<times> ('ch, 'c, 'd) zgrpc_queryable_t option) option mem_op" where
  "zgrpc_queryable_reply_err G queryable query_id payload payload_len =
     zgrpc_queryable_reply_err_with_options G queryable query_id payload payload_len None"

definition zgrpc_queryable_reply_delete_with_options ::
  "('d, QueryableCommand) flume \<Rightarrow> ('ch, 'c, 'd) zgrpc_queryable_t option \<Rightarrow> u64 \<Rightarrow> addr \<Rightarrow>
   zgrpc_query_reply_delete_options_t option \<Rightarrow> (int \<times> ('ch, 'c, 'd) zgrpc_queryable_t option) option mem_op" where
  "zgrpc_queryable_reply_delete_with_options G queryable query_id key_expr options =
     (case queryable of
        None \<Rightarrow> done_with (Some (-1, None))
      | Some Z \<Rightarrow>
          (case hm_get (zq_active Z) query_id of
             None \<Rightarrow> done_with (Some (-1, Some Z))
           | Some query \<Rightarrow>
               and_then (cstr key_expr) (\<lambda>key.
               and_then (opt_payload rdo_attachment rdo_attachment_len options) (\<lambda>att.
               and_then (opt_cstr rdo_timestamp options) (\<lambda>ts.
               done_with (answered (GrpcQuery_reply_delete G query key att ts (zq_inner Z)) Z))))))"

definition zgrpc_queryable_reply_delete ::
  "('d, QueryableCommand) flume \<Rightarrow> ('ch, 'c, 'd) zgrpc_queryable_t option \<Rightarrow> u64 \<Rightarrow> addr \<Rightarrow>
   (int \<times> ('ch, 'c, 'd) zgrpc_queryable_t option) option mem_op" where
  "zgrpc_queryable_reply_delete G queryable query_id key_expr =
     zgrpc_queryable_reply_delete_with_options G queryable query_id key_expr None"

definition zgrpc_queryable_finish ::
  "('d, QueryableCommand) flume \<Rightarrow> ('ch, 'c, 'd) zgrpc_queryable_t option \<Rightarrow> u64 \<Rightarrow>
   (int \<times> ('ch, 'c, 'd) zgrpc_queryable_t option) option" where
  "zgrpc_queryable_finish G queryable query_id =
     (case queryable of
        None \<Rightarrow> Some (-1, None)
      | Some Z \<Rightarrow>
          (case finish_removed G query_id Z of
             None \<Rightarrow> Some (-1, Some Z)
           | Some finished \<Rightarrow> map_option (\<lambda>(r, Z'). (c_status r, Some Z')) finished))"

definition GrpcQueryable_dropped_count :: "('ch, 'c, 'd) queryable_sys \<Rightarrow> u64 result" where
  "GrpcQueryable_dropped_count S =
     (case ensure_pull_mode ''queryable'' (qb_mode S) of
        Inl e \<Rightarrow> Inl e
      | Inr _ \<Rightarrow> Inr (dropped_count (ev_queue S)))"

definition zgrpc_queryable_dropped_count ::
  "('ch, 'c, 'd) zgrpc_queryable_t option \<Rightarrow> u64 option \<Rightarrow> int \<times> u64 option" where
  "zgrpc_queryable_dropped_count queryable count_out =
     (case (queryable, count_out) of
        (Some Z, Some _) \<Rightarrow>
          (case GrpcQueryable_dropped_count (zq_inner Z) of
             Inr n \<Rightarrow> (0, Some n)
           | Inl _ \<Rightarrow> (-1, count_out))
      | _ \<Rightarrow> (-1, count_out))"

definition zgrpc_queryable_is_closed ::
  "('c, QueryableEventEnvelope) flume \<Rightarrow> ('ch, 'c, 'd) zgrpc_queryable_t option \<Rightarrow> int option \<Rightarrow>
   int \<times> int option" where
  "zgrpc_queryable_is_closed F queryable is_closed_out =
     (case (queryable, is_closed_out) of
        (Some Z, Some _) \<Rightarrow>
          (case GrpcQueryable_is_closed F (zq_inner Z) of
             Inr closed_now \<Rightarrow> (0, Some (if closed_now then 1 else 0))
           | Inl _ \<Rightarrow> (-1, is_closed_out))
      | _ \<Rightarrow> (-1, is_closed_out))"

definition zgrpc_queryable_send_dropped_count :: "('ch, 'c, 'd) zgrpc_queryable_t option \<Rightarrow> u64" where
  "zgrpc_queryable_send_dropped_count queryable =
     (case queryable of None \<Rightarrow> 0 | Some Z \<Rightarrow> dropped_count (qb_write (zq_inner Z)))"

text \<open>
  The queries that are still active are finished first, then the callback loses its pointer and the
  core undeclares.
\<close>

definition zgrpc_queryable_undeclare ::
  "('c, QueryableEventEnvelope) flume \<Rightarrow> ('d, QueryableCommand) flume \<Rightarrow> 'ch queryable_input list \<Rightarrow>
   ('ch, 'c, 'd) zgrpc_queryable_t option \<Rightarrow> (int \<times> ('ch, 'c, 'd) zgrpc_queryable_t option) option" where
  "zgrpc_queryable_undeclare F G is queryable =
     (case queryable of
        None \<Rightarrow> Some (-1, None)
      | Some Z \<Rightarrow>
          (case finish_all_active_queries G Z of
             None \<Rightarrow> None
           | Some Z' \<Rightarrow>
               map_option (\<lambda>(r, S). (c_status r, Some (Z'\<lparr>zq_self := False, zq_inner := S\<rparr>)))
                 (GrpcQueryable_undeclare F G is (zq_inner Z'))))"

section \<open>Reply streams and queriers\<close>

definition zgrpc_reply_stream_recv ::
  "('c, pb_Reply) flume \<Rightarrow> 'c drop_oldest option \<Rightarrow> zgrpc_reply_ex_t option \<Rightarrow>
   (int \<times> 'c drop_oldest option \<times> zgrpc_reply_ex_t option) option mem_op" where
  "zgrpc_reply_stream_recv F stream reply_out =
     (case (stream, reply_out) of
        (Some q, Some out) \<Rightarrow>
          (case ReplyStream_recv F q of
             None \<Rightarrow> done_with None
           | Some (Inl _, q') \<Rightarrow> done_with (Some (-1, Some q', Some (clear_reply_ex out)))
           | Some (Inr reply, q') \<Rightarrow>
               and_then (fill_reply_ex (clear_reply_ex out) reply) (\<lambda>(rc, x).
               done_with (Some (rc, Some q', Some x))))
      | _ \<Rightarrow> done_with (Some (-1, stream, reply_out)))"

definition zgrpc_reply_stream_try_recv ::
  "('c, pb_Reply) flume \<Rightarrow> 'c drop_oldest option \<Rightarrow> zgrpc_reply_ex_t option \<Rightarrow>
   (int \<times> 'c drop_oldest option \<times> zgrpc_reply_ex_t option) mem_op" where
  "zgrpc_reply_stream_try_recv F stream reply_out =
     (case (stream, reply_out) of
        (Some q, Some out) \<Rightarrow>
          (case ReplyStream_try_recv F q of
             (Inr (Some reply), q') \<Rightarrow>
               and_then (fill_reply_ex (clear_reply_ex out) reply) (\<lambda>(rc, x).
               done_with (rc, Some q', Some x))
           | (Inr None, q') \<Rightarrow> done_with (1, Some q', Some (clear_reply_ex out))
           | (Inl _, q') \<Rightarrow>
               done_with (if ReplyStream_is_closed F q' then 1 else -1, Some q', Some (clear_reply_ex out)))
      | _ \<Rightarrow> done_with (-1, stream, reply_out))"

definition zgrpc_reply_stream_dropped_count :: "'c drop_oldest option \<Rightarrow> u64" where
  "zgrpc_reply_stream_dropped_count stream = (case stream of None \<Rightarrow> 0 | Some q \<Rightarrow> dropped_count q)"

definition zgrpc_reply_stream_is_closed :: "('c, pb_Reply) flume \<Rightarrow> 'c drop_oldest option \<Rightarrow> int" where
  "zgrpc_reply_stream_is_closed F stream =
     (case stream of None \<Rightarrow> 1 | Some q \<Rightarrow> if ReplyStream_is_closed F q then 1 else 0)"

definition zgrpc_declare_querier_with_options ::
  "'ch Inner option \<Rightarrow> addr \<Rightarrow> zgrpc_querier_options_t option \<Rightarrow> 'ch querier_sys option mem_op" where
  "zgrpc_declare_querier_with_options session key_expr options =
     (case session of
        None \<Rightarrow> done_with None
      | Some s \<Rightarrow>
          and_then (querier_args key_expr options) (\<lambda>args.
          done_with (Some (GrpcSession_declare_querier args s))))"

definition zgrpc_declare_querier :: "'ch Inner option \<Rightarrow> addr \<Rightarrow> 'ch querier_sys option mem_op" where
  "zgrpc_declare_querier session key_expr = zgrpc_declare_querier_with_options session key_expr None"

text \<open>\<open>get\<close> is the core's result for the arguments: the queue of the reply stream, or an error.\<close>

definition zgrpc_querier_get_stream ::
  "(QuerierGetArgs \<Rightarrow> 'c drop_oldest result) \<Rightarrow> 'ch querier_sys option \<Rightarrow> addr \<Rightarrow>
   zgrpc_querier_get_options_t option \<Rightarrow> 'c drop_oldest option mem_op" where
  "zgrpc_querier_get_stream get querier parameters options =
     (case querier of
        None \<Rightarrow> done_with None
      | Some _ \<Rightarrow>
          and_then (querier_get_args parameters options) (\<lambda>args. done_with (boxed (get args))))"

definition null_reply_ex :: zgrpc_reply_ex_t where
  "null_reply_ex = \<lparr>cz_has_sample = 0, cz_sample = null_sample_ex, cz_has_error = 0,
     cz_error = \<lparr>cf_payload = 0, cf_payload_len = 0, cf_encoding = 0\<rparr>\<rparr>"

text \<open>
  The part of \<^verbatim>\<open>zgrpc_querier_get_with_options\<close> after the reply was received: the payload and the key
  expression move to the caller's structure, the rest is freed.
\<close>

definition move_reply ::
  "zgrpc_reply_ex_t \<Rightarrow> zgrpc_reply_t option \<Rightarrow> (int \<times> zgrpc_reply_t option) mem_op" where
  "move_reply reply_ex reply_out =
     (case reply_out of
        None \<Rightarrow> and_then (zgrpc_reply_ex_free reply_ex) (\<lambda>_. done_with (-1, None))
      | Some out0 \<Rightarrow>
          (let out = clear_reply out0 in
           if cz_has_sample reply_ex \<noteq> 0
           then
             (let sample = cz_sample reply_ex;
                  moved = out\<lparr>cr_is_error := 0, cr_key_expr := cx_key_expr sample,
                              cr_payload := cx_payload sample, cr_payload_len := cx_payload_len sample\<rparr>;
                  rest = reply_ex\<lparr>cz_sample := sample\<lparr>cx_key_expr := 0, cx_payload := 0, cx_payload_len := 0\<rparr>\<rparr> in
              and_then (zgrpc_reply_ex_free rest) (\<lambda>_. done_with (0, Some moved)))
           else if cz_has_error reply_ex \<noteq> 0
           then
             (let error = cz_error reply_ex;
                  moved = out\<lparr>cr_is_error := 1, cr_payload := cf_payload error,
                              cr_payload_len := cf_payload_len error\<rparr>;
                  rest = reply_ex\<lparr>cz_error := error\<lparr>cf_payload := 0, cf_payload_len := 0\<rparr>\<rparr> in
              and_then (zgrpc_reply_ex_free rest) (\<lambda>_. done_with (0, Some moved)))
           else and_then (zgrpc_reply_ex_free reply_ex) (\<lambda>_. done_with (-1, Some out))))"

definition zgrpc_querier_get_with_options ::
  "('c, pb_Reply) flume \<Rightarrow> (QuerierGetArgs \<Rightarrow> 'c drop_oldest result) \<Rightarrow> 'ch querier_sys option \<Rightarrow> addr \<Rightarrow>
   zgrpc_querier_get_options_t option \<Rightarrow> zgrpc_reply_t option \<Rightarrow>
   (int \<times> zgrpc_reply_t option) option mem_op" where
  "zgrpc_querier_get_with_options F get querier parameters options reply_out =
     and_then (zgrpc_querier_get_stream get querier parameters options) (\<lambda>stream.
     if stream = None then done_with (Some (-1, reply_out))
     else
       and_then (zgrpc_reply_stream_recv F stream (Some null_reply_ex)) (\<lambda>received.
       case received of
         Some (rc, _, Some reply_ex) \<Rightarrow>
           if rc \<noteq> 0
           then and_then (zgrpc_reply_ex_free reply_ex) (\<lambda>_. done_with (Some (rc, reply_out)))
           else and_then (move_reply reply_ex reply_out) (\<lambda>r. done_with (Some r))
       | _ \<Rightarrow> done_with None))"

definition zgrpc_querier_get ::
  "('c, pb_Reply) flume \<Rightarrow> (QuerierGetArgs \<Rightarrow> 'c drop_oldest result) \<Rightarrow> 'ch querier_sys option \<Rightarrow> addr \<Rightarrow>
   zgrpc_reply_t option \<Rightarrow> (int \<times> zgrpc_reply_t option) option mem_op" where
  "zgrpc_querier_get F get querier parameters reply_out =
     zgrpc_querier_get_with_options F get querier parameters None reply_out"

text \<open>The first component of a querier are the \<^verbatim>\<open>get\<close> calls that are under way.\<close>

definition zgrpc_querier_undeclare ::
  "('r, pb_Reply) flume \<Rightarrow> ('ch querier_input, unit rpc_result) call_input list \<Rightarrow>
   (('ch, 'r) querier_pc list \<times> 'ch querier_sys) option \<Rightarrow>
   (int \<times> (('ch, 'r) querier_pc list \<times> 'ch querier_sys) option) option" where
  "zgrpc_querier_undeclare R is querier =
     (case querier of
        None \<Rightarrow> Some (-1, None)
      | Some S \<Rightarrow> map_option (\<lambda>(r, S'). (c_status r, Some S')) (GrpcQuerier_undeclare R is S))"

end
