(* ===== verification/C_Calls.thy ===== *)
theory C_Calls
  imports C_Wrapper
begin

text \<open>
  Properties of the calls of the C interface: who owns the memory of a reply after
  \<^verbatim>\<open>zgrpc_querier_get_with_options\<close>, and the life of a query between its reception and its end.
\<close>

section \<open>Replies that change their owner\<close>

lemma wp_move_sample:
  assumes "owned h base (sample_ex_pieces (cz_sample x) s)" and "cz_has_sample x = 1"
    and "cz_error x = clear_reply_error y"
    and "\<And>m h'. owned h' base [PStr (cr_key_expr m) (smp_key_expr s), PBytes (cr_payload m) (cr_payload_len m) (smp_payload s)] \<Longrightarrow>
      cr_is_error m = 0 \<Longrightarrow> Q (0, Some m) h'"
  shows "wp (move_reply x (Some out)) Q h"
proof -
  let ?c = "cz_sample x"
  let ?rest = "?c\<lparr>cx_key_expr := 0, cx_payload := 0, cx_payload_len := 0\<rparr>"
  let ?kept = "[PStr (cx_key_expr ?c) (smp_key_expr s), PBytes (cx_payload ?c) (cx_payload_len ?c) (smp_payload s)]"
  have "owned h base (PStr 0 [] # PBytes 0 0 [] # sample_ex_pieces ?c s)"
    using assms(1) by (intro owned_null) simp_all
  then have "owned h base (sample_ex_pieces ?rest (s\<lparr>smp_key_expr := [], smp_payload := []\<rparr>) @ ?kept)"
    by (rule owned_perm [rotated]) (simp add: sample_ex_pieces_def)
  then have "wp (zgrpc_sample_ex_free ?rest) (\<lambda>_ h'. owned h' base ?kept) h"
    by (rule wp_sample_ex_free)
  then show ?thesis
    using assms(2-4)
    by (auto simp: move_reply_def Let_def zgrpc_reply_ex_free_def elim!: wp_mono)
qed

lemma wp_move_error:
  assumes "owned h base (reply_error_pieces (cz_error x) e)" and "cz_has_sample x = 0" and "cz_has_error x = 1"
    and "cz_sample x = clear_sample_ex y"
    and "\<And>m h'. owned h' base [PBytes (cr_payload m) (cr_payload_len m) (rerr_payload e)] \<Longrightarrow>
      cr_is_error m = 1 \<Longrightarrow> cr_key_expr m = 0 \<Longrightarrow> Q (0, Some m) h'"
  shows "wp (move_reply x (Some out)) Q h"
proof -
  let ?c = "cz_error x"
  let ?rest = "?c\<lparr>cf_payload := 0, cf_payload_len := 0\<rparr>"
  let ?kept = "[PBytes (cf_payload ?c) (cf_payload_len ?c) (rerr_payload e)]"
  have "owned h base (PBytes 0 0 [] # reply_error_pieces ?c e)"
    using assms(1) by (intro owned_null) simp_all
  then have "owned h base (reply_error_pieces ?rest (e\<lparr>rerr_payload := []\<rparr>) @ ?kept)"
    by (rule owned_perm [rotated]) (simp add: reply_error_pieces_def)
  then have "wp (zgrpc_reply_error_free ?rest) (\<lambda>_ h'. owned h' base ?kept) h"
    by (rule wp_reply_error_free)
  then show ?thesis
    using assms(2-5)
    by (auto simp: move_reply_def Let_def zgrpc_reply_ex_free_def clear_reply_def elim!: wp_mono)
qed

lemma wp_reply_free:
  assumes "owned h base [PStr (cr_key_expr m) k, PBytes (cr_payload m) (cr_payload_len m) b]"
  shows "wp (zgrpc_reply_free m) (\<lambda>_ h'. blocks h' = base) h"
  using assms unfolding zgrpc_reply_free_def
  by (auto elim!: wp_string_free wp_bytes_free dest: owned_all_freed)

lemma moved_sample:
  assumes "owned h base [PStr (cr_key_expr m) k, PBytes (cr_payload m) (cr_payload_len m) b]"
  shows "read_str h (cr_key_expr m) = k \<and> read_bytes h (cr_payload m) (cr_payload_len m) = b
    \<and> wp (zgrpc_reply_free m) (\<lambda>_ h'. blocks h' = base) h"
  using owned_reads [OF assms] wp_reply_free [OF assms] by simp

lemma moved_error:
  assumes "owned h base [PBytes (cr_payload m) (cr_payload_len m) b]" and "cr_key_expr m = 0"
  shows "read_bytes h (cr_payload m) (cr_payload_len m) = b
    \<and> wp (zgrpc_reply_free m) (\<lambda>_ h'. blocks h' = base) h"
  using moved_sample [of h base m "[]" b] owned_null [OF assms(1), of "PStr 0 []"] assms(2) by simp

lemma wp_querier_get:
  assumes "mem_ok h" and "zgrpc_querier_get_stream get querier parameters options h = Inr (Some q, h)"
    and "ReplyStream_recv F q = Some (Inr reply, q')" and "result_clean (reply_result reply)"
    and "\<And>x h'. reply_result reply \<noteq> None \<Longrightarrow> owned h' (blocks h) (reply_pieces x (reply_result reply)) \<Longrightarrow>
      reply_filled x (reply_result reply) \<Longrightarrow> wp (move_reply x out) (\<lambda>r. Q (Some r)) h'"
    and "\<And>h'. reply_result reply = None \<Longrightarrow> blocks h' = blocks h \<Longrightarrow> Q (Some (-1, out)) h'"
  shows "wp (zgrpc_querier_get_with_options F get querier parameters options out) Q h"
proof -
  have "wp (fill_reply_ex (clear_reply_ex null_reply_ex) reply)
      (\<lambda>(rc, x) h'. if rc \<noteq> 0 then wp (zgrpc_reply_ex_free x) (\<lambda>_. Q (Some (rc, out))) h'
         else wp (move_reply x out) (\<lambda>r. Q (Some r)) h') h"
    by (rule wp_reply_ex [OF owned_nothing [OF assms(1)] assms(4)])
      (auto intro: assms(5,6) dest!: owned_all_freed split: if_splits)
  then show ?thesis
    using assms(2,3)
    by (auto simp: zgrpc_querier_get_with_options_def zgrpc_reply_stream_recv_def wp_Inr and_then_def done_with_def
        split: if_splits)
qed

text \<open>
  C23: a reply changes its owner without a leak and without a double free. When the core's \<^verbatim>\<open>get\<close> gives a
  reply whose strings have no nul byte, \<^verbatim>\<open>zgrpc_querier_get_with_options\<close> returns: for a sample it
  returns 0 and a structure from which C reads the key expression and the payload, for an error reply
  it returns 0, the error flag, a null key expression and the payload; everything else it had allocated is freed, so
  that \<^verbatim>\<open>zgrpc_reply_free\<close> on the result gives back exactly the memory before the call. A reply without a
  result, and a null pointer for the result, give -1 and leave no memory behind.
\<close>

theorem querier_get_transfers:
  assumes "mem_ok h" and "zgrpc_querier_get_stream get querier parameters options h = Inr (Some q, h)"
    and "ReplyStream_recv F q = Some (Inr reply, q')" and "result_clean (reply_result reply)"
  shows "wp (zgrpc_querier_get_with_options F get querier parameters options (Some out)) (\<lambda>r h'.
      case reply_result reply of
        Some (Reply_Sample s) \<Rightarrow> (\<exists>x. r = Some (0, Some x) \<and> cr_is_error x = 0
          \<and> read_str h' (cr_key_expr x) = smp_key_expr s
          \<and> read_bytes h' (cr_payload x) (cr_payload_len x) = smp_payload s
          \<and> wp (zgrpc_reply_free x) (\<lambda>_ h''. blocks h'' = blocks h) h')
      | Some (Reply_Error e) \<Rightarrow> (\<exists>x. r = Some (0, Some x) \<and> cr_is_error x = 1 \<and> cr_key_expr x = 0
          \<and> read_bytes h' (cr_payload x) (cr_payload_len x) = rerr_payload e
          \<and> wp (zgrpc_reply_free x) (\<lambda>_ h''. blocks h'' = blocks h) h')
      | None \<Rightarrow> r = Some (-1, Some out) \<and> blocks h' = blocks h) h
    \<and> wp (zgrpc_querier_get_with_options F get querier parameters options None) (\<lambda>r h'.
      r = Some (-1, None) \<and> blocks h' = blocks h) h"
proof (intro conjI wp_querier_get [OF assms], goal_cases)
  case (1 x h')
  show ?case
  proof (cases "reply_result reply" rule: result_clean.cases)
    case (1 s)
    with \<open>reply_filled x (reply_result reply)\<close> obtain y where "cz_error x = clear_reply_error y" by auto
    with 1 \<open>owned h' _ _\<close> \<open>reply_filled x _\<close> show ?thesis
      by (auto elim!: wp_move_sample dest: moved_sample)
  next
    case (2 e)
    with \<open>reply_filled x (reply_result reply)\<close> obtain y where "cz_sample x = clear_sample_ex y" by auto
    with 2 \<open>owned h' _ _\<close> \<open>reply_filled x _\<close> show ?thesis
      by (auto elim!: wp_move_error dest: moved_error)
  qed (use \<open>reply_result reply \<noteq> None\<close> in simp)
next
  case (3 x h')
  then show ?case
    by (auto simp: move_reply_def intro: wp_reply_ex_free [where xs = "[]"] dest: owned_all_freed)
qed simp_all

definition replied :: "pb_Reply \<Rightarrow> pb_Reply fifo drop_oldest" where
  "replied reply =
     \<lparr>chan = \<lparr>items = [reply], fifo_cap = 1, n_senders = 0, n_receivers = 1\<rparr>, dropped = 0, pending = 1, notifications = 0\<rparr>"

theorem querier_get_transfers_witness:
  "wp (zgrpc_querier_get_with_options fifo_flume (\<lambda>_. Inr (replied \<lparr>reply_result = Some (Reply_Sample a_sample)\<rparr>))
        (Some (GrpcSession_declare_querier (DeclareQuerierArgs_default) demo_session)) 0 None
        (Some \<lparr>cr_is_error = 0, cr_key_expr = 0, cr_payload = 0, cr_payload_len = 0\<rparr>))
     (\<lambda>r h'. \<exists>x. r = Some (0, Some x) \<and> cr_is_error x = 0
        \<and> read_str h' (cr_key_expr x) = ''k'' \<and> read_bytes h' (cr_payload x) (cr_payload_len x) = [1, 2]
        \<and> wp (zgrpc_reply_free x) (\<lambda>_ h''. blocks h'' = Map.empty) h') no_memory"
proof -
  let ?reply = "\<lparr>reply_result = Some (Reply_Sample a_sample)\<rparr>" and ?out = "\<lparr>cr_is_error = 0, cr_key_expr = 0, cr_payload = 0, cr_payload_len = 0\<rparr>"
  let ?get = "\<lambda>_ :: QuerierGetArgs. Inr (replied ?reply) :: pb_Reply fifo drop_oldest result"
  let ?querier = "Some (GrpcSession_declare_querier DeclareQuerierArgs_default demo_session)"
  have "zgrpc_querier_get_stream ?get ?querier 0 None no_memory = Inr (Some (replied ?reply), no_memory)"
    by (simp add: zgrpc_querier_get_stream_def querier_get_args_def opt_cstr_def opt_payload_def cstr_def
        and_then_def done_with_def boxed_def)
  moreover have "ReplyStream_recv fifo_flume (replied ?reply) =
      Some (Inr ?reply, (replied ?reply)\<lparr>chan := (chan (replied ?reply))\<lparr>items := []\<rparr>\<rparr>)"
    by (simp add: ReplyStream_recv_def fifo_recv_Cons [of _ ?reply "[]"] replied_def)
  ultimately show ?thesis
    using querier_get_transfers [of no_memory ?get ?querier 0 None "replied ?reply" fifo_flume ?reply
        "(replied ?reply)\<lparr>chan := (chan (replied ?reply))\<lparr>items := []\<rparr>\<rparr>" ?out] a_sample_clean
    by (simp add: a_sample_def no_memory_def)
qed

section \<open>The life of a query\<close>

lemma finish_removed_gone:
  assumes "finish_removed G i Z = Some (Some (r, Z'))"
  shows "hm_get (zq_active Z') j = (if j = i then None else hm_get (zq_active Z) j)"
  using assms by (auto simp: finish_removed_def remove_query_def split: option.splits prod.splits)

lemma finish_gone:
  assumes "zgrpc_queryable_finish G (Some Z) i = Some (rc, Some Z')"
  shows "hm_get (zq_active Z') j = (if j = i then None else hm_get (zq_active Z) j)"
  using assms finish_removed_gone [of G i Z _ Z' j]
  by (auto simp: zgrpc_queryable_finish_def finish_removed_def remove_query_def split: option.splits)

lemma unknown_query:
  assumes "hm_get (zq_active Z) i = None"
  shows "zgrpc_queryable_reply_with_options G (Some Z) i k p n ro = done_with (Some (-1, Some Z))"
    "zgrpc_queryable_reply_err_with_options G (Some Z) i p n eo = done_with (Some (-1, Some Z))"
    "zgrpc_queryable_reply_delete_with_options G (Some Z) i k do = done_with (Some (-1, Some Z))"
    "zgrpc_queryable_finish G (Some Z) i = Some (-1, Some Z)"
  using assms
  by (simp_all add: zgrpc_queryable_reply_with_options_def zgrpc_queryable_reply_err_with_options_def
      zgrpc_queryable_reply_delete_with_options_def zgrpc_queryable_finish_def finish_removed_def remove_query_def)

text \<open>
  A finished query stays finished. After \<^verbatim>\<open>zgrpc_queryable_finish\<close> on an id, every reply, error, deletion and
  finish with this id returns -1, reads none of the caller's memory and changes nothing, while the
  other queries of the queryable are as before; and \<^verbatim>\<open>zgrpc_queryable_undeclare\<close> leaves no query
  active at all.
\<close>

theorem finished_query_rejected:
  assumes "zgrpc_queryable_finish G (Some Z) i = Some (rc, Some Z')"
    and "zgrpc_queryable_undeclare F G is (Some Z0) = Some (rc', Some Z1)"
  shows "zgrpc_queryable_reply_with_options G (Some Z') i k p n ro h = Inr (Some (-1, Some Z'), h)
    \<and> zgrpc_queryable_reply_err_with_options G (Some Z') i p n eo h = Inr (Some (-1, Some Z'), h)
    \<and> zgrpc_queryable_reply_delete_with_options G (Some Z') i k dopt h = Inr (Some (-1, Some Z'), h)
    \<and> zgrpc_queryable_finish G (Some Z') i = Some (-1, Some Z')
    \<and> (j \<noteq> i \<longrightarrow> hm_get (zq_active Z') j = hm_get (zq_active Z) j)
    \<and> zgrpc_queryable_finish G (Some Z1) j = Some (-1, Some Z1)"
proof -
  have "hm_get (zq_active Z') i = None" using finish_gone [OF assms(1)] by simp
  moreover have "hm_get (zq_active Z1) j = None"
    using assms(2) by (auto simp: zgrpc_queryable_undeclare_def finish_all_active_queries_def split: option.splits)
  ultimately show ?thesis
    using finish_gone [OF assms(1), of j] by (simp add: unknown_query done_with_def)
qed

definition one_active :: "(nat, QueryableEventEnvelope fifo, QueryableCommand fifo) zgrpc_queryable_t" where
  "one_active = \<lparr>zq_inner = demo_queryable, zq_self = False, zq_active = [(1, demo_grpc_query)]\<rparr>"

lemma one_active_finishes:
  "\<exists>S. GrpcQuery_finish fifo_flume demo_grpc_query demo_queryable = Some (Inr (), S)"
  by (simp add: demo_queryable_simps answer_defs enqueue_command_def submit_def demo_grpc_query_def
      GrpcQuery_identity_def)

theorem finished_query_rejected_witness:
  "\<exists>Z. zgrpc_queryable_finish fifo_flume (Some one_active) 1 = Some (0, Some Z)
     \<and> zgrpc_queryable_finish fifo_flume (Some Z) 1 = Some (-1, Some Z)
     \<and> zgrpc_queryable_reply_with_options fifo_flume (Some Z) 1 0 0 0 None no_memory
         = Inr (Some (-1, Some Z), no_memory)"
proof -
  from one_active_finishes obtain S where
    S: "GrpcQuery_finish fifo_flume demo_grpc_query demo_queryable = Some (Inr (), S)" ..
  have fin: "zgrpc_queryable_finish fifo_flume (Some one_active) 1 =
      Some (0, Some \<lparr>zq_inner = S, zq_self = False, zq_active = []\<rparr>)"
    using S by (simp add: zgrpc_queryable_finish_def finish_removed_def remove_query_def one_active_def
        hm_get_def hm_remove_def c_status_def)
  have "run_steps (queryable_step fifo_flume fifo_flume) [QiFinish demo_grpc_query] demo_queryable = S"
    using S by (simp add: step_or_stay_def)
  with undeclare_queryable_schedule_returns obtain T where
    T: "GrpcQueryable_undeclare fifo_flume fifo_flume undeclare_queryable_schedule S = Some (Inr (), T)" by auto
  have und: "zgrpc_queryable_undeclare fifo_flume fifo_flume undeclare_queryable_schedule (Some one_active) =
      Some (0, Some \<lparr>zq_inner = T, zq_self = False, zq_active = []\<rparr>)"
    using S T by (simp add: zgrpc_queryable_undeclare_def finish_all_active_queries_def one_active_def c_status_def)
  from fin finished_query_rejected [OF fin und, of 0 0 0 None no_memory] show ?thesis by blast
qed

end
