(* ===== verification/C_Objects.thy ===== *)
theory C_Objects
  imports C_Wrapper
begin

text \<open>
  The objects that the C library hands out. A session, a publisher, a subscriber, a queryable, a querier
  or a reply stream is a box: \<^verbatim>\<open>Box::into_raw\<close> makes its pointer, the \<^verbatim>\<open>take_\<close> functions borrow the object
  behind a pointer, and \<^verbatim>\<open>zgrpc_close\<close>, the \<^verbatim>\<open>undeclare\<close> functions and \<^verbatim>\<open>zgrpc_reply_stream_drop\<close> take the
  box back and free it. \<open>C_Wrapper\<close> has the calls on the objects themselves, with \<open>None\<close> for a null
  pointer; here is what pointers mean. A pointer to a freed box, or to a box of another type, makes the
  call invalid: the C program has undefined behaviour.
\<close>

section \<open>Boxes\<close>

datatype ('s, 'p, 'u, 'q, 'k, 'r) c_object =
    CSession 's | CPublisher 'p | CSubscriber 'u | CQueryable 'q | CQuerier 'k | CReplyStream 'r

record 'o boxes =
  live_boxes :: "addr \<rightharpoonup> 'o"
  next_box :: addr

definition no_boxes :: "'o boxes" where
  "no_boxes = \<lparr>live_boxes = Map.empty, next_box = 1\<rparr>"

text \<open>\<^verbatim>\<open>Box::into_raw(Box::new(x))\<close>, or a null pointer for an error.\<close>

definition into_raw :: "'o option \<Rightarrow> 'o boxes \<Rightarrow> addr \<times> 'o boxes" where
  "into_raw x B =
     (case x of
        None \<Rightarrow> (0, B)
      | Some y \<Rightarrow> (next_box B, B\<lparr>live_boxes := (live_boxes B)(next_box B \<mapsto> y), next_box := Suc (next_box B)\<rparr>))"

text \<open>\<^verbatim>\<open>as_mut\<close>: what a pointer borrows. \<open>kind\<close> selects the objects of the pointer's type.\<close>

definition borrow :: "('o \<Rightarrow> 'x option) \<Rightarrow> addr \<Rightarrow> 'o boxes \<Rightarrow> fault + 'x option" where
  "borrow kind p B =
     (if p = 0 then Inr None
      else case Option.bind (live_boxes B p) kind of None \<Rightarrow> Inl Invalid | Some x \<Rightarrow> Inr (Some x))"

fun session_of :: "('s, 'p, 'u, 'q, 'k, 'r) c_object \<Rightarrow> 's option" where
  "session_of (CSession s) = Some s" | "session_of _ = None"

fun publisher_of :: "('s, 'p, 'u, 'q, 'k, 'r) c_object \<Rightarrow> 'p option" where
  "publisher_of (CPublisher x) = Some x" | "publisher_of _ = None"

fun subscriber_of :: "('s, 'p, 'u, 'q, 'k, 'r) c_object \<Rightarrow> 'u option" where
  "subscriber_of (CSubscriber x) = Some x" | "subscriber_of _ = None"

fun queryable_of :: "('s, 'p, 'u, 'q, 'k, 'r) c_object \<Rightarrow> 'q option" where
  "queryable_of (CQueryable x) = Some x" | "queryable_of _ = None"

fun querier_of :: "('s, 'p, 'u, 'q, 'k, 'r) c_object \<Rightarrow> 'k option" where
  "querier_of (CQuerier x) = Some x" | "querier_of _ = None"

fun reply_stream_of :: "('s, 'p, 'u, 'q, 'k, 'r) c_object \<Rightarrow> 'r option" where
  "reply_stream_of (CReplyStream x) = Some x" | "reply_stream_of _ = None"

definition take_session where "take_session = borrow session_of"
definition take_publisher where "take_publisher = borrow publisher_of"
definition take_subscriber where "take_subscriber = borrow subscriber_of"
definition take_queryable where "take_queryable = borrow queryable_of"
definition take_querier where "take_querier = borrow querier_of"
definition take_reply_stream where "take_reply_stream = borrow reply_stream_of"

text \<open>
  \<^verbatim>\<open>Box::from_raw\<close> of a pointer that is not null: the box is the caller's, and its memory is freed when the
  call ends.
\<close>

definition from_raw :: "('o \<Rightarrow> 'x option) \<Rightarrow> addr \<Rightarrow> 'o boxes \<Rightarrow> fault + 'x option \<times> 'o boxes" where
  "from_raw kind p B =
     (case borrow kind p B of
        Inl e \<Rightarrow> Inl e
      | Inr x \<Rightarrow> Inr (x, B\<lparr>live_boxes := (live_boxes B)(p := None)\<rparr>))"

section \<open>Programs\<close>

text \<open>
  What a C program does with pointers: it gets one from a call that declares or opens something, it uses
  one, with the effect \<open>f\<close> of the call on the object, or it gives one back.
\<close>

datatype 'o pointer_call =
    Gets "'o option"
  | Uses "'o \<Rightarrow> bool" addr "'o \<Rightarrow> 'o"
  | GivesBack "'o \<Rightarrow> bool" addr

definition of_kind :: "('o \<Rightarrow> bool) \<Rightarrow> 'o \<Rightarrow> 'o option" where
  "of_kind P x = (if P x then Some x else None)"

fun pointer_step :: "'o pointer_call \<Rightarrow> 'o boxes \<Rightarrow> fault + 'o boxes" where
  "pointer_step (Gets x) B = Inr (snd (into_raw x B))"
| "pointer_step (Uses P p f) B =
     (case borrow (of_kind P) p B of
        Inl e \<Rightarrow> Inl e
      | Inr None \<Rightarrow> Inr B
      | Inr (Some x) \<Rightarrow> Inr (B\<lparr>live_boxes := (live_boxes B)(p \<mapsto> f x)\<rparr>))"
| "pointer_step (GivesBack P p) B = map_sum id snd (from_raw (of_kind P) p B)"

fun pointer_run :: "'o pointer_call list \<Rightarrow> 'o boxes \<Rightarrow> fault + 'o boxes" where
  "pointer_run [] B = Inr B"
| "pointer_run (c # cs) B = (case pointer_step c B of Inl e \<Rightarrow> Inl e | Inr B' \<Rightarrow> pointer_run cs B')"

fun names :: "addr \<Rightarrow> 'o pointer_call \<Rightarrow> bool" where
  "names p (Gets x) = False"
| "names p (Uses P q f) = (p = q)"
| "names p (GivesBack P q) = (p = q)"

definition boxes_ok :: "'o boxes \<Rightarrow> bool" where
  "boxes_ok B \<longleftrightarrow> 0 < next_box B \<and> (\<forall>p. live_boxes B p \<noteq> None \<longrightarrow> 0 < p \<and> p < next_box B)"

lemma boxes_ok_no_boxes: "boxes_ok no_boxes"
  by (simp add: boxes_ok_def no_boxes_def)

lemma pointer_step_ok:
  assumes "pointer_step c B = Inr B'" and "boxes_ok B"
  shows "boxes_ok B' \<and> next_box B \<le> next_box B'
    \<and> (\<forall>p. p < next_box B \<longrightarrow> live_boxes B p = None \<longrightarrow> live_boxes B' p = None)"
  using assms
  by (cases c) (auto simp: boxes_ok_def into_raw_def borrow_def from_raw_def less_Suc_eq
      split: option.splits if_splits bind_splits sum.splits)

lemma pointer_run_ok:
  assumes "pointer_run cs B = Inr B'" and "boxes_ok B"
  shows "boxes_ok B' \<and> next_box B \<le> next_box B'
    \<and> (\<forall>p. p < next_box B \<longrightarrow> live_boxes B p = None \<longrightarrow> live_boxes B' p = None)"
  using assms
proof (induction cs arbitrary: B)
  case (Cons c cs)
  from Cons.prems(1) obtain B1 where B1: "pointer_step c B = Inr B1" "pointer_run cs B1 = Inr B'"
    by (auto split: sum.splits)
  from pointer_step_ok [OF B1(1) Cons.prems(2)] Cons.IH [OF B1(2)] show ?case by fastforce
qed simp

lemma dead_pointer_unnamed:
  assumes "pointer_run cs B = Inr B'" and "boxes_ok B" and "0 < p" and "p < next_box B" and "live_boxes B p = None"
  shows "\<forall>c \<in> set cs. \<not> names p c"
  using assms
proof (induction cs arbitrary: B)
  case (Cons c cs)
  from Cons.prems(1) obtain B1 where B1: "pointer_step c B = Inr B1" "pointer_run cs B1 = Inr B'"
    by (auto split: sum.splits)
  have "\<not> names p c"
    using B1(1) Cons.prems(3,5) by (cases c) (auto simp: borrow_def from_raw_def)
  with pointer_step_ok [OF B1(1) Cons.prems(2)] Cons.IH [OF B1(2)] Cons.prems(3-5) show ?case by auto
qed simp

lemma pointer_run_append:
  "pointer_run (cs @ ds) B = (case pointer_run cs B of Inl e \<Rightarrow> Inl e | Inr B' \<Rightarrow> pointer_run ds B')"
  by (induction cs arbitrary: B) (auto split: sum.splits)

text \<open>
  A program without undefined behaviour names a pointer for the last time when it gives it back: in a run
  that does not fault, no call after the one that frees a box names its pointer, so no box is freed twice.
\<close>

theorem freed_once:
  assumes "pointer_run (cs @ GivesBack P p # ds) no_boxes = Inr B" and "p \<noteq> 0"
  shows "\<forall>c \<in> set ds. \<not> names p c"
proof -
  from assms(1) obtain B1 B2 where B: "pointer_run cs no_boxes = Inr B1" "pointer_step (GivesBack P p) B1 = Inr B2"
    "pointer_run ds B2 = Inr B"
    by (auto simp: pointer_run_append split: sum.splits)
  from pointer_run_ok [OF B(1) boxes_ok_no_boxes] have ok: "boxes_ok B1" by blast
  with B(2) assms(2) have "live_boxes B2 p = None" "p < next_box B2"
    by (auto simp: from_raw_def borrow_def boxes_ok_def split: option.splits sum.splits bind_splits)
  with dead_pointer_unnamed [OF B(3) conjunct1 [OF pointer_step_ok [OF B(2) ok]]] assms(2) show ?thesis by simp
qed

theorem freed_once_witness:
  "\<exists>B. pointer_run ([Gets (Some (7::nat)), Uses (\<lambda>_. True) 1 Suc] @ GivesBack (\<lambda>_. True) 1 # [Gets (Some 8)]) no_boxes = Inr B
     \<and> list_all (\<lambda>c. \<not> names 1 c) [Gets (Some (8::nat))]"
proof -
  have "\<exists>B. pointer_run ([Gets (Some (7::nat)), Uses (\<lambda>_. True) 1 Suc] @ GivesBack (\<lambda>_. True) 1 # [Gets (Some 8)]) no_boxes = Inr B"
    by (simp add: no_boxes_def into_raw_def from_raw_def borrow_def of_kind_def)
  then obtain B where
    B: "pointer_run ([Gets (Some (7::nat)), Uses (\<lambda>_. True) 1 Suc] @ GivesBack (\<lambda>_. True) 1 # [Gets (Some 8)]) no_boxes = Inr B" ..
  from freed_once [OF B] B show ?thesis by (simp add: list_all_iff)
qed

section \<open>Dropping a reply stream\<close>

text \<open>
  Dropping a reply stream drops a receiver of its channel. The sender of a drop-oldest queue has a receiver
  of its own, with which it removes the oldest item; \<open>receiver_count\<close> counts both. \<open>drop_receiver\<close> is
  the \<^verbatim>\<open>Drop\<close> of \<^verbatim>\<open>flume::Receiver\<close>.
\<close>

locale counted_channel = bounded_channel F contents capacity receivers senders
  for F :: "('c, 't) flume" and contents and capacity and receivers and senders +
  fixes drop_receiver :: "'c \<Rightarrow> 'c" and receiver_count :: "'c \<Rightarrow> nat"
  assumes receivers_iff: "receivers c \<longleftrightarrow> receiver_count c \<noteq> 0"
    and new_count: "receiver_count (bounded F n) = 2"
    and send_count: "receiver_count (snd (try_send F c x)) = receiver_count c"
    and recv_count: "receiver_count (snd (chan_try_recv F c)) = receiver_count c"
    and drop_count: "receiver_count (drop_receiver c) = receiver_count c - 1"
    and drop_keeps: "contents (drop_receiver c) = contents c \<and> capacity (drop_receiver c) = capacity c
      \<and> senders (drop_receiver c) = senders c"
begin

lemma push_count:
  assumes "queue_ok n q" and "push F x q = Some (r, q')"
  shows "receiver_count (chan q') = receiver_count (chan q)"
proof (cases "length (contents (chan q)) < capacity (chan q)")
  case True
  with assms(1) send_room [of "chan q" x] obtain c where c: "try_send F (chan q) x = (SendOk, c)"
    by (auto simp: queue_ok_def)
  with assms(2) have "chan q' = c" by (subst (asm) push.simps) auto
  with c send_count [of "chan q" x] show ?thesis by simp
next
  case False
  with assms(1) have full: "try_send F (chan q) x = (SendFull x, chan q)"
    by (auto simp: queue_ok_def intro: send_full)
  from False assms(1) obtain y ys where ys: "contents (chan q) = y # ys"
    by (cases "contents (chan q)") (auto simp: queue_ok_def)
  from recv_item [OF ys] obtain c where c: "chan_try_recv F (chan q) = (RecvOk y, c)" "contents c = ys"
    "capacity c = capacity (chan q)" "receivers c = receivers (chan q)" by blast
  with assms(1) ys send_room [of c x] obtain c' where c': "try_send F c x = (SendOk, c')"
    by (auto simp: queue_ok_def)
  from assms(2) full c c' have "chan q' = c'"
    by (subst (asm) push.simps, simp) (subst (asm) push.simps, auto)
  with c c' send_count [of c x] recv_count [of "chan q"] show ?thesis by simp
qed

lemma push_all_count:
  assumes "push_all F xs q = Some q'" and "queue_ok n q"
  shows "receiver_count (chan q') = receiver_count (chan q)"
  using assms
proof (induction xs arbitrary: q)
  case (Cons x xs)
  from push_queue_ok [OF Cons.prems(2), of x] obtain q1 where q1: "push F x q = Some (Inr (), q1)" "queue_ok n q1"
    by blast
  with Cons.IH [of q1] Cons.prems push_count [OF Cons.prems(2) q1(1)] show ?case by simp
qed simp

end

interpretation fifo_counted: counted_channel fifo_flume items fifo_cap "\<lambda>c. n_receivers c \<noteq> 0" n_senders
  "\<lambda>c. c\<lparr>n_receivers := n_receivers c - 1\<rparr>" n_receivers
  by unfold_locales (auto simp: fifo_flume_def split: list.splits)

definition zgrpc_reply_stream_drop :: "('c \<Rightarrow> 'c) \<Rightarrow> 'c drop_oldest option \<Rightarrow> 'c drop_oldest option" where
  "zgrpc_reply_stream_drop drop_receiver stream =
     map_option (\<lambda>q. q\<lparr>chan := drop_receiver (chan q)\<rparr>) stream"

locale counted_replies = counted_channel F contents capacity receivers senders drop_receiver receiver_count
  for F :: "('c, pb_Reply) flume" and contents and capacity and receivers and senders and drop_receiver
    and receiver_count
begin

lemma pumped_after_drop:
  assumes "push_all F rs (bounded_drop_oldest F RECV_QUEUE_CAPACITY) = Some q"
    and "zgrpc_reply_stream_drop drop_receiver (Some q) = Some q'"
  shows "\<exists>q2. pump_all F g (map MsgItem rs') (ReplyStream q' True, s) = Some (ReplyStream q2 True, s)
    \<and> contents (chan q2) = newest RECV_QUEUE_CAPACITY (rs @ rs')"
proof -
  let ?q = "bounded_drop_oldest F RECV_QUEUE_CAPACITY"
  have new: "contents (chan ?q) = []" "capacity (chan ?q) = RECV_QUEUE_CAPACITY" "receivers (chan ?q)"
    "receiver_count (chan ?q) = 2"
    using bounded_new [of RECV_QUEUE_CAPACITY] new_count by (simp_all add: bounded_drop_oldest_def)
  from push_all_newest [of ?q rs] new assms(1) have
    q: "contents (chan q) = newest RECV_QUEUE_CAPACITY rs" "capacity (chan q) = RECV_QUEUE_CAPACITY"
    by (auto simp: RECV_QUEUE_CAPACITY_def)
  from push_all_count [OF assms(1) queue_ok_new] new have "receiver_count (chan q) = 2"
    by (simp add: RECV_QUEUE_CAPACITY_def)
  with q assms(2) drop_keeps [of "chan q"] drop_count [of "chan q"] receivers_iff have
    q': "contents (chan q') = newest RECV_QUEUE_CAPACITY rs" "capacity (chan q') = RECV_QUEUE_CAPACITY" "receivers (chan q')"
    by (auto simp: zgrpc_reply_stream_drop_def)
  then have "length (contents (chan q')) \<le> capacity (chan q')" by (simp add: length_newest)
  with push_all_newest [of q' rs'] q' obtain q2 where
    "push_all F rs' q' = Some q2" "contents (chan q2) = newest RECV_QUEUE_CAPACITY (newest RECV_QUEUE_CAPACITY rs @ rs')"
    by (auto simp: RECV_QUEUE_CAPACITY_def)
  with pump_items [of F rs' q' q2 g "[]" s] show ?thesis by (simp add: newest_append)
qed

lemma goes_on:
  assumes "get_answer F g (Inr ()) s = (Inr stream, s')"
    and "pump_all F g (map MsgItem rs) (stream, s') = Some (ReplyStream q b, s'')"
    and "zgrpc_reply_stream_drop drop_receiver (Some q) = Some q'"
  shows "\<exists>q2. pump_all F g (map MsgItem rs') (ReplyStream q' b, s'') = Some (ReplyStream q2 True, s)
    \<and> contents (chan q2) = newest RECV_QUEUE_CAPACITY (rs @ rs')"
proof -
  let ?q = "bounded_drop_oldest F RECV_QUEUE_CAPACITY"
  have stream: "stream = ReplyStream ?q True" "s' = s" using assms(1) by (auto simp: get_answer_def)
  have "receivers (chan ?q)" "0 < capacity (chan ?q)" "length (contents (chan ?q)) \<le> capacity (chan ?q)"
    using bounded_new [of RECV_QUEUE_CAPACITY] by (simp_all add: bounded_drop_oldest_def RECV_QUEUE_CAPACITY_def)
  from push_all_newest [OF this, of rs] obtain q0 where q0: "push_all F rs ?q = Some q0" by blast
  with assms(2) pump_items [OF q0, of g "[]" s] have "q = q0" "b = True" "s'' = s" by (simp_all add: stream)
  with pumped_after_drop [OF q0, of q'] assms(3) show ?thesis by simp
qed

end


definition some_reply :: "bytes \<Rightarrow> pb_Reply" where
  "some_reply b = \<lparr>reply_result = Some (Reply_Error \<lparr>rerr_payload = b, rerr_encoding = []\<rparr>)\<rparr>"


end
