(* ===== verification/C_Callback.thy ===== *)
theory C_Callback
  imports C_Wrapper
begin

text \<open>
  A queryable with a callback in the C library, under concurrency: the dispatcher thread that runs the
  closure of \<^verbatim>\<open>zgrpc_declare_queryable_with_callback\<close> and the thread of the C program that declares and
  undeclares the queryable, \<^verbatim>\<open>zgrpc-c/src/lib.rs\<close>.

  The closure keeps a raw pointer to the queryable (\<^verbatim>\<open>self_ptr\<close>) and uses it three times: it stores the
  query, the C function uses it, and it takes the query out again. \<open>cb_freed\<close> says that the box it
  points to is gone; using it then is the state \<open>D_Fault\<close>. Each step is what happens between two points
  at which the threads can interleave. The memory of the structure handed to the C function is left
  out; \<open>queryable_callback\<close> has it for a callback that runs alone.
\<close>

section \<open>State\<close>

text \<open>
  The dispatcher: waiting for a query, with the pointer loaded, in the C function with the query of an
  id, ended, or after an access to a freed queryable. The C program: the core has declared the
  queryable, the pointer is stored and returned, \<^verbatim>\<open>undeclare\<close> has finished the active queries, has
  cleared the pointer, has returned and freed the queryable.
\<close>

datatype dispatcher_pc = D_Recv | D_Loaded GrpcQuery | D_Running u64 | D_Ended | D_Fault

datatype app_pc = A_Declared | A_Ready | A_Finished | A_Cleared | A_Freed

record ('ch, 'c, 'd) callback_sys =
  cb_box :: "('ch, 'c, 'd) zgrpc_queryable_t"
  cb_freed :: bool
  cb_pc :: dispatcher_pc
  cb_app :: app_pc
  cb_on_drop :: nat

definition callback_declared :: "('ch, 'c, 'd) queryable_sys \<Rightarrow> ('ch, 'c, 'd) callback_sys" where
  "callback_declared S =
     \<lparr>cb_box = \<lparr>zq_inner = S, zq_self = False, zq_active = []\<rparr>, cb_freed = False, cb_pc = D_Recv,
      cb_app = A_Declared, cb_on_drop = 0\<rparr>"

section \<open>Steps\<close>

text \<open>
  The closure and the queryable share the context of the callback by reference counting; \<^verbatim>\<open>on_drop\<close> runs
  when the second of them goes.
\<close>

definition end_dispatcher :: "('ch, 'c, 'd) callback_sys \<Rightarrow> ('ch, 'c, 'd) callback_sys" where
  "end_dispatcher X = X\<lparr>cb_pc := D_Ended, cb_on_drop := cb_on_drop X + (if cb_freed X then 1 else 0)\<rparr>"

definition free_queryable :: "('ch, 'c, 'd) callback_sys \<Rightarrow> ('ch, 'c, 'd) callback_sys" where
  "free_queryable X =
     X\<lparr>cb_freed := True, cb_app := A_Freed, cb_on_drop := cb_on_drop X + (if cb_pc X = D_Ended then 1 else 0)\<rparr>"

text \<open>
  \<open>CbTake\<close>, \<open>CbInsert\<close>, \<open>CbReturn\<close> and \<open>CbEnd\<close> are steps of the dispatcher, the others of the C program;
  \<open>AppFinish\<close> is a call of \<^verbatim>\<open>zgrpc_queryable_finish\<close> by any of its threads, the C function included.
\<close>

datatype callback_input =
  CbTake GrpcQuery | CbInsert | CbReturn | CbEnd | AppStore | AppFinish u64 | AppFinishAll | AppClear | AppFree

fun callback_step ::
  "('d, QueryableCommand) flume \<Rightarrow> callback_input \<Rightarrow> ('ch, 'c, 'd) callback_sys \<Rightarrow>
   ('ch, 'c, 'd) callback_sys option" where
  "callback_step G (CbTake q) X =
     (if cb_pc X \<noteq> D_Recv then None
      else if zq_self (cb_box X) then Some (X\<lparr>cb_pc := D_Loaded q\<rparr>)
      else map_option (\<lambda>S. X\<lparr>cb_box := (cb_box X)\<lparr>zq_inner := S\<rparr>\<rparr>) (GrpcQuery_drop G q (zq_inner (cb_box X))))"
| "callback_step G CbInsert X =
     (case cb_pc X of
        D_Loaded q \<Rightarrow>
          if cb_freed X then Some (X\<lparr>cb_pc := D_Fault\<rparr>)
          else map_option (\<lambda>Z. X\<lparr>cb_box := Z, cb_pc := D_Running (qry_query_id (gq_inner q))\<rparr>)
                 (recv_query_into_map G q (cb_box X))
      | _ \<Rightarrow> None)"
| "callback_step G CbReturn X =
     (case cb_pc X of
        D_Running i \<Rightarrow>
          if cb_freed X then Some (X\<lparr>cb_pc := D_Fault\<rparr>)
          else (case finish_removed G i (cb_box X) of
                  None \<Rightarrow> Some (X\<lparr>cb_pc := D_Recv\<rparr>)
                | Some finished \<Rightarrow> map_option (\<lambda>(_, Z). X\<lparr>cb_box := Z, cb_pc := D_Recv\<rparr>) finished)
      | _ \<Rightarrow> None)"
| "callback_step G CbEnd X = (if cb_pc X = D_Recv then Some (end_dispatcher X) else None)"
| "callback_step G AppStore X =
     (if cb_app X = A_Declared
      then Some (X\<lparr>cb_app := A_Ready, cb_box := (cb_box X)\<lparr>zq_self := True\<rparr>\<rparr>) else None)"
| "callback_step G (AppFinish i) X =
     (if cb_app X = A_Ready
      then (case zgrpc_queryable_finish G (Some (cb_box X)) i of
              Some (_, Some Z) \<Rightarrow> Some (X\<lparr>cb_box := Z\<rparr>) | _ \<Rightarrow> None)
      else None)"
| "callback_step G AppFinishAll X =
     (if cb_app X = A_Ready
      then map_option (\<lambda>Z. X\<lparr>cb_app := A_Finished, cb_box := Z\<rparr>) (finish_all_active_queries G (cb_box X))
      else None)"
| "callback_step G AppClear X =
     (if cb_app X = A_Finished
      then Some (X\<lparr>cb_app := A_Cleared, cb_box := (cb_box X)\<lparr>zq_self := False\<rparr>\<rparr>) else None)"
| "callback_step G AppFree X = (if cb_app X = A_Cleared then Some (free_queryable X) else None)"

section \<open>The context of the callback\<close>

definition context_inv :: "('ch, 'c, 'd) callback_sys \<Rightarrow> bool" where
  "context_inv X \<longleftrightarrow>
     (cb_freed X \<longleftrightarrow> cb_app X = A_Freed)
     \<and> (zq_self (cb_box X) \<longleftrightarrow> cb_app X \<in> {A_Ready, A_Finished})
     \<and> cb_on_drop X = (if cb_pc X = D_Ended \<and> cb_freed X then 1 else 0)"

lemma box_keeps_self:
  "recv_query_into_map G q Z = Some Z' \<Longrightarrow> zq_self Z' = zq_self Z"
  "finish_removed G i Z = Some (Some (r, Z')) \<Longrightarrow> zq_self Z' = zq_self Z"
  "zgrpc_queryable_finish G (Some Z) i = Some (rc, Some Z') \<Longrightarrow> zq_self Z' = zq_self Z"
  "finish_all_active_queries G Z = Some Z' \<Longrightarrow> zq_self Z' = zq_self Z"
  by (auto simp: recv_query_into_map_def finish_removed_def remove_query_def zgrpc_queryable_finish_def
      finish_all_active_queries_def Let_def split: option.splits)

lemma context_inv_step:
  assumes "callback_step G i X = Some X'" and "context_inv X"
  shows "context_inv X'"
proof (cases i)
  case CbEnd
  with assms show ?thesis by (auto simp: context_inv_def end_dispatcher_def split: if_splits)
next
  case AppFree
  with assms show ?thesis by (auto simp: context_inv_def free_queryable_def split: if_splits)
qed (use assms in \<open>auto simp: context_inv_def split: if_splits dispatcher_pc.splits option.splits
    dest!: box_keeps_self\<close>)

text \<open>The pointer is in use only while it is still stored, if it is cleared between callbacks only.\<close>

definition idle :: "dispatcher_pc \<Rightarrow> bool" where
  "idle pc \<longleftrightarrow> pc = D_Recv \<or> pc = D_Ended"

fun clears_idle :: "callback_input \<Rightarrow> ('ch, 'c, 'd) callback_sys \<Rightarrow> bool" where
  "clears_idle AppClear X = idle (cb_pc X)"
| "clears_idle _ X = True"

fun run_clears_idle ::
  "('d, QueryableCommand) flume \<Rightarrow> callback_input list \<Rightarrow> ('ch, 'c, 'd) callback_sys \<Rightarrow> bool" where
  "run_clears_idle G [] X = True"
| "run_clears_idle G (i # is) X =
     (clears_idle i X \<and> run_clears_idle G is (case callback_step G i X of None \<Rightarrow> X | Some X' \<Rightarrow> X'))"

definition pointer_inv :: "('ch, 'c, 'd) callback_sys \<Rightarrow> bool" where
  "pointer_inv X \<longleftrightarrow> context_inv X \<and> cb_pc X \<noteq> D_Fault \<and> (idle (cb_pc X) \<or> cb_app X \<in> {A_Ready, A_Finished})"

lemma pointer_inv_step:
  assumes "callback_step G i X = Some X'" and "pointer_inv X" and "clears_idle i X"
  shows "pointer_inv X'"
proof -
  have "context_inv X'" using context_inv_step [OF assms(1)] assms(2) by (simp add: pointer_inv_def)
  with assms show ?thesis
    by (cases i) (auto simp: pointer_inv_def context_inv_def idle_def end_dispatcher_def free_queryable_def
        split: if_splits dispatcher_pc.splits option.splits)
qed

lemma pointer_inv_run:
  "pointer_inv X \<Longrightarrow> run_clears_idle G is X \<Longrightarrow> pointer_inv (run_steps (callback_step G) is X)"
  by (induction "is" arbitrary: X) (auto simp: step_or_stay_def split: option.splits intro: pointer_inv_step)


section \<open>The race\<close>

text \<open>
  C36: undeclaring a queryable can free it under a running callback. Take any queryable and any query
  that arrives: when the C program undeclares it after the dispatcher has loaded the pointer and before
  it has stored the query, or while the C function runs (or from the C function itself), the closure
  then uses the freed queryable. Nothing in \<^verbatim>\<open>undeclare\<close> waits for the callback.
\<close>

theorem undeclare_frees_under_callback:
  assumes "finish_all_active_queries G \<lparr>zq_inner = S, zq_self = True, zq_active = []\<rparr> = Some Z"
    and "finish_all_active_queries G \<lparr>zq_inner = S, zq_self = True, zq_active = [(qry_query_id (gq_inner q), q)]\<rparr> = Some Z'"
  shows "cb_pc (run_steps (callback_step G)
      [AppStore, CbTake q, AppFinishAll, AppClear, AppFree, CbInsert] (callback_declared S)) = D_Fault
    \<and> cb_pc (run_steps (callback_step G)
      [AppStore, CbTake q, CbInsert, AppFinishAll, AppClear, AppFree, CbReturn] (callback_declared S)) = D_Fault"
  using assms
  by (simp add: step_or_stay_def callback_declared_def free_queryable_def recv_query_into_map_def Let_def
      hm_insert_def hm_remove_def)

text \<open>
  A query that comes too early is answered by nobody. A query that reaches the closure before
  \<^verbatim>\<open>zgrpc_declare_queryable_with_callback\<close> has stored the pointer is finished without a reply, and the C
  function is not called.
\<close>

theorem early_query_is_dropped:
  assumes "\<not> gq_finished q" and "enqueue_command G (QcFinish (GrpcQuery_identity q)) S = Some (r, S')"
  shows "cb_pc (run_steps (callback_step G) [CbTake q] (callback_declared S)) = D_Recv
    \<and> zq_inner (cb_box (run_steps (callback_step G) [CbTake q] (callback_declared S))) = S'"
  using assms
  by (simp add: step_or_stay_def callback_declared_def GrpcQuery_drop_def mark_finished_def GrpcQuery_identity_def)

section \<open>Witnesses\<close>

lemma demo_finishes:
  "\<exists>r S. enqueue_command fifo_flume (QcFinish (GrpcQuery_identity demo_grpc_query)) demo_queryable = Some (r, S)"
  "\<exists>Z. finish_all_active_queries fifo_flume \<lparr>zq_inner = demo_queryable, zq_self = True, zq_active = []\<rparr> = Some Z"
  "\<exists>Z. finish_all_active_queries fifo_flume
     \<lparr>zq_inner = demo_queryable, zq_self = True, zq_active = [(qry_query_id (gq_inner demo_grpc_query), demo_grpc_query)]\<rparr> = Some Z"
  by (simp_all add: finish_all_active_queries_def demo_queryable_simps answer_defs enqueue_command_def submit_def
      demo_grpc_query_def GrpcQuery_identity_def)


theorem undeclare_frees_under_callback_witness:
  "cb_pc (run_steps (callback_step fifo_flume)
     [AppStore, CbTake demo_grpc_query, AppFinishAll, AppClear, AppFree, CbInsert]
     (callback_declared demo_queryable)) = D_Fault"
  using demo_finishes(2,3) undeclare_frees_under_callback [of fifo_flume demo_queryable _ demo_grpc_query] by blast

theorem early_query_is_dropped_witness:
  "cb_pc (run_steps (callback_step fifo_flume) [CbTake demo_grpc_query] (callback_declared demo_queryable)) = D_Recv"
proof -
  have unfinished: "\<not> gq_finished demo_grpc_query" by (simp add: demo_grpc_query_def)
  from demo_finishes(1) early_query_is_dropped [OF unfinished, of fifo_flume demo_queryable] show ?thesis by blast
qed

end
