(* ===== verification/Plugin_Run.thy ===== *)
theory Plugin_Run
  imports Server_Runs Client_Worker
begin

text \<open>
  Start-up and shutdown of the plugin (\<^verbatim>\<open>GrpcPlugin::start\<close>, \<^verbatim>\<open>run\<close> and the \<^verbatim>\<open>Drop\<close> of
  \<^verbatim>\<open>RunningPlugin\<close> in \<^verbatim>\<open>zenoh-plugin-grpc/src/lib.rs\<close>).

  The body of \<^verbatim>\<open>run\<close>, the cleanup task and the task of each listener are program counters that
  interleave freely; an input says which of them moves and what it is answered. \<^verbatim>\<open>Notify\<close> is the number
  of \<^verbatim>\<open>notify_waiters\<close> calls: a \<^verbatim>\<open>notified()\<close> future remembers the number at its creation and is ready
  once it has grown, so a notification that comes before its creation does not count. Times are in
  milliseconds. The outcome of opening the Zenoh session and of binding a socket is part of the input.
\<close>

section \<open>State\<close>

text \<open>
  The task of \<^verbatim>\<open>run\<close>: before the session is open, with all tasks spawned, waiting for the stop
  notification, in the grace period up to a deadline, finished; returned early because of the
  listener configuration; panicked.
\<close>

datatype main_pc = M_Init | M_Spawned | M_Waiting nat | M_Grace instant | M_Done | M_Returned | M_Panicked

text \<open>
  A spawned task: not polled yet; the cleanup task in its \<^verbatim>\<open>select!\<close> or in the tick branch; a listener
  that serves or that waits for its connections to end; ended, panicked or aborted.
\<close>

datatype task_pc =
    T_Start | T_Select nat | T_Cleaning | T_Serving nat | T_Draining | T_Ended | T_Panicked | T_Aborted

record 'w run_sys =
  rs_epoch :: nat
  rs_now :: instant
  rs_main :: main_pc
  rs_cleanup :: task_pc
  rs_next_tick :: instant
  rs_listeners :: "(ListenEndpoint \<times> task_pc) list"
  rs_state :: "'w PluginState option"

definition run_start :: "'w run_sys" where
  "run_start = \<lparr>rs_epoch = 0, rs_now = 0, rs_main = M_Init, rs_cleanup = T_Ended, rs_next_tick = 0,
     rs_listeners = [], rs_state = None\<rparr>"

text \<open>
  \<open>plugin_conf\<close> is the answer of \<^verbatim>\<open>get_plugin_config\<close>, \<open>from_value\<close> the deserialiser of the configuration.
  The result holds the configuration with which \<^verbatim>\<open>run\<close> is spawned.
\<close>

definition GrpcPlugin_start ::
  "('v \<Rightarrow> string + Config) \<Rightarrow> string \<Rightarrow> 'v option \<Rightarrow> string + Config \<times> 'w run_sys" where
  "GrpcPlugin_start from_value name plugin_conf =
     (case plugin_conf of
        None \<Rightarrow> Inl (''Plugin `'' @ name @ ''`: missing config'')
      | Some v \<Rightarrow>
          (case from_value v of
             Inl e \<Rightarrow> Inl (''Plugin `'' @ name @ ''` configuration error: '' @ e)
           | Inr cfg \<Rightarrow> Inr (cfg, run_start)))"

text \<open>\<^verbatim>\<open>cfg.max_recv_message_size as u32\<close>, the argument of \<^verbatim>\<open>max_frame_size\<close>.\<close>

definition server_max_frame_size :: "Config \<Rightarrow> u32" where
  "server_max_frame_size c = ucast (max_recv_message_size c)"

fun task_live :: "task_pc \<Rightarrow> bool" where
  "task_live T_Ended = False"
| "task_live T_Panicked = False"
| "task_live T_Aborted = False"
| "task_live _ = True"

definition abort_task :: "task_pc \<Rightarrow> task_pc" where
  "abort_task t = (if task_live t then T_Aborted else t)"

section \<open>Steps\<close>

text \<open>
  \<open>RiSession ok\<close>: the session opens or fails. \<open>RiMain\<close>, \<open>RiCleanup\<close> and \<open>RiListener\<close> let a task move;
  in the \<^verbatim>\<open>select!\<close> of the cleanup task the flag chooses the branch, for a listener it is the outcome of
  \<^verbatim>\<open>bind\<close> or says that all connections have ended. \<open>RiStop\<close> drops the \<^verbatim>\<open>RunningPlugin\<close>. \<open>RiServe\<close> is an
  event that a handler or a task of the plugin processes.
\<close>

datatype run_input =
    RiSession bool | RiMain | RiStop | RiTime duration | RiCleanup bool | RiListener nat bool
  | RiServe server_event

definition run_session :: "'w \<Rightarrow> Config \<Rightarrow> bool \<Rightarrow> 'w run_sys \<Rightarrow> 'w run_sys" where
  "run_session w c opened S =
     (if \<not> opened then S\<lparr>rs_main := M_Panicked\<rparr>
      else
        let S' = S\<lparr>rs_state := Some (PluginState_new w c)\<rparr> in
        case listeners c of
          Inl _ \<Rightarrow> S'\<lparr>rs_main := M_Returned\<rparr>
        | Inr ls \<Rightarrow>
            S'\<lparr>rs_main := M_Spawned, rs_cleanup := T_Start, rs_listeners := map (\<lambda>l. (l, T_Start)) ls\<rparr>)"

definition abort_all :: "'w run_sys \<Rightarrow> 'w run_sys" where
  "abort_all S =
     S\<lparr>rs_cleanup := abort_task (rs_cleanup S),
       rs_listeners := map (\<lambda>(l, t). (l, abort_task t)) (rs_listeners S)\<rparr>"

definition main_step :: "Config \<Rightarrow> 'w run_sys \<Rightarrow> 'w run_sys option" where
  "main_step c S =
     (case rs_main S of
        M_Spawned \<Rightarrow> Some (S\<lparr>rs_main := M_Waiting (rs_epoch S)\<rparr>)
      | M_Waiting e \<Rightarrow>
          if e < rs_epoch S
          then Some (S\<lparr>rs_main := M_Grace (rs_now S + shutdown_grace_period c)\<rparr>) else None
      | M_Grace deadline \<Rightarrow>
          if deadline \<le> rs_now S then Some ((abort_all S)\<lparr>rs_main := M_Done\<rparr>) else None
      | _ \<Rightarrow> None)"

text \<open>\<^verbatim>\<open>tokio::time::interval\<close> panics on a period of zero; its first tick is immediate.\<close>

definition cleanup_step :: "'w env \<Rightarrow> Config \<Rightarrow> bool \<Rightarrow> 'w run_sys \<Rightarrow> 'w run_sys option" where
  "cleanup_step E c stop_branch S =
     (case rs_cleanup S of
        T_Start \<Rightarrow>
          Some (if client_cleanup_interval c = 0 then S\<lparr>rs_cleanup := T_Panicked\<rparr>
                else S\<lparr>rs_cleanup := T_Select (rs_epoch S), rs_next_tick := rs_now S\<rparr>)
      | T_Select e \<Rightarrow>
          if stop_branch
          then (if e < rs_epoch S then Some (S\<lparr>rs_cleanup := T_Ended\<rparr>) else None)
          else if rs_next_tick S \<le> rs_now S
          then Some (S\<lparr>rs_cleanup := T_Cleaning,
                       rs_next_tick := rs_next_tick S + client_cleanup_interval c\<rparr>)
          else None
      | T_Cleaning \<Rightarrow>
          Some (S\<lparr>rs_cleanup := T_Select (rs_epoch S),
                  rs_state := map_option (cleanup_tick E (rs_now S)) (rs_state S)\<rparr>)
      | _ \<Rightarrow> None)"

definition listener_step :: "nat \<Rightarrow> bool \<Rightarrow> task_pc \<Rightarrow> task_pc option" where
  "listener_step epoch flag t =
     (case t of
        T_Start \<Rightarrow> Some (if flag then T_Serving epoch else T_Panicked)
      | T_Serving e \<Rightarrow> if e < epoch then Some T_Draining else None
      | T_Draining \<Rightarrow> if flag then Some T_Ended else None
      | _ \<Rightarrow> None)"

fun serves :: "task_pc \<Rightarrow> bool" where
  "serves (T_Serving e) = True"
| "serves T_Draining = True"
| "serves _ = False"

text \<open>
  Requests come in through a listener; samples and queries arrive at tasks of their own. The ticks of
  the cleanup task are its own steps.
\<close>

fun can_serve :: "server_event \<Rightarrow> 'w run_sys \<Rightarrow> bool" where
  "can_serve (Rpc now r) S = list_ex (\<lambda>(_, t). serves t) (rs_listeners S)"
| "can_serve (Tick now) S = False"
| "can_serve _ S = True"

fun run_step :: "'w env \<Rightarrow> 'w \<Rightarrow> Config \<Rightarrow> run_input \<Rightarrow> 'w run_sys \<Rightarrow> 'w run_sys option" where
  "run_step E w c (RiSession opened) S =
     (if rs_main S = M_Init then Some (run_session w c opened S) else None)"
| "run_step E w c RiMain S = main_step c S"
| "run_step E w c RiStop S = Some (S\<lparr>rs_epoch := Suc (rs_epoch S)\<rparr>)"
| "run_step E w c (RiTime d) S = Some (S\<lparr>rs_now := rs_now S + d\<rparr>)"
| "run_step E w c (RiCleanup b) S = cleanup_step E c b S"
| "run_step E w c (RiListener i b) S =
     (if i < length (rs_listeners S)
      then map_option (\<lambda>t. S\<lparr>rs_listeners := (rs_listeners S)[i := (fst (rs_listeners S ! i), t)]\<rparr>)
             (listener_step (rs_epoch S) b (snd (rs_listeners S ! i)))
      else None)"
| "run_step E w c (RiServe ev) S =
     (if can_serve ev S then map_option (\<lambda>s. S\<lparr>rs_state := Some (server_step E ev s)\<rparr>) (rs_state S)
      else None)"

definition tasks :: "'w run_sys \<Rightarrow> task_pc set" where
  "tasks S = insert (rs_cleanup S) (snd ` set (rs_listeners S))"

section \<open>Stopping\<close>

text \<open>Where \<^verbatim>\<open>run\<close> can be once it has seen, or can see, the stop notification.\<close>

definition stopping :: "Config \<Rightarrow> 'w run_sys \<Rightarrow> bool" where
  "stopping c S \<longleftrightarrow>
     (case rs_main S of
        M_Waiting e \<Rightarrow> e < rs_epoch S
      | M_Grace deadline \<Rightarrow> deadline \<le> rs_now S + shutdown_grace_period c
      | M_Done \<Rightarrow> (\<forall>t\<in>tasks S. \<not> task_live t)
      | _ \<Rightarrow> False)"

lemma task_live_abort [simp]: "\<not> task_live (abort_task t)"
  by (simp add: abort_task_def)

lemma tasks_abort_all: "t \<in> tasks ((abort_all S)\<lparr>rs_main := M_Done\<rparr>) \<Longrightarrow> \<not> task_live t"
  by (auto simp: tasks_def abort_all_def)

lemma listener_step_live: "listener_step n b t = Some t' \<Longrightarrow> task_live t"
  by (cases t) (auto simp: listener_step_def)

lemma cleanup_step_fields:
  assumes "cleanup_step E c b S = Some S'"
  shows "task_live (rs_cleanup S)" "rs_main S' = rs_main S" "rs_epoch S' = rs_epoch S"
    "rs_now S' = rs_now S" "rs_listeners S' = rs_listeners S"
  using assms by (auto simp: cleanup_step_def split: task_pc.splits if_splits)

lemma stopping_step:
  assumes "run_step E w c i S = Some S'" and "stopping c S"
  shows "stopping c S'"
proof (cases i)
  case (RiListener j b)
  with assms obtain t where j: "j < length (rs_listeners S)" "listener_step (rs_epoch S) b (snd (rs_listeners S ! j)) = Some t"
    and S': "S' = S\<lparr>rs_listeners := (rs_listeners S)[j := (fst (rs_listeners S ! j), t)]\<rparr>"
    by (auto split: if_splits)
  then have "\<exists>u\<in>tasks S. task_live u"
    using listener_step_live [OF j(2)] by (auto simp: tasks_def)
  with assms(2) S' show ?thesis by (auto simp: stopping_def split: main_pc.splits)
next
  case (RiCleanup b)
  with assms(1) have "cleanup_step E c b S = Some S'" by simp
  from cleanup_step_fields [OF this] assms(2) show ?thesis
    by (auto simp: stopping_def tasks_def split: main_pc.splits)
next
  case RiMain
  with assms show ?thesis
    by (auto simp: stopping_def main_step_def tasks_abort_all split: main_pc.splits if_splits)
next
  case (RiServe ev)
  with assms show ?thesis by (auto simp: stopping_def tasks_def split: main_pc.splits if_splits)
qed (use assms in \<open>auto simp: stopping_def tasks_def split: main_pc.splits if_splits\<close>)

lemma stopping_run: "stopping c S \<Longrightarrow> stopping c (run_steps (run_step E w c) is S)"
  by (rule run_steps_invariant [where I = "stopping c"]) (auto intro: stopping_step)

text \<open>Once the grace period can be over, \<^verbatim>\<open>run\<close> does not go back to waiting.\<close>

definition in_grace :: "Config \<Rightarrow> 'w run_sys \<Rightarrow> bool" where
  "in_grace c S \<longleftrightarrow> stopping c S \<and> (\<forall>e. rs_main S \<noteq> M_Waiting e)"

definition grace_over :: "Config \<Rightarrow> 'w run_sys \<Rightarrow> bool" where
  "grace_over c S \<longleftrightarrow> in_grace c S \<and> (\<forall>d. rs_main S = M_Grace d \<longrightarrow> d \<le> rs_now S)"

lemma grace_step:
  assumes "run_step E w c i S = Some S'"
  shows "in_grace c S \<Longrightarrow> in_grace c S'" "grace_over c S \<Longrightarrow> grace_over c S'"
proof -
  have "in_grace c S' \<and> (grace_over c S \<longrightarrow> grace_over c S')" if "in_grace c S"
  proof -
    have "stopping c S'" using that by (intro stopping_step [OF assms]) (simp add: in_grace_def)
    moreover have "(rs_main S' = rs_main S \<and> rs_now S \<le> rs_now S') \<or> rs_main S' = M_Done"
      using assms that cleanup_step_fields(2,4) [of E c _ S S']
      by (cases i) (auto simp: in_grace_def stopping_def main_step_def split: main_pc.splits if_splits)
    ultimately show ?thesis
      using that unfolding in_grace_def grace_over_def by (elim disjE conjE) (simp_all, metis le_trans)
  qed
  then show "in_grace c S \<Longrightarrow> in_grace c S'" "grace_over c S \<Longrightarrow> grace_over c S'"
    by (auto simp: grace_over_def)
qed

lemma grace_run:
  "in_grace c S \<Longrightarrow> in_grace c (run_steps (run_step E w c) is S)"
  "grace_over c S \<Longrightarrow> grace_over c (run_steps (run_step E w c) is S)"
  using run_steps_invariant [where step = "run_step E w c" and I = "in_grace c" and s = S]
    run_steps_invariant [where step = "run_step E w c" and I = "grace_over c" and s = S]
    grace_step [of E w c] by blast+

text \<open>The three steps that end the plugin.\<close>

lemma main_notices: "stopping c S \<Longrightarrow> in_grace c (step_or_stay (run_step E w c) RiMain S)"
  by (auto simp: stopping_def in_grace_def step_or_stay_def main_step_def tasks_abort_all
      split: main_pc.splits option.splits if_splits)

lemma grace_passes:
  assumes "in_grace c S" and "shutdown_grace_period c \<le> t"
  shows "grace_over c (step_or_stay (run_step E w c) (RiTime t) S)"
  using assms by (auto simp: stopping_def grace_over_def in_grace_def step_or_stay_def tasks_def split: main_pc.splits)

lemma main_aborts:
  assumes "grace_over c S" and "S' = step_or_stay (run_step E w c) RiMain S"
  shows "rs_main S' = M_Done \<and> (\<forall>t\<in>tasks S'. \<not> task_live t)"
  using assms by (auto simp: stopping_def grace_over_def in_grace_def step_or_stay_def main_step_def tasks_abort_all
      split: main_pc.splits option.splits if_splits)

lemma done_run:
  assumes "stopping c S \<and> rs_main S = M_Done" and "S' = run_steps (run_step E w c) is S"
  shows "rs_main S' = M_Done \<and> (\<forall>t\<in>tasks S'. \<not> task_live t)"
proof -
  have "rs_main S2 = M_Done" if "run_step E w c i S1 = Some S2" "rs_main S1 = M_Done" for i S1 S2
    using that cleanup_step_fields(2) [of E c _ S1 S2]
    by (cases i) (auto simp: main_step_def split: if_splits)
  then have "rs_main S' = M_Done"
    using run_steps_invariant [of "run_step E w c" "\<lambda>T. rs_main T = M_Done" S "is"] assms by blast
  with stopping_run [of c S E w "is"] assms show ?thesis by (auto simp: stopping_def)
qed


text \<open>
  Nobody waits for a notification that has already come: \<^verbatim>\<open>run\<close> and its tasks have not seen one, and
  those that wait wait for the next one.
\<close>

definition unnotified :: "'w run_sys \<Rightarrow> bool" where
  "unnotified S \<longleftrightarrow>
     (case rs_main S of
        M_Init \<Rightarrow> rs_cleanup S = T_Ended \<and> rs_listeners S = []
      | M_Spawned \<Rightarrow> task_live (rs_cleanup S) \<or> rs_cleanup S = T_Panicked
      | M_Waiting e \<Rightarrow> e = rs_epoch S \<and> (task_live (rs_cleanup S) \<or> rs_cleanup S = T_Panicked)
      | M_Grace _ \<Rightarrow> False
      | M_Done \<Rightarrow> False
      | M_Returned \<Rightarrow> rs_cleanup S = T_Ended \<and> rs_listeners S = []
      | M_Panicked \<Rightarrow> rs_cleanup S = T_Ended \<and> rs_listeners S = [])
     \<and> (\<forall>e. rs_cleanup S = T_Select e \<longrightarrow> e = rs_epoch S)
     \<and> snd ` set (rs_listeners S) \<subseteq> {T_Start, T_Panicked, T_Serving (rs_epoch S)}"

lemma unnotified_cong:
  assumes "rs_main S' = rs_main S" "rs_cleanup S' = rs_cleanup S" "rs_epoch S' = rs_epoch S"
    "rs_listeners S' = rs_listeners S"
  shows "unnotified S' = unnotified S"
  unfolding unnotified_def assms ..

lemma unnotified_step:
  assumes "run_step E w c i S = Some S'" and "unnotified S" and "i \<noteq> RiStop"
  shows "unnotified S'"
proof (cases i)
  case (RiSession opened)
  with assms show ?thesis
    by (auto simp: unnotified_def run_session_def Let_def split: if_splits sum.splits)
next
  case (RiListener j b)
  with assms obtain t where j: "j < length (rs_listeners S)"
    and t: "listener_step (rs_epoch S) b (snd (rs_listeners S ! j)) = Some t"
    and S': "S' = S\<lparr>rs_listeners := (rs_listeners S)[j := (fst (rs_listeners S ! j), t)]\<rparr>"
    by (auto split: if_splits)
  from nth_mem [OF j] have "snd (rs_listeners S ! j) \<in> snd ` set (rs_listeners S)" by simp
  with assms(2) have "snd (rs_listeners S ! j) \<in> {T_Start, T_Panicked, T_Serving (rs_epoch S)}"
    unfolding unnotified_def by blast
  with t have "t = T_Panicked \<or> t = T_Serving (rs_epoch S)"
    by (auto simp: listener_step_def split: if_splits)
  moreover have "snd ` set (rs_listeners S') \<subseteq> insert t (snd ` set (rs_listeners S))"
    using set_update_subset_insert [of "rs_listeners S" j "(fst (rs_listeners S ! j), t)"]
    unfolding S' by (auto dest: image_mono)
  ultimately have "snd ` set (rs_listeners S') \<subseteq> {T_Start, T_Panicked, T_Serving (rs_epoch S)}"
    using assms(2) unfolding unnotified_def by blast
  moreover have "rs_main S' = rs_main S" "rs_cleanup S' = rs_cleanup S" "rs_epoch S' = rs_epoch S"
    "rs_listeners S \<noteq> []" using S' j by auto
  ultimately show ?thesis using assms(2) unfolding unnotified_def by (auto split: main_pc.splits)
next
  case (RiCleanup b)
  with assms(1) have c: "cleanup_step E c b S = Some S'" by simp
  note same = cleanup_step_fields [OF c]
  have "(task_live (rs_cleanup S') \<or> rs_cleanup S' = T_Panicked) \<and> (\<forall>e. rs_cleanup S' = T_Select e \<longrightarrow> e = rs_epoch S)"
    using c assms(2) by (simp add: cleanup_step_def unnotified_def split: task_pc.splits if_splits) force+
  moreover have "rs_cleanup S \<noteq> T_Ended" using same(1) by auto
  ultimately show ?thesis using assms(2) same(2-) unfolding unnotified_def by (simp split: main_pc.splits)
next
  case RiMain
  with assms show ?thesis
    by (clarsimp simp: unnotified_def main_step_def split: main_pc.splits if_splits)
next
  case (RiTime d)
  with assms(1) have "S' = S\<lparr>rs_now := rs_now S + d\<rparr>" by simp
  then have "unnotified S' = unnotified S" by (intro unnotified_cong) simp_all
  with assms(2) show ?thesis by simp
next
  case (RiServe ev)
  with assms(1) obtain s where "S' = S\<lparr>rs_state := Some s\<rparr>" by (auto split: if_splits)
  then have "unnotified S' = unnotified S" by (intro unnotified_cong) simp_all
  with assms(2) show ?thesis by simp
qed (use assms(3) in simp)

lemma unnotified_run:
  "RiStop \<notin> set is \<Longrightarrow> unnotified S \<Longrightarrow> unnotified (run_steps (run_step E w c) is S)"
  by (induction "is" arbitrary: S) (auto simp: step_or_stay_def split: option.split intro: unnotified_step)

text \<open>
  A stop that comes too early is lost. If the \<^verbatim>\<open>RunningPlugin\<close> is dropped while \<^verbatim>\<open>run\<close> has not opened
  its session yet, nothing ever stops the plugin: in every continuation \<^verbatim>\<open>run\<close> does not enter its
  shutdown, no listener shuts down, and a cleanup task that was started is not ended. (\<^verbatim>\<open>drop\<close> runs once,
  so no second notification comes.)
\<close>

theorem early_stop_is_lost:
  assumes "rs_main S = M_Init" and "S = run_steps (run_step E w c) is0 run_start" and "RiStop \<notin> set is0"
    and "RiStop \<notin> set is" and "S' = run_steps (run_step E w c) ([RiStop] @ is) S"
  shows "rs_main S' \<noteq> M_Done \<and> (\<nexists>d. rs_main S' = M_Grace d)
    \<and> snd ` set (rs_listeners S') \<subseteq> {T_Start, T_Panicked, T_Serving (rs_epoch S')}
    \<and> (\<forall>e. rs_main S' = M_Waiting e \<longrightarrow> e = rs_epoch S' \<and> (task_live (rs_cleanup S') \<or> rs_cleanup S' = T_Panicked))"
proof -
  have "unnotified (run_start :: 'a run_sys)" by (simp add: unnotified_def run_start_def)
  from unnotified_run [OF assms(3) this] have "unnotified S" by (simp add: assms(2))
  with assms(1) have "unnotified (step_or_stay (run_step E w c) RiStop S)"
    by (simp add: unnotified_def step_or_stay_def)
  from unnotified_run [OF assms(4) this] have "unnotified S'" by (simp add: assms(5))
  then show ?thesis by (auto simp: unnotified_def split: main_pc.splits)
qed

section \<open>The state of the plugin\<close>

text \<open>The events that a run feeds to the plugin's state.\<close>

fun run_events :: "run_input \<Rightarrow> 'w run_sys \<Rightarrow> server_event list" where
  "run_events (RiCleanup b) S = (if rs_cleanup S = T_Cleaning then [Tick (rs_now S)] else [])"
| "run_events (RiServe ev) S = [ev]"
| "run_events _ S = []"

lemma server_run_snoc: "server_run E (evs @ [ev]) s = server_step E ev (server_run E evs s)"
  by (induction evs arbitrary: s) simp_all

definition follows_server :: "'w env \<Rightarrow> 'w \<Rightarrow> Config \<Rightarrow> server_event list \<Rightarrow> 'w run_sys \<Rightarrow> bool" where
  "follows_server E w c evs S \<longleftrightarrow>
     (case rs_state S of None \<Rightarrow> evs = [] | Some s \<Rightarrow> s = server_run E evs (PluginState_new w c))
     \<and> (rs_main S = M_Init \<longrightarrow> rs_state S = None)
     \<and> (client_cleanup_interval c = 0 \<longrightarrow>
          rs_cleanup S \<in> {T_Start, T_Ended, T_Panicked, T_Aborted} \<and> (\<forall>t. Tick t \<notin> set evs))"

lemma follows_server_step:
  assumes "run_step E w c i S = Some S'" and "follows_server E w c evs S"
  shows "follows_server E w c (evs @ (if rs_state S = None then [] else run_events i S)) S'"
proof (cases i)
  case (RiSession opened)
  with assms show ?thesis
    by (auto simp: follows_server_def run_session_def Let_def split: if_splits sum.splits option.splits)
next
  case (RiCleanup b)
  with assms show ?thesis
    by (auto simp: follows_server_def cleanup_step_def server_run_snoc
        split: task_pc.splits if_splits option.splits)
next
  case RiMain
  with assms show ?thesis
    by (auto simp: follows_server_def main_step_def abort_all_def abort_task_def split: main_pc.splits if_splits)
next
  case (RiServe ev)
  with assms show ?thesis
    by (cases ev) (auto simp: follows_server_def server_run_snoc split: if_splits option.splits)
qed (use assms in \<open>auto simp: follows_server_def split: if_splits\<close>)

lemma follows_server_run:
  assumes "follows_server E w c evs S"
  shows "\<exists>evs'. follows_server E w c evs' (run_steps (run_step E w c) is S)
    \<and> length evs' \<le> length evs + length is"
  using assms
proof (induction "is" arbitrary: evs S)
  case (Cons i "is")
  have "\<exists>evs1. follows_server E w c evs1 (step_or_stay (run_step E w c) i S) \<and> length evs1 \<le> Suc (length evs)"
  proof (cases "run_step E w c i S")
    case (Some S')
    moreover have "length (run_events i S) \<le> 1" by (cases i) auto
    ultimately show ?thesis
      using follows_server_step [OF Some Cons.prems] by (fastforce simp: step_or_stay_def)
  qed (use Cons.prems in \<open>auto simp: step_or_stay_def\<close>)
  then obtain evs1 where "follows_server E w c evs1 (step_or_stay (run_step E w c) i S)"
    and "length evs1 \<le> Suc (length evs)" by blast
  with Cons.IH [OF this(1)] show ?case by fastforce
qed auto


section \<open>Witnesses\<close>

definition serving :: "run_input list" where
  "serving = [RiSession True, RiMain, RiCleanup False, RiListener 0 True, RiListener 1 True]"

lemma serving_state:
  "rs_main (run_steps (run_step log_env [] Config_default) serving run_start) = M_Waiting 0"
  "rs_epoch (run_steps (run_step log_env [] Config_default) serving run_start) = 0"
  by (simp_all add: serving_def step_or_stay_def run_start_def run_session_def Let_def main_step_def
      cleanup_step_def listener_step_def listeners_def Config_default_def DEFAULT_CLIENT_CLEANUP_INTERVAL_MS_def)


theorem early_stop_is_lost_witness:
  "rs_main (run_start :: z_call list run_sys) = M_Init \<and> RiStop \<notin> set serving
   \<and> snd ` set (rs_listeners (run_steps (run_step log_env [] Config_default) ([RiStop] @ serving) run_start))
       = {T_Serving 1}
   \<and> rs_main (run_steps (run_step log_env [] Config_default) ([RiStop] @ serving) run_start) \<noteq> M_Done"
proof -
  have init: "rs_main (run_start :: z_call list run_sys) = M_Init" by (simp add: run_start_def)
  have "RiStop \<notin> set serving" by (simp add: serving_def)
  moreover have "snd ` set (rs_listeners (run_steps (run_step log_env [] Config_default) ([RiStop] @ serving) run_start))
       = {T_Serving 1}"
    by (simp add: serving_def step_or_stay_def run_start_def run_session_def Let_def main_step_def
        cleanup_step_def listener_step_def listeners_def Config_default_def DEFAULT_CLIENT_CLEANUP_INTERVAL_MS_def)
  ultimately show ?thesis
    using init early_stop_is_lost [OF init, of log_env "[]" Config_default "[]" serving] by auto
qed


end
