(* ===== verification/Bridge.thy ===== *)
theory Bridge
  imports Plugin_Run "HOL-Library.Monad_Syntax"
begin

text \<open>
  The stand-alone bridge (\<^verbatim>\<open>zenoh-bridge-grpc/src/main.rs\<close>): how its command line becomes a Zenoh
  configuration, and how the plugin reads its own part of it back.

  The configuration type of Zenoh is a parameter, the record \<open>zenoh_config\<close> of the operations that the
  bridge and the plugin call; an operation that fails is \<open>None\<close>, on which the bridge panics. What is
  relied on is \<open>zenoh_config_ok\<close>: \<^verbatim>\<open>insert_json5\<close> stores the value of the literal at its path, and the
  other setters leave the section of the plugin alone. The derived deserialiser of the plugin's
  \<^verbatim>\<open>Config\<close> is written out from its serde attributes.
\<close>

section \<open>The configuration of the plugin as JSON\<close>

datatype json =
    J_Null | J_Bool bool | J_Num int | J_Str string | J_Arr "json list" | J_Obj "(string \<times> json) list"

fun json_string :: "json \<Rightarrow> string option" where
  "json_string (J_Str s) = Some s"
| "json_string _ = None"

fun json_bool :: "json \<Rightarrow> bool option" where
  "json_bool (J_Bool b) = Some b"
| "json_bool _ = None"

fun json_u16 :: "json \<Rightarrow> u16 option" where
  "json_u16 (J_Num n) = (if 0 \<le> n \<and> n < 2 ^ 16 then Some (of_int n) else None)"
| "json_u16 _ = None"

fun json_u64 :: "json \<Rightarrow> u64 option" where
  "json_u64 (J_Num n) = (if 0 \<le> n \<and> n < 2 ^ 64 then Some (of_int n) else None)"
| "json_u64 _ = None"

fun json_option :: "(json \<Rightarrow> 'a option) \<Rightarrow> json \<Rightarrow> 'a option option" where
  "json_option de J_Null = Some None"
| "json_option de v = map_option Some (de v)"

definition ok_of :: "string + 'a \<Rightarrow> 'a option" where
  "ok_of r = (case r of Inl _ \<Rightarrow> None | Inr x \<Rightarrow> Some x)"

definition json_duration :: "json \<Rightarrow> duration option" where
  "json_duration v =
     ok_of (deserialize_duration_ms (case json_u64 v of None \<Rightarrow> Inl [] | Some ms \<Rightarrow> Inr ms))"

fun json_path_value :: "json \<Rightarrow> path_value" where
  "json_path_value (J_Str s) = Path_Str s"
| "json_path_value (J_Arr vs) =
     Path_Seq (map (\<lambda>v. case json_string v of None \<Rightarrow> Inl [] | Some s \<Rightarrow> Inr s) vs)"
| "json_path_value _ = Path_Other"

definition json_path :: "json \<Rightarrow> string list option option" where
  "json_path v = ok_of (deserialize_path (if v = J_Null then Path_None else Path_Some (json_path_value v)))"

text \<open>A field with a default; \<^verbatim>\<open>deny_unknown_fields\<close> refuses every other key.\<close>

definition json_field :: "(string \<Rightarrow> json option) \<Rightarrow> string \<Rightarrow> 'a \<Rightarrow> (json \<Rightarrow> 'a option) \<Rightarrow> 'a option" where
  "json_field m key dflt de = (case m key of None \<Rightarrow> Some dflt | Some v \<Rightarrow> de v)"

definition config_fields :: "string list" where
  "config_fields =
     [''listen'', ''host'', ''port'', ''uds_path'', ''max_recv_message_size'', ''max_send_message_size'',
      ''shutdown_grace_period'', ''client_lease_duration'', ''client_cleanup_interval'', ''__path__'',
      ''__required__'', ''__config__'']"

definition Config_of_fields :: "(string \<Rightarrow> json option) \<Rightarrow> Config option" where
  "Config_of_fields m = do {
     l \<leftarrow> json_field m ''listen'' None (json_option json_string);
     h \<leftarrow> json_field m ''host'' DEFAULT_HOST json_string;
     p \<leftarrow> json_field m ''port'' DEFAULT_PORT json_u16;
     u \<leftarrow> json_field m ''uds_path'' (Some DEFAULT_UDS_PATH) (json_option json_string);
     rx \<leftarrow> json_field m ''max_recv_message_size'' DEFAULT_MAX_RECV_MESSAGE_SIZE json_u64;
     tx \<leftarrow> json_field m ''max_send_message_size'' DEFAULT_MAX_SEND_MESSAGE_SIZE json_u64;
     grace \<leftarrow> json_field m ''shutdown_grace_period'' DEFAULT_SHUTDOWN_GRACE_PERIOD_MS json_duration;
     lease \<leftarrow> json_field m ''client_lease_duration'' DEFAULT_CLIENT_LEASE_DURATION_MS json_duration;
     interval \<leftarrow> json_field m ''client_cleanup_interval'' DEFAULT_CLIENT_CLEANUP_INTERVAL_MS json_duration;
     pth \<leftarrow> json_field m ''__path__'' None json_path;
     required \<leftarrow> json_field m ''__required__'' None (json_option json_bool);
     conf \<leftarrow> json_field m ''__config__'' None (json_option json_string);
     Some \<lparr>listen = l, host = h, port = p, uds_path = u, max_recv_message_size = rx,
       max_send_message_size = tx, shutdown_grace_period = grace, client_lease_duration = lease,
       client_cleanup_interval = interval, cfg_path = pth, cfg_required = required, cfg_config = conf\<rparr>
   }"

text \<open>The derived visitor accepts a map, or a sequence with the fields in their order.\<close>

fun Config_from_value :: "json \<Rightarrow> Config option" where
  "Config_from_value (J_Obj obj) =
     (if list_all (\<lambda>(k, _). k \<in> set config_fields) obj then Config_of_fields (map_of obj) else None)"
| "Config_from_value (J_Arr vs) =
     (if length vs \<le> length config_fields then Config_of_fields (map_of (zip config_fields vs)) else None)"
| "Config_from_value _ = None"

text \<open>\<^verbatim>\<open>serde_json::from_value\<close>; \<open>serde_error\<close> is the message that serde gives for a value it refuses.\<close>

definition from_value :: "(json \<Rightarrow> string) \<Rightarrow> json \<Rightarrow> string + Config" where
  "from_value serde_error v = (case Config_from_value v of None \<Rightarrow> Inl (serde_error v) | Some cfg \<Rightarrow> Inr cfg)"

section \<open>The command line\<close>

record Args =
  arg_id :: "string option"
  arg_mode :: string
  arg_config :: "string option"
  arg_listen :: "string list"
  arg_connect :: "string list"
  arg_no_multicast_scouting :: bool
  arg_grpc_host :: "string option"
  arg_grpc_port :: "u16 option"
  arg_grpc_uds :: "string option"

record 'c zenoh_config =
  zc_from_file :: "string \<Rightarrow> 'c option"
  zc_default :: 'c
  zc_plugin :: "string \<Rightarrow> 'c \<Rightarrow> json option"
  zc_insert_json5 :: "string \<Rightarrow> string \<Rightarrow> 'c \<Rightarrow> 'c option"
  zc_set_id :: "string \<Rightarrow> 'c \<Rightarrow> 'c option"
  zc_set_mode :: "string \<Rightarrow> 'c \<Rightarrow> 'c option"
  zc_set_connect :: "string list \<Rightarrow> 'c \<Rightarrow> 'c option"
  zc_set_listen :: "string list \<Rightarrow> 'c \<Rightarrow> 'c option"
  zc_set_multicast :: "bool \<Rightarrow> 'c \<Rightarrow> 'c option"
  zc_set_adminspace :: "bool \<Rightarrow> 'c \<Rightarrow> 'c option"
  zc_set_plugins_loading :: "bool \<Rightarrow> 'c \<Rightarrow> 'c option"

definition if_set :: "bool \<Rightarrow> ('c \<Rightarrow> 'c option) \<Rightarrow> 'c \<Rightarrow> 'c option" where
  "if_set b f c = (if b then f c else Some c)"

definition if_given :: "'a option \<Rightarrow> ('a \<Rightarrow> 'c \<Rightarrow> 'c option) \<Rightarrow> 'c \<Rightarrow> 'c option" where
  "if_given x f c = (case x of None \<Rightarrow> Some c | Some a \<Rightarrow> f a c)"

text \<open>The raw string literal of \<^verbatim>\<open>format!\<close>: the text between two quotes, nothing escaped.\<close>

definition quoted :: "string \<Rightarrow> string" where
  "quoted s = [CHR 0x22] @ s @ [CHR 0x22]"

definition parse_args :: "'c zenoh_config \<Rightarrow> Args \<Rightarrow> 'c option" where
  "parse_args A args = do {
     c \<leftarrow> (case arg_config args of Some conf_file \<Rightarrow> zc_from_file A conf_file | None \<Rightarrow> Some (zc_default A));
     c \<leftarrow> if_set (zc_plugin A ''grpc'' c = None) (zc_insert_json5 A ''plugins/grpc'' ''{}'') c;
     c \<leftarrow> if_given (arg_id args) (zc_set_id A) c;
     c \<leftarrow> zc_set_mode A (arg_mode args) c;
     c \<leftarrow> if_set (arg_connect args \<noteq> []) (zc_set_connect A (arg_connect args)) c;
     c \<leftarrow> if_set (arg_listen args \<noteq> []) (zc_set_listen A (arg_listen args)) c;
     c \<leftarrow> if_set (arg_no_multicast_scouting args) (zc_set_multicast A False) c;
     c \<leftarrow> zc_set_adminspace A True c;
     c \<leftarrow> zc_set_plugins_loading A True c;
     c \<leftarrow> if_given (arg_grpc_host args) (\<lambda>h. zc_insert_json5 A ''plugins/grpc/host'' (quoted h)) c;
     c \<leftarrow> if_given (arg_grpc_port args) (\<lambda>p. zc_insert_json5 A ''plugins/grpc/port'' (decimal (unat p))) c;
     if_given (arg_grpc_uds args) (\<lambda>u. zc_insert_json5 A ''plugins/grpc/uds_path'' (quoted u)) c
   }"

text \<open>
  \<^verbatim>\<open>main\<close>: a panic while the arguments are read, an exit because the Zenoh runtime could not be built or
  started, or a bridge that runs for ever with its configuration.
\<close>

datatype 'c bridge = Bridge_Panic | Bridge_Exit int | Bridge_Runs 'c

definition bridge_main :: "'c zenoh_config \<Rightarrow> Args \<Rightarrow> bool \<Rightarrow> bool \<Rightarrow> 'c bridge" where
  "bridge_main A args built started =
     (case parse_args A args of
        None \<Rightarrow> Bridge_Panic
      | Some c \<Rightarrow> if \<not> built then Bridge_Exit (-1) else if \<not> started then Bridge_Exit (-1) else Bridge_Runs c)"

section \<open>What the bridge relies on\<close>

text \<open>The characters that stand for themselves in a JSON5 string between double quotes.\<close>

definition plain :: "string \<Rightarrow> bool" where
  "plain s \<longleftrightarrow> list_all (\<lambda>ch. 32 \<le> (of_char ch :: nat) \<and> of_char ch < (127 :: nat)
     \<and> ch \<noteq> CHR 0x22 \<and> ch \<noteq> CHR 0x5C) s"

definition section_is :: "'c zenoh_config \<Rightarrow> 'c \<Rightarrow> (string \<Rightarrow> json option) \<Rightarrow> bool" where
  "section_is A c m \<longleftrightarrow> (\<exists>obj. zc_plugin A ''grpc'' c = Some (J_Obj obj) \<and> map_of obj = m)"

definition keeps_section :: "'c zenoh_config \<Rightarrow> ('c \<Rightarrow> 'c option) \<Rightarrow> bool" where
  "keeps_section A f \<longleftrightarrow> (\<forall>c c'. f c = Some c' \<longrightarrow> zc_plugin A ''grpc'' c' = zc_plugin A ''grpc'' c)"

definition grpc_path :: "string \<Rightarrow> string" where
  "grpc_path key = ''plugins/grpc/'' @ key"

definition stores :: "'c zenoh_config \<Rightarrow> string \<Rightarrow> string \<Rightarrow> json \<Rightarrow> bool" where
  "stores A key text v \<longleftrightarrow> (\<forall>c m. section_is A c m \<longrightarrow>
     (\<exists>c'. zc_insert_json5 A (grpc_path key) text c = Some c' \<and> section_is A c' (m(key \<mapsto> v))))"

definition zenoh_config_ok :: "'c zenoh_config \<Rightarrow> bool" where
  "zenoh_config_ok A \<longleftrightarrow>
     (\<forall>c. \<exists>c'. zc_insert_json5 A ''plugins/grpc'' ''{}'' c = Some c' \<and> section_is A c' Map.empty)
     \<and> (\<forall>key s. plain s \<longrightarrow> stores A key (quoted s) (J_Str s))
     \<and> (\<forall>key n. stores A key (decimal n) (J_Num (int n)))
     \<and> (\<forall>x. keeps_section A (zc_set_id A x)) \<and> (\<forall>x. keeps_section A (zc_set_mode A x))
     \<and> (\<forall>x. keeps_section A (zc_set_connect A x)) \<and> (\<forall>x. keeps_section A (zc_set_listen A x))
     \<and> (\<forall>x. keeps_section A (zc_set_multicast A x)) \<and> (\<forall>x. keeps_section A (zc_set_adminspace A x))
     \<and> (\<forall>x. keeps_section A (zc_set_plugins_loading A x))"

section \<open>From the command line to the listeners\<close>

lemma config_fields_map:
  "list_all (\<lambda>(k, _). k \<in> set config_fields) obj \<longleftrightarrow> dom (map_of obj) \<subseteq> set config_fields"
  by (auto simp: list_all_iff dom_map_of_conv_image_fst)

definition Config_of_map :: "(string \<Rightarrow> json option) \<Rightarrow> Config option" where
  "Config_of_map m = (if dom m \<subseteq> set config_fields then Config_of_fields m else None)"

lemma Config_from_section:
  "section_is A c m \<Longrightarrow> \<exists>v. zc_plugin A ''grpc'' c = Some v \<and> Config_from_value v = Config_of_map m"
  by (auto simp only: section_is_def Config_from_value.simps config_fields_map Config_of_map_def)

lemma bind_Some: "Option.bind x f = Some y \<longleftrightarrow> (\<exists>a. x = Some a \<and> f a = Some y)"
  by (cases x) auto

text \<open>Storing one of the three fields changes that field and no other.\<close>

lemma Config_of_map_upd:
  assumes "Config_of_map m = Some cfg"
  shows "Config_of_map (m(''host'' \<mapsto> J_Str h)) = Some (cfg\<lparr>host := h\<rparr>)"
    "Config_of_map (m(''port'' \<mapsto> J_Num (int (unat p)))) = Some (cfg\<lparr>port := p\<rparr>)"
    "Config_of_map (m(''uds_path'' \<mapsto> J_Str u)) = Some (cfg\<lparr>uds_path := Some u\<rparr>)"
proof -
  have dom: "dom m \<subseteq> set config_fields" and fields: "Config_of_fields m = Some cfg"
    using assms by (auto simp: Config_of_map_def split: if_splits)
  have p: "uint p < 65536" using unsigned_less [where ?'a = int and w = p] by simp
  note upd = Config_of_fields_def json_field_def bind_Some
  show "Config_of_map (m(''host'' \<mapsto> J_Str h)) = Some (cfg\<lparr>host := h\<rparr>)"
    using dom fields by (auto simp: Config_of_map_def upd config_fields_def)
  show "Config_of_map (m(''port'' \<mapsto> J_Num (int (unat p)))) = Some (cfg\<lparr>port := p\<rparr>)"
    using dom fields p by (auto simp: Config_of_map_def upd config_fields_def)
  show "Config_of_map (m(''uds_path'' \<mapsto> J_Str u)) = Some (cfg\<lparr>uds_path := Some u\<rparr>)"
    using dom fields by (auto simp: Config_of_map_def upd config_fields_def)
qed

lemma section_kept:
  assumes "keeps_section A f" and "section_is A c m"
  shows "f c = Some c' \<Longrightarrow> section_is A c' m" "if_set b f c = Some c' \<Longrightarrow> section_is A c' m"
  using assms by (auto simp: keeps_section_def section_is_def if_set_def split: if_splits)

lemma section_kept_given:
  assumes "\<And>x. keeps_section A (f x)" and "section_is A c m"
  shows "if_given a f c = Some c' \<Longrightarrow> section_is A c' m"
  using section_kept(1) [OF assms(1,2)] assms(2) by (auto simp: if_given_def split: option.splits)

lemma section_stored:
  assumes "section_is A c m" and "\<And>x. a = Some x \<Longrightarrow> stores A key (text x) (v x)"
    and "if_given a (\<lambda>x. zc_insert_json5 A (grpc_path key) (text x)) c = Some c'"
  shows "section_is A c' (case a of None \<Rightarrow> m | Some x \<Rightarrow> m(key \<mapsto> v x))"
  using assms by (cases a) (fastforce simp: if_given_def stores_def)+

definition bridge_config :: "Args \<Rightarrow> Config \<Rightarrow> Config" where
  "bridge_config args cfg =
     (let cfg = (case arg_grpc_host args of None \<Rightarrow> cfg | Some h \<Rightarrow> cfg\<lparr>host := h\<rparr>);
          cfg = (case arg_grpc_port args of None \<Rightarrow> cfg | Some p \<Rightarrow> cfg\<lparr>port := p\<rparr>) in
      case arg_grpc_uds args of None \<Rightarrow> cfg | Some u \<Rightarrow> cfg\<lparr>uds_path := Some u\<rparr>)"

text \<open>The section that the configuration file has, or the empty one that is inserted.\<close>

definition section_before :: "'c zenoh_config \<Rightarrow> Args \<Rightarrow> (string \<Rightarrow> json option) \<Rightarrow> bool" where
  "section_before A args m \<longleftrightarrow>
     (\<exists>c. (case arg_config args of Some conf_file \<Rightarrow> zc_from_file A conf_file | None \<Rightarrow> Some (zc_default A)) = Some c
        \<and> (section_is A c m \<or> zc_plugin A ''grpc'' c = None \<and> m = Map.empty))"

lemma parse_args_section:
  assumes ok: "zenoh_config_ok A" and c: "parse_args A args = Some c" and m: "section_before A args m"
    and plain: "\<And>h. arg_grpc_host args = Some h \<Longrightarrow> plain h" "\<And>u. arg_grpc_uds args = Some u \<Longrightarrow> plain u"
  shows "section_is A c
    (let m = (case arg_grpc_host args of None \<Rightarrow> m | Some h \<Rightarrow> m(''host'' \<mapsto> J_Str h));
         m = (case arg_grpc_port args of None \<Rightarrow> m | Some p \<Rightarrow> m(''port'' \<mapsto> J_Num (int (unat p)))) in
     case arg_grpc_uds args of None \<Rightarrow> m | Some u \<Rightarrow> m(''uds_path'' \<mapsto> J_Str u))"
proof -
  have keeps: "\<And>x. keeps_section A (zc_set_id A x)" "\<And>x. keeps_section A (zc_set_mode A x)"
    "\<And>x. keeps_section A (zc_set_connect A x)" "\<And>x. keeps_section A (zc_set_listen A x)"
    "\<And>x. keeps_section A (zc_set_multicast A x)" "\<And>x. keeps_section A (zc_set_adminspace A x)"
    "\<And>x. keeps_section A (zc_set_plugins_loading A x)"
    and str: "\<And>key s. plain s \<Longrightarrow> stores A key (quoted s) (J_Str s)"
    and num: "\<And>key n. stores A key (decimal n) (J_Num (int n))"
    using ok by (simp_all add: zenoh_config_ok_def)
  from c obtain c0 c1 c2 c3 c4 c5 c6 c7 c8 c9 c10 where
    steps: "(case arg_config args of Some conf_file \<Rightarrow> zc_from_file A conf_file | None \<Rightarrow> Some (zc_default A)) = Some c0"
      "if_set (zc_plugin A ''grpc'' c0 = None) (zc_insert_json5 A ''plugins/grpc'' ''{}'') c0 = Some c1"
      "if_given (arg_id args) (zc_set_id A) c1 = Some c2" "zc_set_mode A (arg_mode args) c2 = Some c3"
      "if_set (arg_connect args \<noteq> []) (zc_set_connect A (arg_connect args)) c3 = Some c4"
      "if_set (arg_listen args \<noteq> []) (zc_set_listen A (arg_listen args)) c4 = Some c5"
      "if_set (arg_no_multicast_scouting args) (zc_set_multicast A False) c5 = Some c6"
      "zc_set_adminspace A True c6 = Some c7" "zc_set_plugins_loading A True c7 = Some c8"
      "if_given (arg_grpc_host args) (\<lambda>h. zc_insert_json5 A (grpc_path ''host'') (quoted h)) c8 = Some c9"
      "if_given (arg_grpc_port args) (\<lambda>p. zc_insert_json5 A (grpc_path ''port'') (decimal (unat p))) c9 = Some c10"
      "if_given (arg_grpc_uds args) (\<lambda>u. zc_insert_json5 A (grpc_path ''uds_path'') (quoted u)) c10 = Some c"
    unfolding parse_args_def bind_Some grpc_path_def by auto
  from ok obtain e where empty: "zc_insert_json5 A ''plugins/grpc'' ''{}'' c0 = Some e" "section_is A e Map.empty"
    unfolding zenoh_config_ok_def by blast
  have "section_is A c0 m \<or> zc_plugin A ''grpc'' c0 = None \<and> m = Map.empty"
    using m steps(1) unfolding section_before_def by simp
  then have "section_is A c1 m"
  proof
    assume "section_is A c0 m"
    moreover from this have "zc_plugin A ''grpc'' c0 \<noteq> None" by (auto simp: section_is_def)
    ultimately show ?thesis using steps(2) by (auto simp: if_set_def)
  next
    assume "zc_plugin A ''grpc'' c0 = None \<and> m = Map.empty"
    with empty steps(2) show ?thesis by (simp add: if_set_def)
  qed
  then have "section_is A c2 m" by (rule section_kept_given [OF keeps(1) _ steps(3)])
  then have "section_is A c3 m" by (rule section_kept(1) [OF keeps(2) _ steps(4)])
  then have "section_is A c4 m" by (rule section_kept(2) [OF keeps(3) _ steps(5)])
  then have "section_is A c5 m" by (rule section_kept(2) [OF keeps(4) _ steps(6)])
  then have "section_is A c6 m" by (rule section_kept(2) [OF keeps(5) _ steps(7)])
  then have "section_is A c7 m" by (rule section_kept(1) [OF keeps(6) _ steps(8)])
  then have "section_is A c8 m" by (rule section_kept(1) [OF keeps(7) _ steps(9)])
  from section_stored [OF section_stored [OF section_stored [OF this str steps(10)] num steps(11)] str steps(12)] plain
  show ?thesis by (simp add: Let_def)
qed


section \<open>Witness\<close>

text \<open>A configuration that holds the section of the plugin only.\<close>

definition literal :: "string \<Rightarrow> json" where
  "literal text = (if text = quoted (butlast (tl text)) then J_Str (butlast (tl text))
     else J_Num (int (parse_decimal text)))"

definition section_config :: "json option zenoh_config" where
  "section_config =
     \<lparr>zc_from_file = (\<lambda>_. None), zc_default = None, zc_plugin = (\<lambda>_ c. c),
      zc_insert_json5 = (\<lambda>path text c.
        case strip_prefix ''plugins/grpc/'' path of
          None \<Rightarrow> Some (Some (J_Obj []))
        | Some key \<Rightarrow> (case c of Some (J_Obj obj) \<Rightarrow> Some (Some (J_Obj ((key, literal text) # obj))) | _ \<Rightarrow> None)),
      zc_set_id = (\<lambda>_. Some), zc_set_mode = (\<lambda>_. Some), zc_set_connect = (\<lambda>_. Some),
      zc_set_listen = (\<lambda>_. Some), zc_set_multicast = (\<lambda>_. Some), zc_set_adminspace = (\<lambda>_. Some),
      zc_set_plugins_loading = (\<lambda>_. Some)\<rparr>"

lemma decimal_digits: "ch \<in> set (decimal n) \<Longrightarrow> \<exists>d<10. ch = digit_char d"
proof (induction n rule: decimal.induct)
  case (1 n)
  have "\<exists>d<10. digit_char (n mod 10) = digit_char d" by (rule exI [of _ "n mod 10"]) simp
  with "1" show ?case by (auto simp: decimal.simps [of n] split: if_splits)
qed

lemma literal_simps: "literal (quoted s) = J_Str s" "literal (decimal n) = J_Num (int n)"
proof -
  show "literal (quoted s) = J_Str s" by (simp add: literal_def quoted_def)
  have "CHR 0x22 \<notin> set (decimal n)"
  proof
    assume "CHR 0x22 \<in> set (decimal n)"
    then obtain d where "d < 10" "CHR 0x22 = digit_char d" using decimal_digits by blast
    then have "of_char (CHR 0x22) = (48 + d :: nat)" by (simp add: of_digit_char)
    then show False by simp
  qed
  then have "decimal n \<noteq> quoted t" for t by (auto simp: quoted_def)
  then show "literal (decimal n) = J_Num (int n)" by (simp add: literal_def parse_decimal_decimal)
qed

lemma section_config_ok: "zenoh_config_ok section_config"
proof -
  have "stores section_config key t (literal t)" for key t
    by (auto simp: stores_def section_is_def section_config_def grpc_path_def strip_prefix_def)
  then have "\<forall>key s. plain s \<longrightarrow> stores section_config key (quoted s) (J_Str s)"
    "\<forall>key n. stores section_config key (decimal n) (J_Num (int n))"
    by (metis literal_simps)+
  then show ?thesis
    by (simp add: zenoh_config_ok_def) (simp add: section_config_def section_is_def keeps_section_def strip_prefix_def)
qed

definition given_port :: Args where
  "given_port = \<lparr>arg_id = None, arg_mode = ''peer'', arg_config = None, arg_listen = [], arg_connect = [],
     arg_no_multicast_scouting = False, arg_grpc_host = Some ''0.0.0.0'', arg_grpc_port = Some 8080,
     arg_grpc_uds = None\<rparr>"


end
