(* ===== verification/Py_Events.thy ===== *)
theory Py_Events
  imports Client_Replies Client_Session_Worker Config
begin

text \<open>
  The Python library (\<^verbatim>\<open>zenoh-grpc-python\<close>), first part: exceptions and endpoints (\<^verbatim>\<open>common.rs\<close>), the
  constants of the enumerations (\<^verbatim>\<open>enums.rs\<close>), and the objects a program receives: samples, events,
  replies, reply streams and queries (\<^verbatim>\<open>events.rs\<close>).

  A method returns an exception or its value (\<open>Inl\<close>, \<open>Inr\<close>). A method that waits is \<open>None\<close> while it
  waits. \<open>D\<close> is the text that tonic shows for a status. \<^verbatim>\<open>py.allow_threads\<close> and \<^verbatim>\<open>block_on\<close> run a call of
  the core to its end and have no effect of their own.
\<close>

section \<open>Exceptions and endpoints\<close>

datatype PyErr = PyRuntimeError string | PyStopIteration string

type_synonym 'a py = "PyErr + 'a"

text \<open>\<^verbatim>\<open>Display\<close> of the errors of the client core.\<close>

fun Error_to_string :: "(status \<Rightarrow> string) \<Rightarrow> Error \<Rightarrow> string" where
  "Error_to_string D (Transport e) = e"
| "Error_to_string D (Status st) = D st"
| "Error_to_string D (CallbackDriven kind) = kind @ '' is callback-driven''"

definition to_py_err :: "(status \<Rightarrow> string) \<Rightarrow> Error \<Rightarrow> PyErr" where
  "to_py_err D e = PyRuntimeError (Error_to_string D e)"

definition map_err :: "(status \<Rightarrow> string) \<Rightarrow> 'a result \<Rightarrow> 'a py" where
  "map_err D r = map_sum (to_py_err D) id r"

definition parse_connect_addr :: "string \<Rightarrow> ConnectAddr py" where
  "parse_connect_addr endpoint =
     (case strip_prefix ''tcp://'' endpoint of
        Some a \<Rightarrow> Inr (ConnectTcp a)
      | None \<Rightarrow>
          (case strip_prefix ''unix://'' endpoint of
             Some path \<Rightarrow> Inr (ConnectUnix path)
           | None \<Rightarrow> Inl (PyRuntimeError ''invalid endpoint, expected tcp://host:port or unix:///path'')))"

section \<open>Constants of the enumerations\<close>

text \<open>\<^verbatim>\<open>as i32\<close> on the enumerations of the protocol.\<close>

fun sample_kind_i32 :: "pb_sample_kind \<Rightarrow> i32" where
  "sample_kind_i32 SampleKind_Unspecified = 0"
| "sample_kind_i32 SampleKind_Put = 1"
| "sample_kind_i32 SampleKind_Delete = 2"

fun congestion_control_i32 :: "pb_congestion_control \<Rightarrow> i32" where
  "congestion_control_i32 CongestionControl_Unspecified = 0"
| "congestion_control_i32 CongestionControl_Block = 1"
| "congestion_control_i32 CongestionControl_Drop = 2"

fun priority_i32 :: "pb_priority \<Rightarrow> i32" where
  "priority_i32 Priority_Unspecified = 0"
| "priority_i32 Priority_RealTime = 1"
| "priority_i32 Priority_InteractiveHigh = 2"
| "priority_i32 Priority_InteractiveLow = 3"
| "priority_i32 Priority_DataHigh = 4"
| "priority_i32 Priority_Data = 5"
| "priority_i32 Priority_DataLow = 6"
| "priority_i32 Priority_Background = 7"

fun reliability_i32 :: "pb_reliability \<Rightarrow> i32" where
  "reliability_i32 Reliability_Unspecified = 0"
| "reliability_i32 Reliability_BestEffort = 1"
| "reliability_i32 Reliability_Reliable = 2"

fun locality_i32 :: "pb_locality \<Rightarrow> i32" where
  "locality_i32 Locality_Unspecified = 0"
| "locality_i32 Locality_Any = 1"
| "locality_i32 Locality_SessionLocal = 2"
| "locality_i32 Locality_Remote = 3"

fun query_target_i32 :: "pb_query_target \<Rightarrow> i32" where
  "query_target_i32 QueryTarget_Unspecified = 0"
| "query_target_i32 QueryTarget_BestMatching = 1"
| "query_target_i32 QueryTarget_All = 2"
| "query_target_i32 QueryTarget_AllComplete = 3"

fun consolidation_mode_i32 :: "pb_consolidation_mode \<Rightarrow> i32" where
  "consolidation_mode_i32 ConsolidationMode_Unspecified = 0"
| "consolidation_mode_i32 ConsolidationMode_Auto = 1"
| "consolidation_mode_i32 ConsolidationMode_None = 2"
| "consolidation_mode_i32 ConsolidationMode_Monotonic = 3"
| "consolidation_mode_i32 ConsolidationMode_Latest = 4"

text \<open>The class attributes.\<close>

definition SampleKind_attrs :: "(string \<times> i32) list" where
  "SampleKind_attrs =
     [(''UNSPECIFIED'', sample_kind_i32 SampleKind_Unspecified), (''PUT'', sample_kind_i32 SampleKind_Put),
      (''DELETE'', sample_kind_i32 SampleKind_Delete)]"

definition CongestionControl_attrs :: "(string \<times> i32) list" where
  "CongestionControl_attrs =
     [(''UNSPECIFIED'', congestion_control_i32 CongestionControl_Unspecified),
      (''BLOCK'', congestion_control_i32 CongestionControl_Block),
      (''DROP'', congestion_control_i32 CongestionControl_Drop)]"

definition Priority_attrs :: "(string \<times> i32) list" where
  "Priority_attrs =
     [(''UNSPECIFIED'', priority_i32 Priority_Unspecified), (''REAL_TIME'', priority_i32 Priority_RealTime),
      (''INTERACTIVE_HIGH'', priority_i32 Priority_InteractiveHigh),
      (''INTERACTIVE_LOW'', priority_i32 Priority_InteractiveLow),
      (''DATA_HIGH'', priority_i32 Priority_DataHigh), (''DATA'', priority_i32 Priority_Data),
      (''DATA_LOW'', priority_i32 Priority_DataLow), (''BACKGROUND'', priority_i32 Priority_Background)]"

definition Reliability_attrs :: "(string \<times> i32) list" where
  "Reliability_attrs =
     [(''UNSPECIFIED'', reliability_i32 Reliability_Unspecified),
      (''BEST_EFFORT'', reliability_i32 Reliability_BestEffort),
      (''RELIABLE'', reliability_i32 Reliability_Reliable)]"

definition Locality_attrs :: "(string \<times> i32) list" where
  "Locality_attrs =
     [(''UNSPECIFIED'', locality_i32 Locality_Unspecified), (''ANY'', locality_i32 Locality_Any),
      (''SESSION_LOCAL'', locality_i32 Locality_SessionLocal), (''REMOTE'', locality_i32 Locality_Remote)]"

definition QueryTarget_attrs :: "(string \<times> i32) list" where
  "QueryTarget_attrs =
     [(''UNSPECIFIED'', query_target_i32 QueryTarget_Unspecified),
      (''BEST_MATCHING'', query_target_i32 QueryTarget_BestMatching),
      (''ALL'', query_target_i32 QueryTarget_All),
      (''ALL_COMPLETE'', query_target_i32 QueryTarget_AllComplete)]"

definition ConsolidationMode_attrs :: "(string \<times> i32) list" where
  "ConsolidationMode_attrs =
     [(''UNSPECIFIED'', consolidation_mode_i32 ConsolidationMode_Unspecified),
      (''AUTO'', consolidation_mode_i32 ConsolidationMode_Auto),
      (''NONE'', consolidation_mode_i32 ConsolidationMode_None),
      (''MONOTONIC'', consolidation_mode_i32 ConsolidationMode_Monotonic),
      (''LATEST'', consolidation_mode_i32 ConsolidationMode_Latest)]"


section \<open>Samples, events and replies\<close>

definition SubscriberEvent_key_expr :: "pb_SubscriberEvent \<Rightarrow> string option" where
  "SubscriberEvent_key_expr e = map_option smp_key_expr (sevt_sample e)"

definition SubscriberEvent_payload :: "pb_SubscriberEvent \<Rightarrow> bytes option" where
  "SubscriberEvent_payload e = map_option smp_payload (sevt_sample e)"

definition SubscriberEvent_encoding :: "pb_SubscriberEvent \<Rightarrow> string option" where
  "SubscriberEvent_encoding e = map_option smp_encoding (sevt_sample e)"

definition SubscriberEvent_timestamp :: "pb_SubscriberEvent \<Rightarrow> string option" where
  "SubscriberEvent_timestamp e = map_option smp_timestamp (sevt_sample e)"

definition SubscriberEvent_kind :: "pb_SubscriberEvent \<Rightarrow> i32 option" where
  "SubscriberEvent_kind e = map_option smp_kind (sevt_sample e)"

definition SubscriberEvent_attachment :: "pb_SubscriberEvent \<Rightarrow> bytes option" where
  "SubscriberEvent_attachment e = map_option smp_attachment (sevt_sample e)"

definition SubscriberEvent_source_info_id :: "pb_SubscriberEvent \<Rightarrow> string option" where
  "SubscriberEvent_source_info_id e = Option.bind (sevt_sample e) (\<lambda>s. map_option src_id (smp_source_info s))"

definition SubscriberEvent_source_info_sequence :: "pb_SubscriberEvent \<Rightarrow> u64 option" where
  "SubscriberEvent_source_info_sequence e =
     Option.bind (sevt_sample e) (\<lambda>s. map_option src_sequence (smp_source_info s))"

definition Sample_key_expr :: "pb_Sample \<Rightarrow> string" where
  "Sample_key_expr s = smp_key_expr s"

definition Sample_payload :: "pb_Sample \<Rightarrow> bytes" where
  "Sample_payload s = smp_payload s"

definition Sample_encoding :: "pb_Sample \<Rightarrow> string" where
  "Sample_encoding s = smp_encoding s"

definition Sample_kind :: "pb_Sample \<Rightarrow> i32" where
  "Sample_kind s = smp_kind s"

definition Sample_attachment :: "pb_Sample \<Rightarrow> bytes" where
  "Sample_attachment s = smp_attachment s"

definition Sample_timestamp :: "pb_Sample \<Rightarrow> string" where
  "Sample_timestamp s = smp_timestamp s"

definition Sample_source_info_id :: "pb_Sample \<Rightarrow> string option" where
  "Sample_source_info_id s = map_option src_id (smp_source_info s)"

definition Sample_source_info_sequence :: "pb_Sample \<Rightarrow> u64 option" where
  "Sample_source_info_sequence s = map_option src_sequence (smp_source_info s)"

definition ReplyError_payload :: "pb_ReplyError \<Rightarrow> bytes" where
  "ReplyError_payload e = rerr_payload e"

definition ReplyError_encoding :: "pb_ReplyError \<Rightarrow> string" where
  "ReplyError_encoding e = rerr_encoding e"

definition Reply_ok :: "pb_Reply \<Rightarrow> bool" where
  "Reply_ok r = (case reply_result r of Some (Reply_Sample _) \<Rightarrow> True | _ \<Rightarrow> False)"

definition Reply_is_ok :: "pb_Reply \<Rightarrow> bool" where
  "Reply_is_ok r = (case reply_result r of Some (Reply_Sample _) \<Rightarrow> True | _ \<Rightarrow> False)"

definition Reply_sample :: "pb_Reply \<Rightarrow> pb_Sample option" where
  "Reply_sample r = (case reply_result r of Some (Reply_Sample s) \<Rightarrow> Some s | _ \<Rightarrow> None)"

definition Reply_error :: "pb_Reply \<Rightarrow> pb_ReplyError option" where
  "Reply_error r = (case reply_result r of Some (Reply_Error e) \<Rightarrow> Some e | _ \<Rightarrow> None)"

section \<open>Reply streams\<close>

text \<open>\<^verbatim>\<open>recv\<close> waits without the interpreter lock; \<open>None\<close> is a call that waits.\<close>

definition ReplyStream_py_recv ::
  "(status \<Rightarrow> string) \<Rightarrow> ('c, pb_Reply) flume \<Rightarrow> 'c drop_oldest \<Rightarrow> (pb_Reply py \<times> 'c drop_oldest) option" where
  "ReplyStream_py_recv D F q = map_option (\<lambda>(r, q'). (map_err D r, q')) (ReplyStream_recv F q)"

definition ReplyStream_py_try_recv ::
  "(status \<Rightarrow> string) \<Rightarrow> ('c, pb_Reply) flume \<Rightarrow> 'c drop_oldest \<Rightarrow> pb_Reply option py \<times> 'c drop_oldest" where
  "ReplyStream_py_try_recv D F q = (case ReplyStream_try_recv F q of (r, q') \<Rightarrow> (map_err D r, q'))"

definition ReplyStream_next ::
  "(status \<Rightarrow> string) \<Rightarrow> ('c, pb_Reply) flume \<Rightarrow> 'c drop_oldest \<Rightarrow> (pb_Reply py \<times> 'c drop_oldest) option" where
  "ReplyStream_next D F q =
     map_option (\<lambda>(r, q').
       (case r of
          Inr reply \<Rightarrow> Inr reply
        | Inl err \<Rightarrow>
            Inl (if ReplyStream_is_closed F q' then PyStopIteration (Error_to_string D err) else to_py_err D err),
        q')) (ReplyStream_recv F q)"

definition ReplyStream_dropped_count :: "'c drop_oldest \<Rightarrow> u64" where
  "ReplyStream_dropped_count q = dropped_count q"

definition ReplyStream_py_is_closed :: "('c, pb_Reply) flume \<Rightarrow> 'c drop_oldest \<Rightarrow> bool" where
  "ReplyStream_py_is_closed F q = ReplyStream_is_closed F q"

text \<open>
  A \<^verbatim>\<open>for\<close> loop calls \<^verbatim>\<open>__next__\<close> until it raises: the values of at most \<open>n\<close> calls and the exception that
  ended the loop, if one did.
\<close>

fun py_for :: "('q \<Rightarrow> ('a py \<times> 'q) option) \<Rightarrow> nat \<Rightarrow> 'q \<Rightarrow> 'a list \<times> PyErr option" where
  "py_for next 0 q = ([], None)"
| "py_for next (Suc n) q =
     (case next q of
        None \<Rightarrow> ([], None)
      | Some (Inl e, q') \<Rightarrow> ([], Some e)
      | Some (Inr x, q') \<Rightarrow> (case py_for next n q' of (xs, e) \<Rightarrow> (x # xs, e)))"

section \<open>Queries\<close>

record Query =
  py_inner :: "GrpcQuery option"

definition Query_from_inner :: "GrpcQuery \<Rightarrow> Query" where
  "Query_from_inner q = \<lparr>py_inner = Some q\<rparr>"

definition already_dropped :: PyErr where
  "already_dropped = PyRuntimeError ''query already dropped''"

definition Query_inner :: "Query \<Rightarrow> GrpcQuery py" where
  "Query_inner Q = (case py_inner Q of None \<Rightarrow> Inl already_dropped | Some q \<Rightarrow> Inr q)"

definition Query_take_inner :: "Query \<Rightarrow> GrpcQuery py \<times> Query" where
  "Query_take_inner Q = (Query_inner Q, Q\<lparr>py_inner := None\<rparr>)"

text \<open>The getters read the query that the object holds.\<close>

definition Query_get :: "(pb_Query \<Rightarrow> 'a) \<Rightarrow> Query \<Rightarrow> 'a py" where
  "Query_get field Q = map_sum id (\<lambda>q. field (gq_inner q)) (Query_inner Q)"

definition answer_with ::
  "(status \<Rightarrow> string) \<Rightarrow> (GrpcQuery \<Rightarrow> 's \<Rightarrow> (unit result \<times> 's) option) \<Rightarrow> Query \<Rightarrow> 's \<Rightarrow> (unit py \<times> 's) option" where
  "answer_with D answer Q S =
     (case Query_inner Q of
        Inl e \<Rightarrow> Some (Inl e, S)
      | Inr q \<Rightarrow> map_option (\<lambda>(r, S'). (map_err D r, S')) (answer q S))"

definition Query_reply ::
  "(status \<Rightarrow> string) \<Rightarrow> ('d, QueryableCommand) flume \<Rightarrow> Query \<Rightarrow> string \<Rightarrow> bytes \<Rightarrow> string option \<Rightarrow>
   bytes option \<Rightarrow> string option \<Rightarrow> ('ch, 'c, 'd) queryable_sys \<Rightarrow> (unit py \<times> ('ch, 'c, 'd) queryable_sys) option" where
  "Query_reply D G Q key_expr payload encoding attachment timestamp =
     answer_with D (\<lambda>q. GrpcQuery_reply G q key_expr payload (unwrap_or encoding []) (unwrap_or attachment [])
       (unwrap_or timestamp [])) Q"

definition Query_reply_err ::
  "(status \<Rightarrow> string) \<Rightarrow> ('d, QueryableCommand) flume \<Rightarrow> Query \<Rightarrow> bytes \<Rightarrow> string option \<Rightarrow>
   ('ch, 'c, 'd) queryable_sys \<Rightarrow> (unit py \<times> ('ch, 'c, 'd) queryable_sys) option" where
  "Query_reply_err D G Q payload encoding =
     answer_with D (\<lambda>q. GrpcQuery_reply_err G q payload (unwrap_or encoding [])) Q"

definition Query_reply_delete ::
  "(status \<Rightarrow> string) \<Rightarrow> ('d, QueryableCommand) flume \<Rightarrow> Query \<Rightarrow> string \<Rightarrow> bytes option \<Rightarrow> string option \<Rightarrow>
   ('ch, 'c, 'd) queryable_sys \<Rightarrow> (unit py \<times> ('ch, 'c, 'd) queryable_sys) option" where
  "Query_reply_delete D G Q key_expr attachment timestamp =
     answer_with D (\<lambda>q. GrpcQuery_reply_delete G q key_expr (unwrap_or attachment []) (unwrap_or timestamp [])) Q"

definition Query_drop ::
  "(status \<Rightarrow> string) \<Rightarrow> ('d, QueryableCommand) flume \<Rightarrow> Query \<Rightarrow> ('ch, 'c, 'd) queryable_sys \<Rightarrow>
   (unit py \<times> Query \<times> ('ch, 'c, 'd) queryable_sys) option" where
  "Query_drop D G Q S =
     (case Query_take_inner Q of
        (Inl e, Q') \<Rightarrow> Some (Inl e, Q', S)
      | (Inr q, Q') \<Rightarrow> map_option (\<lambda>(r, S'). (map_err D r, Q', S')) (GrpcQuery_finish G q S))"

definition Query_exit ::
  "(status \<Rightarrow> string) \<Rightarrow> ('d, QueryableCommand) flume \<Rightarrow> Query \<Rightarrow> ('ch, 'c, 'd) queryable_sys \<Rightarrow>
   (unit py \<times> Query \<times> ('ch, 'c, 'd) queryable_sys) option" where
  "Query_exit D G Q S = Query_drop D G Q S"

text \<open>The interpreter frees a query object: what it still holds is dropped.\<close>

definition Query_dealloc ::
  "('d, QueryableCommand) flume \<Rightarrow> Query \<Rightarrow> ('ch, 'c, 'd) queryable_sys \<Rightarrow> ('ch, 'c, 'd) queryable_sys option" where
  "Query_dealloc G Q S = (case py_inner Q of None \<Rightarrow> Some S | Some q \<Rightarrow> GrpcQuery_drop G q S)"

text \<open>
  A \<^verbatim>\<open>with\<close> statement on a query: the body up to its first exception, then \<^verbatim>\<open>__exit__\<close>, whose exception
  replaces that of the body.
\<close>

datatype body_op =
    BodyReply string bytes "string option" "bytes option" "string option"
  | BodyReplyErr bytes "string option"
  | BodyReplyDelete string "bytes option" "string option"
  | BodyDrop

fun body_step ::
  "(status \<Rightarrow> string) \<Rightarrow> ('d, QueryableCommand) flume \<Rightarrow> body_op \<Rightarrow> Query \<Rightarrow> ('ch, 'c, 'd) queryable_sys \<Rightarrow>
   (unit py \<times> Query \<times> ('ch, 'c, 'd) queryable_sys) option" where
  "body_step D G (BodyReply k p e at ts) Q S = map_option (\<lambda>(r, S'). (r, Q, S')) (Query_reply D G Q k p e at ts S)"
| "body_step D G (BodyReplyErr p e) Q S = map_option (\<lambda>(r, S'). (r, Q, S')) (Query_reply_err D G Q p e S)"
| "body_step D G (BodyReplyDelete k at ts) Q S =
     map_option (\<lambda>(r, S'). (r, Q, S')) (Query_reply_delete D G Q k at ts S)"
| "body_step D G BodyDrop Q S = Query_drop D G Q S"

fun with_body ::
  "(status \<Rightarrow> string) \<Rightarrow> ('d, QueryableCommand) flume \<Rightarrow> body_op list \<Rightarrow> Query \<Rightarrow> ('ch, 'c, 'd) queryable_sys \<Rightarrow>
   (unit py \<times> Query \<times> ('ch, 'c, 'd) queryable_sys) option" where
  "with_body D G [] Q S = Some (Inr (), Q, S)"
| "with_body D G (op # ops) Q S =
     (case body_step D G op Q S of
        None \<Rightarrow> None
      | Some (Inl e, Q', S') \<Rightarrow> Some (Inl e, Q', S')
      | Some (Inr _, Q', S') \<Rightarrow> with_body D G ops Q' S')"

definition with_query ::
  "(status \<Rightarrow> string) \<Rightarrow> ('d, QueryableCommand) flume \<Rightarrow> body_op list \<Rightarrow> Query \<Rightarrow> ('ch, 'c, 'd) queryable_sys \<Rightarrow>
   (unit py \<times> Query \<times> ('ch, 'c, 'd) queryable_sys) option" where
  "with_query D G ops Q S =
     (case with_body D G ops Q S of
        None \<Rightarrow> None
      | Some (r, Q1, S1) \<Rightarrow>
          map_option (\<lambda>(r', Q2, S2). (case r' of Inl e \<Rightarrow> Inl e | Inr _ \<Rightarrow> r, Q2, S2)) (Query_exit D G Q1 S1))"

end
