(* ===== verification/Py_Objects.thy ===== *)
theory Py_Objects
  imports Py_Events Client_Blocking
begin

text \<open>
  The Python library, second part: sessions, publishers, subscribers, queryables and queriers
  (\<^verbatim>\<open>objects.rs\<close>). Optional parameters of a Python method are options; \<^verbatim>\<open>unwrap_or_default\<close> gives the
  empty string, the empty buffer or zero. \<^verbatim>\<open>info\<close>, \<^verbatim>\<open>close\<close> and \<^verbatim>\<open>undeclare\<close> wait with the schedule of what
  moves meanwhile (\<open>Client_Blocking\<close>); a \<^verbatim>\<open>get\<close> has the core's call as its argument \<open>get\<close>.
\<close>

section \<open>Arguments\<close>

definition Session_put_args ::
  "string \<Rightarrow> bytes \<Rightarrow> string option \<Rightarrow> i32 option \<Rightarrow> i32 option \<Rightarrow> bool \<Rightarrow> bytes option \<Rightarrow> string option \<Rightarrow>
   i32 option \<Rightarrow> SessionPutArgs" where
  "Session_put_args key_expr payload encoding congestion_control priority express attachment timestamp allowed_destination =
     \<lparr>pa_key_expr = key_expr, pa_payload = payload, pa_encoding = unwrap_or encoding [],
      pa_congestion_control = unwrap_or congestion_control 0, pa_priority = unwrap_or priority 0,
      pa_express = express, pa_attachment = unwrap_or attachment [], pa_timestamp = unwrap_or timestamp [],
      pa_allowed_destination = unwrap_or allowed_destination 0\<rparr>"

definition Session_delete_args ::
  "string \<Rightarrow> i32 option \<Rightarrow> i32 option \<Rightarrow> bool \<Rightarrow> bytes option \<Rightarrow> string option \<Rightarrow> i32 option \<Rightarrow> SessionDeleteArgs" where
  "Session_delete_args key_expr congestion_control priority express attachment timestamp allowed_destination =
     \<lparr>da_key_expr = key_expr, da_congestion_control = unwrap_or congestion_control 0,
      da_priority = unwrap_or priority 0, da_express = express, da_attachment = unwrap_or attachment [],
      da_timestamp = unwrap_or timestamp [], da_allowed_destination = unwrap_or allowed_destination 0\<rparr>"

definition Session_get_args ::
  "string \<Rightarrow> i32 option \<Rightarrow> i32 option \<Rightarrow> u64 option \<Rightarrow> bytes option \<Rightarrow> string option \<Rightarrow> bytes option \<Rightarrow>
   i32 option \<Rightarrow> SessionGetArgs" where
  "Session_get_args selector target consolidation timeout_ms payload encoding attachment allowed_destination =
     \<lparr>ga_selector = selector, ga_target = unwrap_or target 0, ga_consolidation = unwrap_or consolidation 0,
      ga_timeout_ms = unwrap_or timeout_ms 0, ga_payload = unwrap_or payload [],
      ga_encoding = unwrap_or encoding [], ga_attachment = unwrap_or attachment [],
      ga_allowed_destination = unwrap_or allowed_destination 0\<rparr>"

definition Session_declare_publisher_args ::
  "string \<Rightarrow> string option \<Rightarrow> i32 option \<Rightarrow> i32 option \<Rightarrow> bool \<Rightarrow> i32 option \<Rightarrow> i32 option \<Rightarrow> DeclarePublisherArgs" where
  "Session_declare_publisher_args key_expr encoding congestion_control priority express reliability allowed_destination =
     \<lparr>dpa_key_expr = key_expr, dpa_encoding = unwrap_or encoding [],
      dpa_congestion_control = unwrap_or congestion_control 0, dpa_priority = unwrap_or priority 0,
      dpa_express = express, dpa_reliability = unwrap_or reliability 0,
      dpa_allowed_destination = unwrap_or allowed_destination 0\<rparr>"

definition Session_declare_subscriber_args :: "string \<Rightarrow> i32 option \<Rightarrow> DeclareSubscriberArgs" where
  "Session_declare_subscriber_args key_expr allowed_origin =
     \<lparr>dsa_key_expr = key_expr, dsa_allowed_origin = unwrap_or allowed_origin 0\<rparr>"

definition Session_declare_queryable_args :: "string \<Rightarrow> bool \<Rightarrow> i32 option \<Rightarrow> DeclareQueryableArgs" where
  "Session_declare_queryable_args key_expr complete allowed_origin =
     \<lparr>dqa_key_expr = key_expr, dqa_complete = complete, dqa_allowed_origin = unwrap_or allowed_origin 0\<rparr>"

definition Session_declare_querier_args ::
  "string \<Rightarrow> i32 option \<Rightarrow> i32 option \<Rightarrow> u64 option \<Rightarrow> i32 option \<Rightarrow> DeclareQuerierArgs" where
  "Session_declare_querier_args key_expr target consolidation timeout_ms allowed_destination =
     \<lparr>dra_key_expr = key_expr, dra_target = unwrap_or target 0, dra_consolidation = unwrap_or consolidation 0,
      dra_timeout_ms = unwrap_or timeout_ms 0, dra_allowed_destination = unwrap_or allowed_destination 0\<rparr>"

definition Publisher_put_args ::
  "bytes \<Rightarrow> string option \<Rightarrow> bytes option \<Rightarrow> string option \<Rightarrow> PublisherPutArgs" where
  "Publisher_put_args payload encoding attachment timestamp =
     \<lparr>ppa_payload = payload, ppa_encoding = unwrap_or encoding [], ppa_attachment = unwrap_or attachment [],
      ppa_timestamp = unwrap_or timestamp []\<rparr>"

definition Publisher_delete_args :: "bytes option \<Rightarrow> string option \<Rightarrow> PublisherDeleteArgs" where
  "Publisher_delete_args attachment timestamp =
     \<lparr>pda_attachment = unwrap_or attachment [], pda_timestamp = unwrap_or timestamp []\<rparr>"

definition Querier_get_args ::
  "string option \<Rightarrow> bytes option \<Rightarrow> string option \<Rightarrow> bytes option \<Rightarrow> QuerierGetArgs" where
  "Querier_get_args parameters payload encoding attachment =
     \<lparr>qga_parameters = unwrap_or parameters [], qga_payload = unwrap_or payload [],
      qga_encoding = unwrap_or encoding [], qga_attachment = unwrap_or attachment []\<rparr>"

section \<open>Sessions\<close>

definition py_call ::
  "(status \<Rightarrow> string) \<Rightarrow> ('a result \<times> 's) option \<Rightarrow> ('a py \<times> 's) option" where
  "py_call D r = map_option (\<lambda>(r, S). (map_err D r, S)) r"

definition Session_connect ::
  "(status \<Rightarrow> string) \<Rightarrow> ('e, 'ch) transport \<Rightarrow> string \<Rightarrow> bool \<Rightarrow> string option \<Rightarrow> 'ch Inner py" where
  "Session_connect D T uuid in_time endpoint =
     (case parse_connect_addr (unwrap_or endpoint ''unix:///tmp/zenoh-grpc.sock'') of
        Inl e \<Rightarrow> Inl e
      | Inr a \<Rightarrow> map_err D (session_connect T uuid in_time a))"

definition Session_info ::
  "(status \<Rightarrow> string) \<Rightarrow> ('c, SessionCommand) flume \<Rightarrow> ('ch session_input, string rpc_result) call_input list \<Rightarrow>
   ('ch, 'c) session_sys \<Rightarrow> (string py \<times> ('ch, 'c) session_sys) option" where
  "Session_info D F is S = py_call D (GrpcSession_info F is S)"

definition Session_close ::
  "(status \<Rightarrow> string) \<Rightarrow> ('c, SessionCommand) flume \<Rightarrow> ('ch session_input, unit rpc_result) call_input list \<Rightarrow>
   ('ch, 'c) session_sys \<Rightarrow> (unit py \<times> ('ch, 'c) session_sys) option" where
  "Session_close D F is S = py_call D (GrpcSession_cleanup F is S)"

definition Session_exit ::
  "(status \<Rightarrow> string) \<Rightarrow> ('c, SessionCommand) flume \<Rightarrow> ('ch session_input, unit rpc_result) call_input list \<Rightarrow>
   ('ch, 'c) session_sys \<Rightarrow> (unit py \<times> ('ch, 'c) session_sys) option" where
  "Session_exit D F is S = Session_close D F is S"

definition Session_put ::
  "(status \<Rightarrow> string) \<Rightarrow> ('c, SessionCommand) flume \<Rightarrow> string \<Rightarrow> bytes \<Rightarrow> string option \<Rightarrow> i32 option \<Rightarrow>
   i32 option \<Rightarrow> bool \<Rightarrow> bytes option \<Rightarrow> string option \<Rightarrow> i32 option \<Rightarrow> ('ch, 'c) session_sys \<Rightarrow>
   (unit py \<times> ('ch, 'c) session_sys) option" where
  "Session_put D F key_expr payload encoding congestion_control priority express attachment timestamp allowed_destination S =
     py_call D (GrpcSession_put F (Session_put_args key_expr payload encoding congestion_control priority express
       attachment timestamp allowed_destination) S)"

definition Session_delete ::
  "(status \<Rightarrow> string) \<Rightarrow> ('c, SessionCommand) flume \<Rightarrow> string \<Rightarrow> i32 option \<Rightarrow> i32 option \<Rightarrow> bool \<Rightarrow>
   bytes option \<Rightarrow> string option \<Rightarrow> i32 option \<Rightarrow> ('ch, 'c) session_sys \<Rightarrow>
   (unit py \<times> ('ch, 'c) session_sys) option" where
  "Session_delete D F key_expr congestion_control priority express attachment timestamp allowed_destination S =
     py_call D (GrpcSession_delete F (Session_delete_args key_expr congestion_control priority express
       attachment timestamp allowed_destination) S)"

text \<open>\<open>get\<close> is the core's answer to the arguments: the queue of the reply stream, or an error.\<close>

definition Session_get ::
  "(status \<Rightarrow> string) \<Rightarrow> (SessionGetArgs \<Rightarrow> 'r result) \<Rightarrow> string \<Rightarrow> i32 option \<Rightarrow> i32 option \<Rightarrow> u64 option \<Rightarrow>
   bytes option \<Rightarrow> string option \<Rightarrow> bytes option \<Rightarrow> i32 option \<Rightarrow> 'r py" where
  "Session_get D get selector target consolidation timeout_ms payload encoding attachment allowed_destination =
     map_err D (get (Session_get_args selector target consolidation timeout_ms payload encoding attachment
       allowed_destination))"

definition Session_declare_publisher ::
  "('c, PublisherCommand) flume \<Rightarrow> string \<Rightarrow> string option \<Rightarrow> i32 option \<Rightarrow> i32 option \<Rightarrow> bool \<Rightarrow> i32 option \<Rightarrow>
   i32 option \<Rightarrow> 'ch Inner \<Rightarrow> ('ch, 'c) publisher_sys py" where
  "Session_declare_publisher F key_expr encoding congestion_control priority express reliability allowed_destination s =
     Inr (GrpcSession_declare_publisher F (Session_declare_publisher_args key_expr encoding congestion_control
       priority express reliability allowed_destination) s)"

text \<open>
  The closure around a Python callback: an exception of the callback is printed and forgotten.
  \<open>call1\<close> is the call of the Python function.
\<close>

definition python_callback :: "('a \<Rightarrow> PyErr + unit) \<Rightarrow> 'a \<Rightarrow> PyErr list" where
  "python_callback call1 x = (case call1 x of Inl err \<Rightarrow> [err] | Inr _ \<Rightarrow> [])"

definition Session_declare_subscriber ::
  "('c, pb_SubscriberEvent) flume \<Rightarrow> string \<Rightarrow> (pb_SubscriberEvent \<Rightarrow> PyErr + unit) option \<Rightarrow> i32 option \<Rightarrow>
   'ch Inner \<Rightarrow> (('ch, 'c) subscriber_sys \<times> (pb_SubscriberEvent \<Rightarrow> PyErr list) option) py" where
  "Session_declare_subscriber F key_expr callback allowed_origin s =
     Inr (GrpcSession_declare_subscriber F (Session_declare_subscriber_args key_expr allowed_origin)
            (callback \<noteq> None) s, map_option python_callback callback)"

definition Session_declare_queryable ::
  "('c, QueryableEventEnvelope) flume \<Rightarrow> ('d, QueryableCommand) flume \<Rightarrow> string \<Rightarrow>
   (Query \<Rightarrow> PyErr + unit) option \<Rightarrow> bool \<Rightarrow> i32 option \<Rightarrow> 'ch Inner \<Rightarrow>
   (('ch, 'c, 'd) queryable_sys \<times> (GrpcQuery \<Rightarrow> PyErr list) option) py" where
  "Session_declare_queryable F G key_expr callback complete allowed_origin s =
     Inr (GrpcSession_declare_queryable F G (Session_declare_queryable_args key_expr complete allowed_origin)
            (callback \<noteq> None) s, map_option (\<lambda>call1 q. python_callback call1 (Query_from_inner q)) callback)"

definition Session_declare_querier ::
  "string \<Rightarrow> i32 option \<Rightarrow> i32 option \<Rightarrow> u64 option \<Rightarrow> i32 option \<Rightarrow> 'ch Inner \<Rightarrow> 'ch querier_sys py" where
  "Session_declare_querier key_expr target consolidation timeout_ms allowed_destination s =
     Inr (GrpcSession_declare_querier (Session_declare_querier_args key_expr target consolidation timeout_ms
       allowed_destination) s)"

section \<open>Publishers and subscribers\<close>

definition Publisher_put ::
  "(status \<Rightarrow> string) \<Rightarrow> ('c, PublisherCommand) flume \<Rightarrow> bytes \<Rightarrow> string option \<Rightarrow> bytes option \<Rightarrow>
   string option \<Rightarrow> ('ch, 'c) publisher_sys \<Rightarrow> (unit py \<times> ('ch, 'c) publisher_sys) option" where
  "Publisher_put D F payload encoding attachment timestamp S =
     py_call D (GrpcPublisher_put F (Publisher_put_args payload encoding attachment timestamp) S)"

definition Publisher_delete ::
  "(status \<Rightarrow> string) \<Rightarrow> ('c, PublisherCommand) flume \<Rightarrow> bytes option \<Rightarrow> string option \<Rightarrow>
   ('ch, 'c) publisher_sys \<Rightarrow> (unit py \<times> ('ch, 'c) publisher_sys) option" where
  "Publisher_delete D F attachment timestamp S =
     py_call D (GrpcPublisher_delete F (Publisher_delete_args attachment timestamp) S)"

definition Publisher_undeclare ::
  "(status \<Rightarrow> string) \<Rightarrow> ('c, PublisherCommand) flume \<Rightarrow> 'ch publisher_input list \<Rightarrow>
   ('ch, 'c) publisher_sys \<Rightarrow> (unit py \<times> ('ch, 'c) publisher_sys) option" where
  "Publisher_undeclare D F is S = py_call D (GrpcPublisher_undeclare F is S)"

definition Publisher_exit ::
  "(status \<Rightarrow> string) \<Rightarrow> ('c, PublisherCommand) flume \<Rightarrow> 'ch publisher_input list \<Rightarrow>
   ('ch, 'c) publisher_sys \<Rightarrow> (unit py \<times> ('ch, 'c) publisher_sys) option" where
  "Publisher_exit D F is S = Publisher_undeclare D F is S"

definition Publisher_send_dropped_count :: "('ch, 'c) publisher_sys \<Rightarrow> u64" where
  "Publisher_send_dropped_count S = dropped_count (ps_queue S)"

definition Subscriber_recv ::
  "(status \<Rightarrow> string) \<Rightarrow> ('c, pb_SubscriberEvent) flume \<Rightarrow> ('ch, 'c) subscriber_sys \<Rightarrow>
   (pb_SubscriberEvent py \<times> ('ch, 'c) subscriber_sys) option" where
  "Subscriber_recv D F S = py_call D (GrpcSubscriber_recv F S)"

definition Subscriber_try_recv ::
  "(status \<Rightarrow> string) \<Rightarrow> ('c, pb_SubscriberEvent) flume \<Rightarrow> ('ch, 'c) subscriber_sys \<Rightarrow>
   pb_SubscriberEvent option py \<times> ('ch, 'c) subscriber_sys" where
  "Subscriber_try_recv D F S = (case GrpcSubscriber_try_recv F S of (r, S') \<Rightarrow> (map_err D r, S'))"

definition Subscriber_undeclare ::
  "(status \<Rightarrow> string) \<Rightarrow> ('c, pb_SubscriberEvent) flume \<Rightarrow> 'ch subscriber_input list \<Rightarrow>
   ('ch, 'c) subscriber_sys \<Rightarrow> (unit py \<times> ('ch, 'c) subscriber_sys) option" where
  "Subscriber_undeclare D F is S = py_call D (GrpcSubscriber_undeclare F is S)"

definition Subscriber_exit ::
  "(status \<Rightarrow> string) \<Rightarrow> ('c, pb_SubscriberEvent) flume \<Rightarrow> 'ch subscriber_input list \<Rightarrow>
   ('ch, 'c) subscriber_sys \<Rightarrow> (unit py \<times> ('ch, 'c) subscriber_sys) option" where
  "Subscriber_exit D F is S = Subscriber_undeclare D F is S"

definition Subscriber_dropped_count :: "('ch, 'c) subscriber_sys \<Rightarrow> u64" where
  "Subscriber_dropped_count S = GrpcSubscriber_dropped_count S"

section \<open>Queryables and queriers\<close>

text \<open>\<^verbatim>\<open>is_closed().unwrap_or(false)\<close>: a queryable with a callback refuses the question.\<close>

definition Queryable_next ::
  "(status \<Rightarrow> string) \<Rightarrow> ('c, QueryableEventEnvelope) flume \<Rightarrow> ('ch, 'c, 'd) queryable_sys \<Rightarrow>
   (Query py \<times> ('ch, 'c, 'd) queryable_sys) option" where
  "Queryable_next D F S =
     map_option (\<lambda>(r, S').
       (case r of
          Inr q \<Rightarrow> Inr (Query_from_inner q)
        | Inl err \<Rightarrow>
            Inl (if (case GrpcQueryable_is_closed F S' of Inl _ \<Rightarrow> False | Inr closed_now \<Rightarrow> closed_now)
                 then PyStopIteration (Error_to_string D err) else to_py_err D err), S'))
       (GrpcQueryable_recv F S)"

definition Queryable_recv ::
  "(status \<Rightarrow> string) \<Rightarrow> ('c, QueryableEventEnvelope) flume \<Rightarrow> ('ch, 'c, 'd) queryable_sys \<Rightarrow>
   (Query py \<times> ('ch, 'c, 'd) queryable_sys) option" where
  "Queryable_recv D F S =
     map_option (\<lambda>(r, S'). (map_err D (map_sum id Query_from_inner r), S')) (GrpcQueryable_recv F S)"

definition Queryable_try_recv ::
  "(status \<Rightarrow> string) \<Rightarrow> ('c, QueryableEventEnvelope) flume \<Rightarrow> ('ch, 'c, 'd) queryable_sys \<Rightarrow>
   Query option py \<times> ('ch, 'c, 'd) queryable_sys" where
  "Queryable_try_recv D F S =
     (case GrpcQueryable_try_recv F S of (r, S') \<Rightarrow> (map_err D (map_sum id (map_option Query_from_inner) r), S'))"

definition Queryable_dropped_count :: "(status \<Rightarrow> string) \<Rightarrow> ('ch, 'c, 'd) queryable_sys \<Rightarrow> u64 py" where
  "Queryable_dropped_count D S =
     map_err D (case ensure_pull_mode ''queryable'' (qb_mode S) of
       Inl e \<Rightarrow> Inl e | Inr _ \<Rightarrow> Inr (dropped_count (ev_queue S)))"

definition Queryable_is_closed ::
  "(status \<Rightarrow> string) \<Rightarrow> ('c, QueryableEventEnvelope) flume \<Rightarrow> ('ch, 'c, 'd) queryable_sys \<Rightarrow> bool py" where
  "Queryable_is_closed D F S = map_err D (GrpcQueryable_is_closed F S)"

definition Queryable_undeclare ::
  "(status \<Rightarrow> string) \<Rightarrow> ('c, QueryableEventEnvelope) flume \<Rightarrow> ('d, QueryableCommand) flume \<Rightarrow> 'ch queryable_input list \<Rightarrow>
   ('ch, 'c, 'd) queryable_sys \<Rightarrow> (unit py \<times> ('ch, 'c, 'd) queryable_sys) option" where
  "Queryable_undeclare D F G is S = py_call D (GrpcQueryable_undeclare F G is S)"

definition Queryable_exit ::
  "(status \<Rightarrow> string) \<Rightarrow> ('c, QueryableEventEnvelope) flume \<Rightarrow> ('d, QueryableCommand) flume \<Rightarrow> 'ch queryable_input list \<Rightarrow>
   ('ch, 'c, 'd) queryable_sys \<Rightarrow> (unit py \<times> ('ch, 'c, 'd) queryable_sys) option" where
  "Queryable_exit D F G is S = Queryable_undeclare D F G is S"

definition Queryable_send_dropped_count :: "('ch, 'c, 'd) queryable_sys \<Rightarrow> u64" where
  "Queryable_send_dropped_count S = dropped_count (qb_write S)"

definition Querier_get ::
  "(status \<Rightarrow> string) \<Rightarrow> (QuerierGetArgs \<Rightarrow> 'r result) \<Rightarrow> string option \<Rightarrow> bytes option \<Rightarrow> string option \<Rightarrow>
   bytes option \<Rightarrow> 'r py" where
  "Querier_get D get parameters payload encoding attachment =
     map_err D (get (Querier_get_args parameters payload encoding attachment))"

definition Querier_undeclare ::
  "(status \<Rightarrow> string) \<Rightarrow> ('r, pb_Reply) flume \<Rightarrow> ('ch querier_input, unit rpc_result) call_input list \<Rightarrow>
   ('ch, 'r) querier_pc list \<times> 'ch querier_sys \<Rightarrow>
   (unit py \<times> ('ch, 'r) querier_pc list \<times> 'ch querier_sys) option" where
  "Querier_undeclare D R is S = py_call D (GrpcQuerier_undeclare R is S)"

definition Querier_exit ::
  "(status \<Rightarrow> string) \<Rightarrow> ('r, pb_Reply) flume \<Rightarrow> ('ch querier_input, unit rpc_result) call_input list \<Rightarrow>
   ('ch, 'r) querier_pc list \<times> 'ch querier_sys \<Rightarrow>
   (unit py \<times> ('ch, 'r) querier_pc list \<times> 'ch querier_sys) option" where
  "Querier_exit D R is S = Querier_undeclare D R is S"

end
