(* ===== verification/Py_Calls.thy ===== *)
theory Py_Calls
  imports Py_Objects C_Wrapper
begin

text \<open>
  Properties of the Python library: loops over reply streams, queries in \<^verbatim>\<open>with\<close> statements, and that the
  Python and the C library build the same arguments for the client core.
\<close>

section \<open>Loops over replies\<close>

context reply_channel
begin

lemma for_replies:
  assumes "contents (chan q) = xs" and "senders (chan q) = 0"
  shows "py_for (ReplyStream_next D F) (Suc (length xs)) q =
    (xs, Some (PyStopIteration (Error_to_string D reply_closed)))"
  using assms
proof (induction xs arbitrary: q)
  case Nil
  then show ?case
    by (simp add: ReplyStream_next_def ReplyStream_recv_def recv_def recv_disconnected
        ReplyStream_is_closed_def is_disconnected_def is_disconnected_iff)
next
  case (Cons x xs)
  from recv_Cons [OF Cons.prems(1)] obtain q' where q': "recv F q = Some (Inr x, q')" .
  have "contents (chan q') = xs" "senders (chan q') = 0" using recv_Inr [OF q'] Cons.prems by simp_all
  from Cons.IH [OF this] q' show ?case by (simp add: ReplyStream_next_def ReplyStream_recv_def)
qed

lemma for_delivery:
  "\<exists>q. pump_all F g (map MsgItem rs @ [MsgEnd])
       (ReplyStream (bounded_drop_oldest F RECV_QUEUE_CAPACITY) True, s) = Some (ReplyStream q False, s)
     \<and> py_for (ReplyStream_next D F) (Suc (min RECV_QUEUE_CAPACITY (length rs))) q =
         (newest RECV_QUEUE_CAPACITY rs, Some (PyStopIteration (Error_to_string D reply_closed)))"
proof -
  let ?q = "bounded_drop_oldest F RECV_QUEUE_CAPACITY"
  have new: "contents (chan ?q) = []" "capacity (chan ?q) = RECV_QUEUE_CAPACITY" "receivers (chan ?q)"
    "senders (chan ?q) = 1"
    using bounded_new [of RECV_QUEUE_CAPACITY] by (simp_all add: bounded_drop_oldest_def)
  from push_all_newest [of ?q rs] new obtain q where q: "push_all F rs ?q = Some q"
    "contents (chan q) = newest RECV_QUEUE_CAPACITY rs" "senders (chan q) = 1"
    by (auto simp: RECV_QUEUE_CAPACITY_def)
  let ?r = "q\<lparr>chan := drop_sender F (chan q)\<rparr>"
  have "py_for (ReplyStream_next D F) (Suc (length (newest RECV_QUEUE_CAPACITY rs))) ?r =
      (newest RECV_QUEUE_CAPACITY rs, Some (PyStopIteration (Error_to_string D reply_closed)))"
    by (rule for_replies) (simp_all add: drop_sender_law q)
  then show ?thesis
    by (intro exI [of _ ?r]) (simp add: pump_items [OF q(1)] reply_pump_step_def length_newest)
qed

end

text \<open>
  A \<^verbatim>\<open>for\<close> loop over the replies of a \<^verbatim>\<open>get\<close> ends. When the server answers with the replies \<open>rs\<close> and
  closes the stream, the loop runs over the newest 256 of them in order and then stops by
  \<^verbatim>\<open>StopIteration\<close>, without an error for the program.
\<close>

theorem python_loop_over_replies:
  assumes "bounded_channel F contents capacity receivers senders"
    and "get_answer F g (Inr ()) s = (Inr stream, s')"
  shows "\<exists>q. pump_all F g (map MsgItem rs @ [MsgEnd]) (stream, s') = Some (ReplyStream q False, s)
    \<and> py_for (ReplyStream_next D F) (Suc (min 256 (length rs))) q =
        (newest 256 rs, Some (PyStopIteration (Error_to_string D reply_closed)))"
  using reply_channel.for_delivery [OF reply_channel.intro [OF assms(1)], of g rs s D] assms(2)
  by (auto simp: get_answer_def RECV_QUEUE_CAPACITY_def)

section \<open>Queries in with statements\<close>

fun body_command :: "body_op \<Rightarrow> query_op option" where
  "body_command (BodyReply k p e at ts) = Some (OpReply k p (unwrap_or e []) (unwrap_or at []) (unwrap_or ts []))"
| "body_command (BodyReplyErr p e) = Some (OpReplyErr p (unwrap_or e []))"
| "body_command (BodyReplyDelete k at ts) = Some (OpReplyDelete k (unwrap_or at []) (unwrap_or ts []))"
| "body_command BodyDrop = None"

lemmas query_call_defs = Query_reply_def Query_reply_err_def Query_reply_delete_def answer_with_def
  Query_inner_def GrpcQuery_reply_def GrpcQuery_reply_err_def GrpcQuery_reply_delete_def enqueue_command_def
  map_err_def

lemma dropped_body:
  assumes "py_inner Q = None"
  shows "body_step D G op Q S = Some (Inl already_dropped, Q, S)"
proof -
  have "Q\<lparr>py_inner := None\<rparr> = Q" using assms by (cases Q) simp
  with assms show ?thesis
    by (cases op) (simp_all add: Query_reply_def Query_reply_err_def Query_reply_delete_def answer_with_def
        Query_inner_def Query_drop_def Query_take_inner_def)
qed

lemma dropped_drop: "Query_drop D G \<lparr>py_inner = None\<rparr> S = Some (Inl already_dropped, \<lparr>py_inner = None\<rparr>, S)"
  using dropped_body [of "\<lparr>py_inner = None\<rparr>" D G BodyDrop S] by simp

context queryable_channels
begin

lemma body_answers:
  assumes "cmds.queue_ok n (qb_write S)" and "body_command op = Some a"
  obtains q' where "body_step D G op (Query_from_inner q) S =
      Some (Inr (), Query_from_inner q, S\<lparr>qb_write := q'\<rparr>)"
    "push G (op_command q a) (qb_write S) = Some (Inr (), q')" "cmds.queue_ok n q'"
proof -
  from submit_total [OF assms(1), of "''queryable send queue closed''" "op_command q a"] obtain q' where
    "submit G ''queryable send queue closed'' (op_command q a) (qb_write S) = Some (Inr (), q')"
    "push G (op_command q a) (qb_write S) = Some (Inr (), q')" "cmds.queue_ok n q'" .
  with assms(2) show ?thesis
    by (intro that) (cases op; auto simp: query_call_defs Query_from_inner_def)+
qed

lemma drop_finishes:
  assumes "cmds.queue_ok n (qb_write S)" and "\<not> gq_finished q"
  obtains q' where "Query_drop D G (Query_from_inner q) S = Some (Inr (), \<lparr>py_inner = None\<rparr>, S\<lparr>qb_write := q'\<rparr>)"
    "push G (QcFinish (GrpcQuery_identity q)) (qb_write S) = Some (Inr (), q')"
proof -
  from submit_total [OF assms(1), of "''queryable send queue closed''" "QcFinish (GrpcQuery_identity q)"]
  obtain q' where
    "submit G ''queryable send queue closed'' (QcFinish (GrpcQuery_identity q)) (qb_write S) = Some (Inr (), q')"
    "push G (QcFinish (GrpcQuery_identity q)) (qb_write S) = Some (Inr (), q')" .
  with assms(2) show ?thesis
    by (intro that) (auto simp: Query_drop_def Query_take_inner_def Query_inner_def Query_from_inner_def
        GrpcQuery_finish_def GrpcQuery_drop_def mark_finished_def enqueue_command_def GrpcQuery_identity_def map_err_def)
qed

lemma with_answers:
  assumes "cmds.queue_ok n (qb_write S)" and "\<not> gq_finished q" and "map body_command ops = map Some as"
  shows "\<exists>w. push_all G (map (op_command q) as @ [QcFinish (GrpcQuery_identity q)]) (qb_write S) = Some w
    \<and> with_query D G ops (Query_from_inner q) S = Some (Inr (), \<lparr>py_inner = None\<rparr>, S\<lparr>qb_write := w\<rparr>)
    \<and> with_query D G (ops @ BodyDrop # rest) (Query_from_inner q) S =
        Some (Inl already_dropped, \<lparr>py_inner = None\<rparr>, S\<lparr>qb_write := w\<rparr>)"
  using assms(1,3)
proof (induction ops arbitrary: S as)
  case Nil
  from drop_finishes [OF Nil.prems(1) assms(2), of D] obtain w where
    d: "Query_drop D G (Query_from_inner q) S = Some (Inr (), \<lparr>py_inner = None\<rparr>, S\<lparr>qb_write := w\<rparr>)"
    "push G (QcFinish (GrpcQuery_identity q)) (qb_write S) = Some (Inr (), w)" .
  with Nil.prems(2) show ?case
    by (cases rest) (simp_all add: with_query_def Query_exit_def dropped_body dropped_drop)
next
  case (Cons op ops)
  then obtain a as' where as: "as = a # as'" "body_command op = Some a" "map body_command ops = map Some as'"
    by (cases as) auto
  from body_answers [OF Cons.prems(1) as(2), of D q] obtain q' where
    "body_step D G op (Query_from_inner q) S = Some (Inr (), Query_from_inner q, S\<lparr>qb_write := q'\<rparr>)"
    "push G (op_command q a) (qb_write S) = Some (Inr (), q')" "cmds.queue_ok n q'" .
  with Cons.IH [of "S\<lparr>qb_write := q'\<rparr>" as'] as show ?case by (simp add: with_query_def)
qed


lemma received_with:
  assumes "S0 = GrpcSession_declare_queryable F G req cb s0"
    and "S = run_steps (queryable_step F G) is S0" and "GrpcQueryable_recv F S = Some (Inr q, S1)"
    and "map body_command ops = map Some as"
  shows "\<exists>w. push_all G (map (op_command q) as @ [QcFinish (GrpcQuery_identity q)]) (qb_write S1) = Some w
    \<and> with_query D G ops (Query_from_inner q) S1 = Some (Inr (), \<lparr>py_inner = None\<rparr>, S1\<lparr>qb_write := w\<rparr>)
    \<and> with_query D G (ops @ BodyDrop # rest) (Query_from_inner q) S1 =
        Some (Inl already_dropped, \<lparr>py_inner = None\<rparr>, S1\<lparr>qb_write := w\<rparr>)"
proof -
  have "\<not> gq_finished q"
    using assms(3) by (auto simp: receive_defs Let_def split: option.splits sum.splits if_splits)
  moreover have "cmds.queue_ok SEND_QUEUE_CAPACITY (qb_write S)"
    unfolding assms(2) by (rule rw.ok_run [OF fresh_queryable(3) [OF assms(1)]])
  then have "cmds.queue_ok SEND_QUEUE_CAPACITY (qb_write S1)"
    using rw.step_ok [of S QiRecv S1] assms(3) by simp
  ultimately show ?thesis using with_answers [OF _ _ assms(4)] by blast
qed

end

text \<open>
  C27: a query in a \<^verbatim>\<open>with\<close> statement is finished once. Whatever answers the body gives, the statement
  returns, no exception is raised, and what is submitted to the server are the answers in order
  followed by one \<^verbatim>\<open>Finish\<close>; the object then holds no query, so nothing more is sent when it is freed.
  But a body that drops the query itself makes the statement raise \<^verbatim>\<open>RuntimeError\<close>, although the same
  was sent: \<^verbatim>\<open>__exit__\<close> does not expect a query that is already dropped.
\<close>

theorem python_with_query:
  assumes "bounded_channel F ec ecap er es" and "bounded_channel G contents capacity receivers senders"
    and "S0 = GrpcSession_declare_queryable F G req has_callback s0"
    and "S = run_steps (queryable_step F G) is S0" and "GrpcQueryable_recv F S = Some (Inr q, S1)"
    and "map body_command ops = map Some as"
  shows "\<exists>w. push_all G (map (op_command q) as @ [QcFinish (GrpcQuery_identity q)]) (qb_write S1) = Some w
    \<and> with_query D G ops (Query_from_inner q) S1 = Some (Inr (), \<lparr>py_inner = None\<rparr>, S1\<lparr>qb_write := w\<rparr>)
    \<and> Query_dealloc G \<lparr>py_inner = None\<rparr> (S1\<lparr>qb_write := w\<rparr>) = Some (S1\<lparr>qb_write := w\<rparr>)
    \<and> with_query D G (ops @ BodyDrop # rest) (Query_from_inner q) S1 =
        Some (Inl (PyRuntimeError ''query already dropped''), \<lparr>py_inner = None\<rparr>, S1\<lparr>qb_write := w\<rparr>)"
  using queryable_channels.received_with [OF queryable_channels.intro [OF assms(1,2)] assms(3-6), of D rest]
  by (simp add: Query_dealloc_def already_dropped_def)

section \<open>Agreement with the C library\<close>

lemmas library_args = session_put_args_def session_delete_args_def session_get_args_def publisher_args_def
  subscriber_args_def queryable_args_def querier_args_def querier_get_args_def publisher_put_args_def
  publisher_delete_args_def Session_put_args_def Session_delete_args_def Session_get_args_def
  Session_declare_publisher_args_def Session_declare_subscriber_args_def Session_declare_queryable_args_def
  Session_declare_querier_args_def Querier_get_args_def Publisher_put_args_def Publisher_delete_args_def
  and_then_def done_with_def unwrap_or_def

text \<open>
  The two libraries call the client core with the same arguments. Take strings and buffers that a C
  program passes, directly or in an options structure, and whatever integers and flags the structure
  has: the Python method with the values read from them builds the same arguments, for every
  operation. Both read an endpoint in the same way.
\<close>

theorem libraries_agree:
  assumes "cstr k h = Inr (key, h)" and "payload_vec p n h = Inr (body, h)" and "cstr e h = Inr (enc, h)"
    and "payload_vec a l h = Inr (att, h)" and "cstr t h = Inr (ts, h)"
  shows "session_put_args k p n (Some \<lparr>spo_encoding = e, spo_congestion_control = cc, spo_priority = pr,
        spo_express = ex, spo_attachment = a, spo_attachment_len = l, spo_timestamp = t, spo_allowed_destination = d\<rparr>) h =
      Inr (Session_put_args key body (Some enc) (Some cc) (Some pr) ex (Some att) (Some ts) (Some d), h)
    \<and> session_delete_args k (Some \<lparr>sdo_congestion_control = cc, sdo_priority = pr, sdo_express = ex,
        sdo_attachment = a, sdo_attachment_len = l, sdo_timestamp = t, sdo_allowed_destination = d\<rparr>) h =
      Inr (Session_delete_args key (Some cc) (Some pr) ex (Some att) (Some ts) (Some d), h)
    \<and> session_get_args k (Some \<lparr>sgo_target = tg, sgo_consolidation = co, sgo_timeout_ms = ms, sgo_payload = p,
        sgo_payload_len = n, sgo_encoding = e, sgo_attachment = a, sgo_attachment_len = l, sgo_allowed_destination = d\<rparr>) h =
      Inr (Session_get_args key (Some tg) (Some co) (Some ms) (Some body) (Some enc) (Some att) (Some d), h)
    \<and> publisher_args k (Some \<lparr>pbo_encoding = e, pbo_congestion_control = cc, pbo_priority = pr, pbo_express = ex,
        pbo_reliability = rel, pbo_allowed_destination = d\<rparr>) h =
      Inr (Session_declare_publisher_args key (Some enc) (Some cc) (Some pr) ex (Some rel) (Some d), h)
    \<and> subscriber_args k (Some \<lparr>sbo_allowed_origin = d\<rparr>) h = Inr (Session_declare_subscriber_args key (Some d), h)
    \<and> queryable_args k (Some \<lparr>qbo_complete = ex, qbo_allowed_origin = d\<rparr>) h =
      Inr (Session_declare_queryable_args key ex (Some d), h)
    \<and> querier_args k (Some \<lparr>qro_target = tg, qro_consolidation = co, qro_timeout_ms = ms, qro_allowed_destination = d\<rparr>) h =
      Inr (Session_declare_querier_args key (Some tg) (Some co) (Some ms) (Some d), h)
    \<and> querier_get_args k (Some \<lparr>qgo_payload = p, qgo_payload_len = n, qgo_encoding = e, qgo_attachment = a,
        qgo_attachment_len = l\<rparr>) h =
      Inr (Querier_get_args (Some key) (Some body) (Some enc) (Some att), h)
    \<and> publisher_put_args p n (Some \<lparr>ppo_encoding = e, ppo_attachment = a, ppo_attachment_len = l, ppo_timestamp = t\<rparr>) h =
      Inr (Publisher_put_args body (Some enc) (Some att) (Some ts), h)
    \<and> publisher_delete_args (Some \<lparr>pdo_attachment = a, pdo_attachment_len = l, pdo_timestamp = t\<rparr>) h =
      Inr (Publisher_delete_args (Some att) (Some ts), h)
    \<and> parse_endpoint (Some key) = (case parse_connect_addr key of Inr a \<Rightarrow> Some a | Inl _ \<Rightarrow> None)"
  using assms
  by (intro conjI) (simp_all add: library_args parse_endpoint_def parse_connect_addr_def split: option.split)

text \<open>The same with no options in C and no optional parameters in Python.\<close>

theorem libraries_agree_on_defaults:
  assumes "cstr k h = Inr (key, h)" and "payload_vec p n h = Inr (body, h)"
  shows "session_put_args k p n None h = Inr (Session_put_args key body None None None False None None None, h)
    \<and> session_delete_args k None h = Inr (Session_delete_args key None None False None None None, h)
    \<and> session_get_args k None h = Inr (Session_get_args key None None None None None None None, h)
    \<and> publisher_args k None h = Inr (Session_declare_publisher_args key None None None False None None, h)
    \<and> subscriber_args k None h = Inr (Session_declare_subscriber_args key None, h)
    \<and> queryable_args k None h = Inr (Session_declare_queryable_args key False None, h)
    \<and> querier_args k None h = Inr (Session_declare_querier_args key None None None None, h)
    \<and> querier_get_args k None h = Inr (Querier_get_args (Some key) None None None, h)
    \<and> publisher_put_args p n None h = Inr (Publisher_put_args body None None None, h)
    \<and> publisher_delete_args None h = Inr (Publisher_delete_args None None, h)"
  using assms by (simp add: library_args)

section \<open>Witnesses\<close>

theorem python_loop_over_replies_witness:
  "\<exists>stream q. get_answer fifo_flume 1 (Inr ()) demo_session = (Inr stream, demo_session)
     \<and> pump_all fifo_flume 1 [MsgItem \<lparr>reply_result = None\<rparr>, MsgEnd] (stream, demo_session) =
         Some (ReplyStream q False, demo_session)
     \<and> fst (py_for (ReplyStream_next (\<lambda>_. []) fifo_flume) 2 q) = [\<lparr>reply_result = None\<rparr>]"
proof -
  have a: "get_answer fifo_flume 1 (Inr ()) demo_session =
      (Inr (ReplyStream (bounded_drop_oldest fifo_flume RECV_QUEUE_CAPACITY) True), demo_session)"
    by (simp add: get_answer_def)
  from python_loop_over_replies [OF fifo.bounded_channel_axioms a, of "[\<lparr>reply_result = None\<rparr>]" "\<lambda>_. []"]
  show ?thesis unfolding a by (auto simp: newest_def numeral_2_eq_2)
qed

theorem python_with_query_witness:
  "\<exists>S1 w. GrpcQueryable_recv fifo_flume
      (run_steps (queryable_step fifo_flume fifo_flume) stream_query demo_queryable) = Some (Inr demo_grpc_query, S1)
    \<and> with_query (\<lambda>_. []) fifo_flume [BodyReplyErr [] None] (Query_from_inner demo_grpc_query) S1 =
        Some (Inr (), \<lparr>py_inner = None\<rparr>, S1\<lparr>qb_write := w\<rparr>)
    \<and> with_query (\<lambda>_. []) fifo_flume [BodyReplyErr [] None, BodyDrop] (Query_from_inner demo_grpc_query) S1 =
        Some (Inl (PyRuntimeError ''query already dropped''), \<lparr>py_inner = None\<rparr>, S1\<lparr>qb_write := w\<rparr>)"
proof -
  from stream_query_recv obtain S1 where r: "GrpcQueryable_recv fifo_flume
      (run_steps (queryable_step fifo_flume fifo_flume) stream_query demo_queryable) =
      Some (Inr demo_grpc_query, S1)" ..
  have ops: "map body_command [BodyReplyErr [] None] = map Some [OpReplyErr [] []]"
    by (simp add: unwrap_or_def)
  from python_with_query [OF fifo.bounded_channel_axioms fifo.bounded_channel_axioms demo_queryable_def refl r ops,
      of "\<lambda>_. []" "[]"] r
  show ?thesis by fastforce
qed

text \<open>A memory with a string at address 1.\<close>

definition one_string :: memory where
  "one_string = \<lparr>blocks = [1 \<mapsto> StrBlock ''a/b''], next_addr = 2\<rparr>"

theorem libraries_agree_witness:
  "subscriber_args 1 (Some \<lparr>sbo_allowed_origin = 3\<rparr>) one_string =
     Inr (Session_declare_subscriber_args ''a/b'' (Some 3), one_string)"
proof -
  have str: "cstr 1 one_string = Inr (''a/b'', one_string)"
    by (simp add: cstr_def one_string_def to_string_lossy_def utf8_more_def char_of_def bit_0)
  have empty: "payload_vec 0 0 one_string = Inr ([], one_string)" by (simp add: done_with_def)
  from libraries_agree [OF str empty str empty str] show ?thesis by blast
qed

end
